theory Spec2Isabelle
  imports Main
begin

section \<open>Values exchanged with the remote services\<close>

text \<open>
  The helper module \<^verbatim>\<open>tutorial_helper_functions.py\<close> talks to CMR, to NSIDC's order
  API and to Harmony. The bodies it receives are XML documents (read with
  \<^verbatim>\<open>xml.etree.ElementTree\<close>), JSON documents (read with \<^verbatim>\<open>json.loads\<close>) and zip
  archives. An XML element carries its tag, its \<^verbatim>\<open>text\<close> attribute (\<^verbatim>\<open>None\<close> when the
  element has no character data) and its child elements in document order.
\<close>

datatype xml = Elem (tag: string) (elem_text: "string option") (children: "xml list")

text \<open>JSON values as \<^verbatim>\<open>json.loads\<close> returns them; numbers are the integers the job API
  reports (\<^verbatim>\<open>progress\<close> is an integer percentage).\<close>

datatype json = JNull | JBool bool | JNum int | JStr string
  | JArr "json list" | JObj "(string \<times> json) list"

text \<open>A directory tree: the files of a directory with their contents and its
  subdirectories, each list in the order in which \<^verbatim>\<open>os.scandir\<close> reports the entries.
  That order is the file system's; a tree stands for one listing of the directory.\<close>

datatype dir = Dir (files: "(string \<times> string) list") (subdirs: "(string \<times> dir) list")

text \<open>A response body is represented by what the library parsers make of its bytes:
  an XML document, a JSON document, a zip archive, or bytes that none of the three
  parsers accepts.\<close>

datatype body = XmlDoc xml | JsonDoc json | ZipArchive dir | Raw string

datatype response = NoReply | Reply nat "(string \<times> string) list" body

text \<open>
  The exceptions the modelled code can raise. \<open>DecodeError\<close> is the failure of
  \<^verbatim>\<open>json.loads\<close>: \<^verbatim>\<open>JSONDecodeError\<close> for text that is no JSON document and
  \<^verbatim>\<open>UnicodeDecodeError\<close> for bytes that are no text, both of them \<^verbatim>\<open>ValueError\<close>s; which
  of the two it is depends on the bytes, which the model does not keep. \<open>OSError\<close> stands
  for the class and its subclasses (\<^verbatim>\<open>shutil.Error\<close>, \<^verbatim>\<open>FileNotFoundError\<close>,
  \<^verbatim>\<open>IsADirectoryError\<close>).
\<close>

datatype exn = URLError | HTTPError | ParseError | DecodeError | BadZipFile
  | IndexError | KeyError | TypeError | AttributeError | ValueError | OverflowError
  | NameError string | UnboundLocalError string | OSError
  | RequestsConnectionError | RequestsHTTPError

text \<open>What the program does that an observer can see: printed lines, sleeps and
  network requests, in the order in which they happen.\<close>

datatype arg = S string | T "string option" | J json | N int | X exn
  | Msgs "string option list" | Total "json list"

datatype event = Print "arg list" | PPrint arg | Sleep nat
  | UrlOpen string | HttpGet string | HttpPost string

text \<open>An entry of the working directory: a regular file with the body written to it, or
  a folder.\<close>

datatype entry = File body | Folder

text \<open>
  The world the functions run in. \<open>trace\<close> is the list of events so far, \<open>calls\<close> the
  number of requests handed to \<^verbatim>\<open>urllib\<close> and \<^verbatim>\<open>requests\<close> so far, \<open>outputs\<close> the directory
  \<^verbatim>\<open>os.getcwd() + '/Outputs'\<close> (\<open>None\<close> when it does not exist) and \<open>cwd\<close> the other
  entries directly in the working directory, by name.
\<close>

record world =
  trace :: "event list"
  calls :: nat
  outputs :: "dir option"
  cwd :: "string \<Rightarrow> entry option"

text \<open>
  The remote side as the libraries present it: the outcome of the \<open>n\<close>-th request of the
  run, made for a URL. \<open>Reply\<close> is the reply that ends the exchange, with its status
  code, its headers and its body; redirects that the library follows by itself lie
  before it. \<open>NoReply\<close> is every way in which the library finds nobody to answer: a
  scheme it has no handler for, a host that is missing, unknown or unreachable.
\<close>

type_synonym server = "nat \<Rightarrow> string \<Rightarrow> response"

definition emit :: "event \<Rightarrow> world \<Rightarrow> world" where
  "emit e w = w\<lparr>trace := trace w @ [e]\<rparr>"

text \<open>
  \<^verbatim>\<open>urllib.request.urlopen(url)\<close> followed by \<^verbatim>\<open>.read()\<close>. A string that does not start
  with a scheme (characters other than \<^verbatim>\<open>/\<close> and \<^verbatim>\<open>:\<close>, then \<^verbatim>\<open>:\<close>) is refused with
  \<^verbatim>\<open>ValueError\<close> when the request object is built, and the remote side is not asked.
  Every other string is handed to the library, which the event \<open>UrlOpen\<close> records: with
  nobody to answer the call raises \<^verbatim>\<open>URLError\<close>, and a last reply with a status outside
  200..299 raises \<^verbatim>\<open>HTTPError\<close>.
\<close>

definition has_scheme :: "string \<Rightarrow> bool" where
  "has_scheme url =
     (let p = takeWhile (\<lambda>c. c \<noteq> CHR '':'' \<and> c \<noteq> CHR ''/'') url
      in p \<noteq> [] \<and> length p < length url \<and> url ! length p = CHR '':'')"

definition urlopen :: "server \<Rightarrow> string \<Rightarrow> world \<Rightarrow> (exn + body) \<times> world" where
  "urlopen net url w =
     (if \<not> has_scheme url then (Inl ValueError, w)
      else
        (let w' = (emit (UrlOpen url) w)\<lparr>calls := Suc (calls w)\<rparr> in
         case net (calls w) url of
           NoReply \<Rightarrow> (Inl URLError, w')
         | Reply code hdrs b \<Rightarrow>
             if 200 \<le> code \<and> code < 300 then (Inr b, w') else (Inl HTTPError, w')))"

definition ET_fromstring :: "body \<Rightarrow> exn + xml" where
  "ET_fromstring b = (case b of XmlDoc x \<Rightarrow> Inr x | _ \<Rightarrow> Inl ParseError)"

definition json_loads :: "body \<Rightarrow> exn + json" where
  "json_loads b = (case b of JsonDoc j \<Rightarrow> Inr j | _ \<Rightarrow> Inl DecodeError)"

text \<open>
  \<^verbatim>\<open>root.findall("./name/")\<close>: ElementPath turns a path that ends in \<^verbatim>\<open>/\<close> into
  \<^verbatim>\<open>./name/*\<close>, so the result is every child element of every child of \<open>root\<close>
  tagged \<open>name\<close>, in document order.
\<close>

definition findall_under :: "xml \<Rightarrow> string \<Rightarrow> xml list" where
  "findall_under root name =
     concat (map children (filter (\<lambda>c. tag c = name) (children root)))"

text \<open>The loops of the form
  \<^verbatim>\<open>lst = []; for x in root.findall("./name/"): lst.append(x.text)\<close>.\<close>

definition texts_under :: "xml \<Rightarrow> string \<Rightarrow> string option list" where
  "texts_under root name = map elem_text (findall_under root name)"

text \<open>\<^verbatim>\<open>lst[0]\<close> raises \<^verbatim>\<open>IndexError\<close> on the empty list.\<close>

definition first :: "'a list \<Rightarrow> exn + 'a" where
  "first xs = (case xs of [] \<Rightarrow> Inl IndexError | x # _ \<Rightarrow> Inr x)"

section \<open>The NSIDC order client\<close>

definition base_url :: string where
  "base_url = ''https://n5eil02u.ecs.nsidc.org/egi/request''"

definition still_processing :: "string option \<Rightarrow> bool" where
  "still_processing status \<longleftrightarrow> status = Some ''pending'' \<or> status = Some ''processing''"

text \<open>One pass through the body of the \<^verbatim>\<open>while\<close> loop of \<^verbatim>\<open>request_nsidc_data\<close>
  (lines 190 to 197): it yields the new \<^verbatim>\<open>status\<close> and the new \<^verbatim>\<open>loop_root\<close>.\<close>

definition nsidc_poll_once ::
  "server \<Rightarrow> string \<Rightarrow> string option \<Rightarrow> world \<Rightarrow> (exn + string option \<times> xml) \<times> world" where
  "nsidc_poll_once net statusURL status w =
     (let w1 = emit (Print [S ''Job status is '', T status, S ''. Trying again.'']) w;
          w2 = emit (Sleep 10) w1
      in case urlopen net statusURL w2 of
           (Inl e, w3) \<Rightarrow> (Inl e, w3)
         | (Inr b, w3) \<Rightarrow>
             (case ET_fromstring b of
                Inl e \<Rightarrow> (Inl e, w3)
              | Inr loop_root \<Rightarrow>
                  (case first (texts_under loop_root ''requestStatus'') of
                     Inl e \<Rightarrow> (Inl e, w3)
                   | Inr status' \<Rightarrow> (Inr (status', loop_root), w3))))"

text \<open>The \<^verbatim>\<open>while\<close> loop (lines 189 to 199). \<open>loop_root\<close> is \<open>None\<close> as long as the
  variable is unbound. The loop has no bound on its iterations, so the function is
  partial: \<open>None\<close> is the run that never leaves the loop.\<close>

partial_function (option) nsidc_poll ::
  "server \<Rightarrow> string \<Rightarrow> string option \<Rightarrow> xml option \<Rightarrow> world
     \<Rightarrow> ((exn + string option \<times> xml option) \<times> world) option" where
  "nsidc_poll net statusURL status loop_root w =
     (if still_processing status then
        (case nsidc_poll_once net statusURL status w of
           (Inl e, w') \<Rightarrow> Some (Inl e, w')
         | (Inr (status', root), w') \<Rightarrow> nsidc_poll net statusURL status' (Some root) w')
      else Some (Inr (status, loop_root), w))"

declare nsidc_poll.simps [code]

text \<open>
  The same loop cut off after \<open>n\<close> passes through its body, to look at a run that
  has not left the loop: the run has left the loop within \<open>n\<close> passes, with its result,
  or it has made \<open>n\<close> passes and stands at the head of the loop with the test holding,
  in the given state.
\<close>

datatype ('r, 's) bounded = Exited 'r | Looping 's

fun nsidc_poll_for ::
  "nat \<Rightarrow> server \<Rightarrow> string \<Rightarrow> string option \<Rightarrow> xml option \<Rightarrow> world
     \<Rightarrow> ((exn + string option \<times> xml option) \<times> world,
         string option \<times> xml option \<times> world) bounded" where
  "nsidc_poll_for 0 net statusURL status loop_root w =
     (if still_processing status then Looping (status, loop_root, w)
      else Exited (Inr (status, loop_root), w))"
| "nsidc_poll_for (Suc n) net statusURL status loop_root w =
     (if still_processing status then
        (case nsidc_poll_once net statusURL status w of
           (Inl e, w') \<Rightarrow> Exited (Inl e, w')
         | (Inr (status', root), w') \<Rightarrow> nsidc_poll_for n net statusURL status' (Some root) w')
      else Exited (Inr (status, loop_root), w))"


subsection \<open>The output directory\<close>

text \<open>
  \<^verbatim>\<open>z.extractall(path)\<close>, seen on the directory tree the archive holds: every file of
  the archive is written below \<open>path\<close> (replacing a file of the same name), every
  directory of the archive is created unless it exists. A file that would replace a
  directory and a directory that would replace a file fail with \<^verbatim>\<open>OSError\<close>. The
  result is the error, if any, and the directory as extraction left it. A new entry
  is put behind the entries that exist, which is one of the orders in which the file
  system may list the directory afterwards.
\<close>

fun write_file :: "string \<times> string \<Rightarrow> (string \<times> string) list \<Rightarrow> (string \<times> string) list" where
  "write_file (n, c) [] = [(n, c)]"
| "write_file (n, c) ((m, c') # fs) =
     (if m = n then (n, c) # fs else (m, c') # write_file (n, c) fs)"

fun write_files ::
  "string list \<Rightarrow> (string \<times> string) list \<Rightarrow> (string \<times> string) list
     \<Rightarrow> exn option \<times> (string \<times> string) list" where
  "write_files dnames fs [] = (None, fs)"
| "write_files dnames fs ((n, c) # afs) =
     (if n \<in> set dnames then (Some OSError, fs)
      else write_files dnames (write_file (n, c) fs) afs)"

fun put_dir :: "string \<Rightarrow> dir \<Rightarrow> (string \<times> dir) list \<Rightarrow> (string \<times> dir) list" where
  "put_dir n d [] = [(n, d)]"
| "put_dir n d ((m, d') # ds) =
     (if m = n then (n, d) # ds else (m, d') # put_dir n d ds)"

definition get_dir :: "string \<Rightarrow> (string \<times> dir) list \<Rightarrow> dir" where
  "get_dir n ds = (case map_of ds n of None \<Rightarrow> Dir [] [] | Some d \<Rightarrow> d)"

fun extractall :: "dir \<Rightarrow> dir \<Rightarrow> exn option \<times> dir"
  and extract_subs ::
    "string list \<Rightarrow> (string \<times> dir) list \<Rightarrow> (string \<times> dir) list
       \<Rightarrow> exn option \<times> (string \<times> dir) list" where
  "extractall (Dir afs ads) (Dir fs ds) =
     (case write_files (map fst ds) fs afs of
        (Some e, fs') \<Rightarrow> (Some e, Dir fs' ds)
      | (None, fs') \<Rightarrow>
          (case extract_subs (map fst fs') ads ds of (r, ds') \<Rightarrow> (r, Dir fs' ds')))"
| "extract_subs fnames [] ds = (None, ds)"
| "extract_subs fnames ((n, a) # ads) ds =
     (if n \<in> set fnames then (Some OSError, ds)
      else (case extractall a (get_dir n ds) of
              (Some e, d') \<Rightarrow> (Some e, put_dir n d' ds)
            | (None, d') \<Rightarrow> extract_subs fnames ads (put_dir n d' ds)))"

text \<open>
  \<^verbatim>\<open>shutil.move(os.path.join(root, file), path)\<close> inside \<^verbatim>\<open>try ... except OSError: pass\<close>,
  for the files of one directory in turn. \<open>tdirs\<close> are the names of the directories
  directly under \<open>path\<close> and \<open>flat\<close> the files directly under \<open>path\<close>. Where an entry of
  that name exists under \<open>path\<close>, \<^verbatim>\<open>shutil.move\<close> raises \<^verbatim>\<open>shutil.Error\<close>, an
  \<^verbatim>\<open>OSError\<close>, which is swallowed: the file stays where it is. The result is the
  files under \<open>path\<close> and the files left behind.
\<close>

fun move_files ::
  "string list \<Rightarrow> (string \<times> string) list \<Rightarrow> (string \<times> string) list
     \<Rightarrow> (string \<times> string) list \<times> (string \<times> string) list" where
  "move_files tdirs flat [] = (flat, [])"
| "move_files tdirs flat ((n, c) # fs) =
     (if n \<in> set tdirs \<or> n \<in> set (map fst flat) then
        (case move_files tdirs flat fs of (flat', left) \<Rightarrow> (flat', (n, c) # left))
      else move_files tdirs (flat @ [(n, c)]) fs)"

text \<open>\<^verbatim>\<open>for name in dirs: os.rmdir(os.path.join(root, name))\<close>: \<^verbatim>\<open>os.rmdir\<close> raises
  \<^verbatim>\<open>OSError\<close> on a directory that is not empty, and nothing catches it.\<close>

fun rmdirs :: "(string \<times> dir) list \<Rightarrow> exn option \<times> (string \<times> dir) list" where
  "rmdirs [] = (None, [])"
| "rmdirs ((n, d) # ds) =
     (if files d = [] \<and> subdirs d = [] then rmdirs ds else (Some OSError, (n, d) # ds))"

text \<open>
  \<^verbatim>\<open>os.walk(path, topdown=False)\<close> below \<open>path\<close>: a directory is listed, its
  subdirectories are walked in turn, and only then the loop body runs for the
  directory itself, with the listing made before. The result is the error, if any, the
  files directly under \<open>path\<close>, and what is left of the directory.
\<close>

fun walk_sub ::
  "string list \<Rightarrow> (string \<times> string) list \<Rightarrow> dir
     \<Rightarrow> exn option \<times> (string \<times> string) list \<times> dir"
  and walk_subs ::
    "string list \<Rightarrow> (string \<times> string) list \<Rightarrow> (string \<times> dir) list
       \<Rightarrow> exn option \<times> (string \<times> string) list \<times> (string \<times> dir) list" where
  "walk_sub tdirs flat (Dir fs ds) =
     (case walk_subs tdirs flat ds of
        (Some e, flat1, ds1) \<Rightarrow> (Some e, flat1, Dir fs ds1)
      | (None, flat1, ds1) \<Rightarrow>
          (case move_files tdirs flat1 fs of
             (flat2, left) \<Rightarrow>
               (case rmdirs ds1 of (r, ds2) \<Rightarrow> (r, flat2, Dir left ds2))))"
| "walk_subs tdirs flat [] = (None, flat, [])"
| "walk_subs tdirs flat ((n, d) # ds) =
     (case walk_sub tdirs flat d of
        (Some e, flat1, d') \<Rightarrow> (Some e, flat1, (n, d') # ds)
      | (None, flat1, d') \<Rightarrow>
          (case walk_subs tdirs flat1 ds of (r, flat2, ds') \<Rightarrow> (r, flat2, (n, d') # ds')))"

text \<open>
  The clean-up loop of \<^verbatim>\<open>request_nsidc_data\<close> (lines 219 to 226) on the directory
  \<open>path\<close>. The walk reaches \<open>path\<close> itself last; moving one of its own files into it
  fails because the file exists there, so these files stay.
\<close>

definition flatten :: "dir \<Rightarrow> exn option \<times> dir" where
  "flatten d =
     (case walk_subs (map fst (subdirs d)) (files d) (subdirs d) of
        (Some e, flat1, ds1) \<Rightarrow> (Some e, Dir flat1 ds1)
      | (None, flat1, ds1) \<Rightarrow>
          (case move_files (map fst ds1) flat1 (files d) of
             (flat2, left) \<Rightarrow>
               (case rmdirs ds1 of (r, ds2) \<Rightarrow> (r, Dir flat2 ds2))))"


subsection \<open>\<^verbatim>\<open>request_nsidc_data\<close>\<close>

text \<open>Statements run in sequence: an exception ends the run with the world as it is.\<close>

definition andthen ::
  "(exn + 'a) \<times> 's \<Rightarrow> ('a \<Rightarrow> 's \<Rightarrow> (exn + 'b) \<times> 's) \<Rightarrow> (exn + 'b) \<times> 's" where
  "andthen r f = (case r of (Inl e, w) \<Rightarrow> (Inl e, w) | (Inr x, w) \<Rightarrow> f x w)"

text \<open>\<^verbatim>\<open>'...' + x\<close> where \<open>x\<close> is an element text: \<^verbatim>\<open>None\<close> cannot be concatenated.\<close>

definition as_str :: "string option \<Rightarrow> exn + string" where
  "as_str t = (case t of None \<Rightarrow> Inl TypeError | Some s \<Rightarrow> Inr s)"

text \<open>Lines 168 to 170: the output folder is created unless it exists.\<close>

definition ensure_outputs :: "world \<Rightarrow> world" where
  "ensure_outputs w = (if outputs w = None then w\<lparr>outputs := Some (Dir [] [])\<rparr> else w)"

text \<open>Lines 175 to 188: the order is submitted, the order identifier is read from the
  reply, and the status is asked for once. The result is the order identifier, the
  status URL and the first status.\<close>

definition nsidc_submit ::
  "server \<Rightarrow> string \<Rightarrow> world \<Rightarrow> (exn + string \<times> string \<times> string option) \<times> world" where
  "nsidc_submit net API_request w =
     andthen (urlopen net API_request w) (\<lambda>r w.
     andthen (ET_fromstring r, w) (\<lambda>esir_root w.
     andthen (first (texts_under esir_root ''order''), w) (\<lambda>order_text w.
     andthen (as_str order_text, w) (\<lambda>orderID w.
       let statusURL = base_url @ ''/'' @ orderID;
           w = emit (Print [S ''Order status URL: '', S statusURL]) w
       in
     andthen (urlopen net statusURL w) (\<lambda>request_response w.
     andthen (ET_fromstring request_response, w) (\<lambda>request_root w.
     andthen (first (texts_under request_root ''requestStatus''), w) (\<lambda>status w.
       (Inr (orderID, statusURL, status), w))))))))"

text \<open>Lines 200 to 206. \<^verbatim>\<open>loop_root\<close> is bound only by the loop body.\<close>

definition nsidc_report_errors ::
  "string option \<Rightarrow> xml option \<Rightarrow> world \<Rightarrow> (exn + unit) \<times> world" where
  "nsidc_report_errors status loop_root w =
     (if status = Some ''complete_with_errors'' \<or> status = Some ''failed'' then
        (case loop_root of
           None \<Rightarrow> (Inl (UnboundLocalError ''loop_root''), w)
         | Some root \<Rightarrow>
             (let messagelist = texts_under root ''processInfo'';
                  w = emit (Print [S ''Job status is '', T status]) w;
                  w = emit (Print [S ''error messages:'']) w;
                  w = emit (PPrint (Msgs messagelist)) w
              in (Inr (), w)))
      else (Inr (), w))"

text \<open>\<^verbatim>\<open>zipfile.ZipFile(io.BytesIO(...))\<close> on a body that is no zip archive.\<close>

definition ZipFile :: "body \<Rightarrow> exn + dir" where
  "ZipFile b = (case b of ZipArchive a \<Rightarrow> Inr a | _ \<Rightarrow> Inl BadZipFile)"

definition esir_url :: string where
  "esir_url = ''https://n5eil02u.ecs.nsidc.org/esir/''"

text \<open>Lines 207 to 216. \<open>path\<close> exists since line 170.\<close>

definition nsidc_download ::
  "server \<Rightarrow> string \<Rightarrow> string option \<Rightarrow> world \<Rightarrow> (exn + unit) \<times> world" where
  "nsidc_download net orderID status w =
     (if status = Some ''complete'' \<or> status = Some ''complete_with_errors'' then
        (let downloadURL = esir_url @ orderID @ ''.zip'';
             w = emit (Print [S ''Job status is '', T status]) w;
             w = emit (Print [S ''Zip download URL: '', S downloadURL]) w;
             w = emit (Print [S ''Beginning download of zipped output...'']) w
         in
         andthen (urlopen net downloadURL w) (\<lambda>zip_response w.
         andthen (ZipFile zip_response, w) (\<lambda>z w.
           (case extractall z (case outputs w of None \<Rightarrow> Dir [] [] | Some d \<Rightarrow> d) of
              (Some e, d') \<Rightarrow> (Inl e, w\<lparr>outputs := Some d'\<rparr>)
            | (None, d') \<Rightarrow>
                (Inr (), emit (Print [S ''Download is complete.'']) (w\<lparr>outputs := Some d'\<rparr>))))))
      else (Inr (), emit (Print [S ''Request failed.'']) w))"

text \<open>Lines 219 to 227. \<^verbatim>\<open>os.walk\<close> of a path that does not exist yields nothing.\<close>

definition nsidc_cleanup :: "world \<Rightarrow> (exn + unit) \<times> world" where
  "nsidc_cleanup w =
     (case outputs w of
        None \<Rightarrow> (Inr (), w)
      | Some d \<Rightarrow>
          (case flatten d of
             (Some e, d') \<Rightarrow> (Inl e, w\<lparr>outputs := Some d'\<rparr>)
           | (None, d') \<Rightarrow> (Inr (), w\<lparr>outputs := Some d'\<rparr>)))"

text \<open>Lines 200 to 227: what follows the loop.\<close>

definition nsidc_finish ::
  "server \<Rightarrow> string \<Rightarrow> string option \<Rightarrow> xml option \<Rightarrow> world \<Rightarrow> (exn + unit) \<times> world" where
  "nsidc_finish net orderID status loop_root w =
     andthen (nsidc_report_errors status loop_root w) (\<lambda>_ w.
     andthen (nsidc_download net orderID status w) (\<lambda>_ w.
       nsidc_cleanup w))"

definition request_nsidc_data ::
  "server \<Rightarrow> string \<Rightarrow> world \<Rightarrow> ((exn + unit) \<times> world) option" where
  "request_nsidc_data net API_request w =
     (case nsidc_submit net API_request (ensure_outputs w) of
        (Inl e, w1) \<Rightarrow> Some (Inl e, w1)
      | (Inr (orderID, statusURL, status), w1) \<Rightarrow>
          (case nsidc_poll net statusURL status None w1 of
             None \<Rightarrow> None
           | Some (Inl e, w2) \<Rightarrow> Some (Inl e, w2)
           | Some (Inr (status', loop_root), w2) \<Rightarrow>
               Some (nsidc_finish net orderID status' loop_root w2)))"


section \<open>Python values read from JSON\<close>

text \<open>An expression that can raise, followed by one that uses its value.\<close>

definition seq :: "exn + 'a \<Rightarrow> ('a \<Rightarrow> exn + 'b) \<Rightarrow> exn + 'b" where
  "seq r f = (case r of Inl e \<Rightarrow> Inl e | Inr x \<Rightarrow> f x)"

text \<open>\<^verbatim>\<open>x[k]\<close> with a string key: only a dict can be subscripted by a string.\<close>

definition py_getitem :: "json \<Rightarrow> string \<Rightarrow> exn + json" where
  "py_getitem x k =
     (case x of
        JObj kvs \<Rightarrow> (case map_of kvs k of None \<Rightarrow> Inl KeyError | Some v \<Rightarrow> Inr v)
      | _ \<Rightarrow> Inl TypeError)"

text \<open>\<^verbatim>\<open>x[i]\<close> with an integer index that is not negative.\<close>

definition py_index :: "json \<Rightarrow> nat \<Rightarrow> exn + json" where
  "py_index x i =
     (case x of
        JArr xs \<Rightarrow> (if i < length xs then Inr (xs ! i) else Inl IndexError)
      | JStr s \<Rightarrow> (if i < length s then Inr (JStr [s ! i]) else Inl IndexError)
      | JObj kvs \<Rightarrow> Inl KeyError
      | _ \<Rightarrow> Inl TypeError)"

text \<open>\<^verbatim>\<open>for el in x\<close>: a list gives its elements, a dict its keys, a string its
  characters; nothing else is iterable.\<close>

definition py_iter :: "json \<Rightarrow> exn + json list" where
  "py_iter x =
     (case x of
        JArr xs \<Rightarrow> Inr xs
      | JObj kvs \<Rightarrow> Inr (map (\<lambda>kv. JStr (fst kv)) kvs)
      | JStr s \<Rightarrow> Inr (map (\<lambda>c. JStr [c]) s)
      | _ \<Rightarrow> Inl TypeError)"

definition py_len :: "json \<Rightarrow> exn + nat" where
  "py_len x =
     (case x of
        JArr xs \<Rightarrow> Inr (length xs)
      | JObj kvs \<Rightarrow> Inr (length kvs)
      | JStr s \<Rightarrow> Inr (length s)
      | _ \<Rightarrow> Inl TypeError)"

fun starts_with :: "string \<Rightarrow> string \<Rightarrow> bool" where
  "starts_with [] ys = True"
| "starts_with (x # xs) [] = False"
| "starts_with (x # xs) (y # ys) = (x = y \<and> starts_with xs ys)"

fun contains_str :: "string \<Rightarrow> string \<Rightarrow> bool" where
  "contains_str p [] = (p = [])"
| "contains_str p (y # ys) = (starts_with p (y # ys) \<or> contains_str p ys)"

text \<open>\<^verbatim>\<open>k in x\<close> for a string \<open>k\<close>: key of a dict, element of a list, substring of a
  string.\<close>

definition py_contains :: "string \<Rightarrow> json \<Rightarrow> exn + bool" where
  "py_contains k x =
     (case x of
        JObj kvs \<Rightarrow> Inr (k \<in> set (map fst kvs))
      | JArr xs \<Rightarrow> Inr (JStr k \<in> set xs)
      | JStr s \<Rightarrow> Inr (contains_str k s)
      | _ \<Rightarrow> Inl TypeError)"

text \<open>A list comprehension \<^verbatim>\<open>[f(x) for x in xs]\<close> and one with a condition,
  \<^verbatim>\<open>[x for x in xs if p(x)]\<close>, where \<open>f\<close> and \<open>p\<close> can raise.\<close>

fun collect :: "('a \<Rightarrow> exn + 'b) \<Rightarrow> 'a list \<Rightarrow> exn + 'b list" where
  "collect f [] = Inr []"
| "collect f (x # xs) =
     (case f x of
        Inl e \<Rightarrow> Inl e
      | Inr y \<Rightarrow> (case collect f xs of Inl e \<Rightarrow> Inl e | Inr ys \<Rightarrow> Inr (y # ys)))"

fun select :: "('a \<Rightarrow> exn + bool) \<Rightarrow> 'a list \<Rightarrow> exn + 'a list" where
  "select p [] = Inr []"
| "select p (x # xs) =
     (case p x of
        Inl e \<Rightarrow> Inl e
      | Inr b \<Rightarrow>
          (case select p xs of Inl e \<Rightarrow> Inl e | Inr ys \<Rightarrow> Inr (if b then x # ys else ys)))"

text \<open>\<^verbatim>\<open>s.split(c)\<close> for a separator of one character: the pieces between the
  separators, of which there is always at least one.\<close>

fun split_on :: "char \<Rightarrow> string \<Rightarrow> string list" where
  "split_on c [] = [[]]"
| "split_on c (x # xs) =
     (if x = c then [] # split_on c xs
      else (case split_on c xs of [] \<Rightarrow> [[x]] | y # ys \<Rightarrow> (x # y) # ys))"

text \<open>Only a string has \<^verbatim>\<open>.split\<close>.\<close>

definition py_split :: "json \<Rightarrow> char \<Rightarrow> exn + string list" where
  "py_split x c = (case x of JStr s \<Rightarrow> Inr (split_on c s) | _ \<Rightarrow> Inl AttributeError)"

definition item :: "'a list \<Rightarrow> nat \<Rightarrow> exn + 'a" where
  "item xs i = (if i < length xs then Inr (xs ! i) else Inl IndexError)"

text \<open>
  What the model takes from Python's built-in conversions: \<^verbatim>\<open>str(x)\<close> of a value that
  is not a string, \<^verbatim>\<open>int(s)\<close> of a string (\<open>None\<close> where it raises \<^verbatim>\<open>ValueError\<close>) and
  whether \<^verbatim>\<open>float(s)\<close> accepts a string.
\<close>

record python =
  str_of :: "json \<Rightarrow> string"
  int_of :: "string \<Rightarrow> int option"
  is_float :: "string \<Rightarrow> bool"

text \<open>A value put into a format string.\<close>

definition fmt :: "python \<Rightarrow> json \<Rightarrow> string" where
  "fmt py x = (case x of JStr s \<Rightarrow> s | _ \<Rightarrow> str_of py x)"

text \<open>The search parameters: the dictionary the caller passes in. The functions
  change it in place, so the model hands the dictionary back with every result.\<close>

type_synonym params = "string \<Rightarrow> json option"

definition params_get :: "params \<Rightarrow> string \<Rightarrow> exn + json" where
  "params_get sp k = (case sp k of None \<Rightarrow> Inl KeyError | Some v \<Rightarrow> Inr v)"

section \<open>The Harmony client\<close>

definition harmony_root :: string where
  "harmony_root = ''https://harmony.earthdata.nasa.gov''"

definition cmr_collections_url :: string where
  "cmr_collections_url = ''https://cmr.earthdata.nasa.gov/search/collections.json''"

text \<open>\<^verbatim>\<open>requests.get\<close> and \<^verbatim>\<open>requests.post\<close> raise only when no reply arrives; the
  reply is returned whatever its status code.\<close>

definition requests_get ::
  "server \<Rightarrow> string \<Rightarrow> world \<Rightarrow> (exn + nat \<times> (string \<times> string) list \<times> body) \<times> world" where
  "requests_get net url w =
     (let w' = (emit (HttpGet url) w)\<lparr>calls := Suc (calls w)\<rparr> in
      case net (calls w) url of
        NoReply \<Rightarrow> (Inl RequestsConnectionError, w')
      | Reply code hdrs b \<Rightarrow> (Inr (code, hdrs, b), w'))"

definition requests_post ::
  "server \<Rightarrow> string \<Rightarrow> world \<Rightarrow> (exn + nat \<times> (string \<times> string) list \<times> body) \<times> world" where
  "requests_post net url w =
     (let w' = (emit (HttpPost url) w)\<lparr>calls := Suc (calls w)\<rparr> in
      case net (calls w) url of
        NoReply \<Rightarrow> (Inl RequestsConnectionError, w')
      | Reply code hdrs b \<Rightarrow> (Inr (code, hdrs, b), w'))"

definition dq :: char where
  "dq = CHR 0x22"

text \<open>
  Lines 245 to 256: the fields derived from the CMR reply and from the bounding box
  and the temporal range are stored in the caller's dictionary, one after the other.
  An exception leaves the dictionary with the fields stored so far.
\<close>

definition harmony_derive :: "json \<Rightarrow> params \<Rightarrow> (exn + unit) \<times> params" where
  "harmony_derive cmr_results sp =
     andthen (seq (seq (py_getitem cmr_results ''feed'') (\<lambda>f. py_getitem f ''entry'')) py_iter, sp)
       (\<lambda>entries sp.
     andthen (collect (\<lambda>el. py_getitem el ''id'') entries, sp) (\<lambda>collectionlist sp.
     andthen (first collectionlist, sp) (\<lambda>cid sp.
     andthen (seq (params_get (sp(''collection_id'' \<mapsto> cid)) ''bounding_box'')
                (\<lambda>b. py_split b CHR '',''), sp(''collection_id'' \<mapsto> cid)) (\<lambda>bb sp.
     andthen (item bb 1, sp) (\<lambda>south sp.
     andthen (item bb 3, sp) (\<lambda>north sp.
     andthen (seq (params_get (sp(''lat'' \<mapsto> JStr (''('' @ south @ '':'' @ north @ '')'')))
                     ''bounding_box'') (\<lambda>b. py_split b CHR '',''),
              sp(''lat'' \<mapsto> JStr (''('' @ south @ '':'' @ north @ '')''))) (\<lambda>bb sp.
     andthen (item bb 0, sp) (\<lambda>west sp.
     andthen (item bb 2, sp) (\<lambda>east sp.
     andthen (seq (params_get (sp(''lon'' \<mapsto> JStr (''('' @ west @ '':'' @ east @ '')'')))
                     ''temporal'') (\<lambda>t. py_split t CHR '',''),
              sp(''lon'' \<mapsto> JStr (''('' @ west @ '':'' @ east @ '')''))) (\<lambda>tt sp.
     andthen (item tt 0, sp) (\<lambda>t1 sp.
     andthen (item tt 1, sp) (\<lambda>t2 sp.
       (Inr (), sp(''time'' \<mapsto>
          JStr (''('' @ [dq] @ t1 @ [dq] @ '':'' @ [dq] @ t2 @ [dq] @ '')'')))))))))))))))"

text \<open>Line 258: the request URL, formatted from the dictionary.\<close>

definition harmony_url :: "python \<Rightarrow> params \<Rightarrow> exn + string" where
  "harmony_url py sp =
     seq (params_get sp ''collection_id'') (\<lambda>cid.
     seq (params_get sp ''lat'') (\<lambda>lat.
     seq (params_get sp ''lon'') (\<lambda>lon.
     seq (params_get sp ''time'') (\<lambda>time.
       Inr (harmony_root @ ''/'' @ fmt py cid
            @ ''/ogc-api-coverages/1.0.0/collections/all/coverage/rangeset?&subset=lat''
            @ fmt py lat @ ''&subset=lon'' @ fmt py lon @ ''&subset=time'' @ fmt py time)))))"

text \<open>\<^verbatim>\<open>x < 100\<close> and \<^verbatim>\<open>x == 100\<close> on a JSON value: \<^verbatim>\<open>True\<close> and \<^verbatim>\<open>False\<close> count as 1
  and 0, a value that is no number cannot be ordered and equals no number.\<close>

definition less_than_100 :: "json \<Rightarrow> exn + bool" where
  "less_than_100 x =
     (case x of JNum n \<Rightarrow> Inr (n < 100) | JBool b \<Rightarrow> Inr True | _ \<Rightarrow> Inl TypeError)"

definition equals_100 :: "json \<Rightarrow> bool" where
  "equals_100 x \<longleftrightarrow> x = JNum 100"

text \<open>The condition of the \<^verbatim>\<open>while\<close> loop (line 281); \<^verbatim>\<open>and\<close> reads the progress only
  when the status is \<^verbatim>\<open>running\<close>.\<close>

definition harmony_running :: "json \<Rightarrow> exn + bool" where
  "harmony_running job_json =
     seq (py_getitem job_json ''status'') (\<lambda>status.
       if status = JStr ''running'' then seq (py_getitem job_json ''progress'') less_than_100
       else Inr False)"

text \<open>One pass through the loop body (lines 282 to 288): it yields the new
  \<^verbatim>\<open>job_json\<close>.\<close>

definition harmony_poll_once ::
  "server \<Rightarrow> string \<Rightarrow> json \<Rightarrow> world \<Rightarrow> (exn + json) \<times> world" where
  "harmony_poll_once net job_url job_json w =
     andthen (py_getitem job_json ''progress'', w) (\<lambda>progress w.
     andthen (urlopen net job_url
                (emit (Sleep 10)
                  (emit (Print [S ''Job status is running. Progress is '', J progress,
                                S ''%. Trying again.'']) w))) (\<lambda>loop_results w.
     andthen (json_loads loop_results, w) (\<lambda>job_json' w.
     andthen (py_getitem job_json' ''status'', w) (\<lambda>_ w.
       (Inr job_json', w)))))"

text \<open>The \<^verbatim>\<open>while\<close> loop of \<^verbatim>\<open>request_harmony_data\<close> (lines 281 to 288), as unbounded
  as the one of the NSIDC client.\<close>

partial_function (option) harmony_poll ::
  "server \<Rightarrow> string \<Rightarrow> json \<Rightarrow> world \<Rightarrow> ((exn + json) \<times> world) option" where
  "harmony_poll net job_url job_json w =
     (case harmony_running job_json of
        Inl e \<Rightarrow> Some (Inl e, w)
      | Inr running \<Rightarrow>
          if running then
            (case harmony_poll_once net job_url job_json w of
               (Inl e, w') \<Rightarrow> Some (Inl e, w')
             | (Inr job_json', w') \<Rightarrow> harmony_poll net job_url job_json' w')
          else Some (Inr job_json, w))"

declare harmony_poll.simps [code]

text \<open>The loop cut off after \<open>n\<close> passes through its body.\<close>

fun harmony_poll_for ::
  "nat \<Rightarrow> server \<Rightarrow> string \<Rightarrow> json \<Rightarrow> world
     \<Rightarrow> ((exn + json) \<times> world, json \<times> world) bounded" where
  "harmony_poll_for 0 net job_url job_json w =
     (case harmony_running job_json of
        Inl e \<Rightarrow> Exited (Inl e, w)
      | Inr running \<Rightarrow> if running then Looping (job_json, w) else Exited (Inr job_json, w))"
| "harmony_poll_for (Suc n) net job_url job_json w =
     (case harmony_running job_json of
        Inl e \<Rightarrow> Exited (Inl e, w)
      | Inr running \<Rightarrow>
          if running then
            (case harmony_poll_once net job_url job_json w of
               (Inl e, w') \<Rightarrow> Exited (Inl e, w')
             | (Inr job_json', w') \<Rightarrow> harmony_poll_for n net job_url job_json' w')
          else Exited (Inr job_json, w))"

text \<open>\<^verbatim>\<open>link.get('rel', 'data') == 'data'\<close>: only a dict has \<^verbatim>\<open>.get\<close>.\<close>

definition rel_is_data :: "json \<Rightarrow> exn + bool" where
  "rel_is_data link =
     (case link of
        JObj kvs \<Rightarrow>
          Inr ((case map_of kvs ''rel'' of None \<Rightarrow> JStr ''data'' | Some r \<Rightarrow> r) = JStr ''data'')
      | _ \<Rightarrow> Inl AttributeError)"

text \<open>
  \<^verbatim>\<open>open(filepath, 'wb')\<close> for a name without \<^verbatim>\<open>/\<close>: the file is created empty in the
  working directory, or emptied. A name with a NUL character is refused with
  \<^verbatim>\<open>ValueError\<close>; the empty name, a name of more than 255 bytes (the limit of the
  file systems of Linux) and the name of a directory cannot be opened. The working
  directory itself is taken to be writable.
\<close>

definition open_wb :: "string \<Rightarrow> world \<Rightarrow> (exn + unit) \<times> world" where
  "open_wb name w =
     (if CHR 0x00 \<in> set name then (Inl ValueError, w)
      else if name = [] \<or> name = ''.'' \<or> name = ''..'' \<or> 255 < length name
              \<or> cwd w name = Some Folder \<or> (name = ''Outputs'' \<and> outputs w \<noteq> None)
      then (Inl OSError, w)
      else (Inr (), w\<lparr>cwd := (cwd w)(name \<mapsto> File (Raw []))\<rparr>))"

definition href_str :: "json \<Rightarrow> exn + string" where
  "href_str x = (case x of JStr s \<Rightarrow> Inr s | _ \<Rightarrow> Inl AttributeError)"

text \<open>Line 296: \<^verbatim>\<open>link_dict['href'].split('/')[-1]\<close>.\<close>

definition filepath_of :: "string \<Rightarrow> string" where
  "filepath_of url = last (split_on CHR ''/'' url)"

text \<open>The download loop (lines 293 to 300) over the selected links. The file is opened
  before the link is requested, and the body of the reply is written to it.\<close>

fun harmony_fetch :: "server \<Rightarrow> json list \<Rightarrow> world \<Rightarrow> (exn + unit) \<times> world" where
  "harmony_fetch net [] w = (Inr (), w)"
| "harmony_fetch net (link_dict # links) w =
     (case py_getitem link_dict ''href'' of
        Inl e \<Rightarrow> (Inl e, w)
      | Inr href \<Rightarrow>
          (case href_str href of
             Inl e \<Rightarrow> (Inl e, emit (Print [J href]) w)
           | Inr url \<Rightarrow>
               (case open_wb (filepath_of url) (emit (Print [J href]) w) of
                  (Inl e, w1) \<Rightarrow> (Inl e, w1)
                | (Inr _, w1) \<Rightarrow>
                    (case urlopen net url w1 of
                       (Inl e, w2) \<Rightarrow> (Inl e, w2)
                     | (Inr data, w2) \<Rightarrow>
                         harmony_fetch net links
                           (w2\<lparr>cwd := (cwd w2)(filepath_of url \<mapsto> File data)\<rparr>)))))"

text \<open>Lines 290 to 301: what follows the loop.\<close>

definition harmony_results :: "server \<Rightarrow> json \<Rightarrow> world \<Rightarrow> (exn + unit) \<times> world" where
  "harmony_results net job_json w =
     andthen (py_getitem job_json ''progress'', w) (\<lambda>progress w.
       if equals_100 progress then
         andthen (seq (seq (py_getitem job_json ''links'') py_iter) (select rel_is_data),
                  emit (Print [S ''Job progress is 100%. Output links printed below:'']) w)
           (\<lambda>links w. harmony_fetch net links w)
       else (Inr (), w))"

text \<open>Lines 258 to 278: the request is sent, the job identifier is read from the
  reply, and the job is asked for once. The result is the job URL and the first
  \<^verbatim>\<open>job_json\<close>.\<close>

definition harmony_submit ::
  "python \<Rightarrow> server \<Rightarrow> params \<Rightarrow> world \<Rightarrow> (exn + string \<times> json) \<times> world" where
  "harmony_submit py net sp w =
     andthen (harmony_url py sp, w) (\<lambda>url w.
     andthen (urlopen net url (emit (Print [S ''Request URL'', S url]) w)) (\<lambda>harmony_response w.
     andthen (json_loads harmony_response, w) (\<lambda>async_json w.
     andthen (py_getitem async_json ''jobID'', emit (PPrint (J async_json)) w) (\<lambda>jobID w.
     andthen (urlopen net (harmony_root @ ''/jobs/'' @ fmt py jobID)
                (emit (Print [S ''Job URL'', S (harmony_root @ ''/jobs/'' @ fmt py jobID)]) w))
       (\<lambda>job_results w.
     andthen (json_loads job_results, w) (\<lambda>job_json w.
       (Inr (harmony_root @ ''/jobs/'' @ fmt py jobID, job_json),
        emit (PPrint (J job_json)) (emit (Print []) (emit (Print [S ''Job response:'']) w)))))))))"

text \<open>Lines 241 to 256: the collection is looked up in CMR and the derived fields are
  stored in \<^verbatim>\<open>search_parameters\<close>.\<close>

definition harmony_prepare ::
  "server \<Rightarrow> params \<Rightarrow> world \<Rightarrow> (exn + unit) \<times> params \<times> world" where
  "harmony_prepare net sp w =
     (case requests_get net cmr_collections_url w of
        (Inl e, w1) \<Rightarrow> (Inl e, sp, w1)
      | (Inr (code, hdrs, content), w1) \<Rightarrow>
          (case json_loads content of
             Inl e \<Rightarrow> (Inl e, sp, w1)
           | Inr cmr_results \<Rightarrow>
               (case harmony_derive cmr_results sp of (r, sp') \<Rightarrow> (r, sp', w1))))"

text \<open>\<^verbatim>\<open>request_harmony_data(search_parameters, token)\<close>. The result is what the call
  does (it returns nothing, or raises), the caller's dictionary and the world.\<close>

definition request_harmony_data ::
  "python \<Rightarrow> server \<Rightarrow> params \<Rightarrow> json \<Rightarrow> world \<Rightarrow> ((exn + unit) \<times> params \<times> world) option" where
  "request_harmony_data py net search_parameters token w =
     (case harmony_prepare net search_parameters w of
        (Inl e, sp, w1) \<Rightarrow> Some (Inl e, sp, w1)
      | (Inr _, sp, w1) \<Rightarrow>
          (case harmony_submit py net sp w1 of
             (Inl e, w2) \<Rightarrow> Some (Inl e, sp, w2)
           | (Inr (job_url, job_json), w2) \<Rightarrow>
               (case harmony_poll net job_url job_json w2 of
                  None \<Rightarrow> None
                | Some (Inl e, w3) \<Rightarrow> Some (Inl e, sp, w3)
                | Some (Inr job_json', w3) \<Rightarrow>
                    (case harmony_results net job_json' w3 of (r, w4) \<Rightarrow> Some (r, sp, w4)))))"

section \<open>The CMR search client\<close>

text \<open>
  The names bound at the top level of \<^verbatim>\<open>tutorial_helper_functions.py\<close>: what its
  \<^verbatim>\<open>import\<close> statements bring in (lines 6 to 25), \<^verbatim>\<open>TOKEN_DATA\<close> and the functions it
  defines. A name used in a function that is neither assigned there nor in this list
  nor a Python built-in raises \<^verbatim>\<open>NameError\<close> when it is evaluated.
\<close>

definition module_globals :: "string list" where
  "module_globals =
     [''netrc'', ''system'', ''getpass'', ''request'', ''CookieJar'', ''join'', ''expanduser'',
      ''requests'', ''pprint'', ''json'', ''os'', ''ET'', ''shutil'', ''time'', ''zipfile'',
      ''io'', ''h5py'', ''Path'', ''pd'', ''np'', ''TOKEN_DATA'', ''setup_cmr_token_auth'',
      ''setup_earthdata_login_auth'', ''search_granules'', ''search_services'',
      ''request_nsidc_data'', ''request_harmony_data'', ''load_icesat2_as_dataframe'']"

text \<open>The built-in names the two search functions use.\<close>

definition builtin_names :: "string list" where
  "builtin_names = [''Exception'', ''print'', ''open'', ''int'', ''float'', ''sum'', ''range'', ''len'']"

definition name_bound :: "string list \<Rightarrow> string \<Rightarrow> bool" where
  "name_bound locals n \<longleftrightarrow> n \<in> set locals \<or> n \<in> set module_globals \<or> n \<in> set builtin_names"

text \<open>\<^verbatim>\<open>response.raise_for_status()\<close> raises for the status codes 400 to 599.\<close>

definition raise_for_status :: "nat \<Rightarrow> exn + unit" where
  "raise_for_status code = (if 400 \<le> code \<and> code < 600 then Inl RequestsHTTPError else Inr ())"

text \<open>
  The \<^verbatim>\<open>except\<close> clauses of lines 93 to 96 (and 134 to 137), entered with the exception
  \<open>e\<close> that the \<^verbatim>\<open>try\<close> block raised; \<open>response\<close> is the reply if line 91 had bound it.
  Python evaluates the expression of an \<^verbatim>\<open>except\<close> clause when an exception reaches
  it: \<^verbatim>\<open>HTTPError\<close> first, which no \<^verbatim>\<open>import\<close> of the module binds. The first handler
  prints \<^verbatim>\<open>http_error\<close>, where the clause binds \<^verbatim>\<open>http_err\<close>.
\<close>

definition cmr_except ::
  "exn \<Rightarrow> 'r option \<Rightarrow> world \<Rightarrow> (exn + 'r option) \<times> world" where
  "cmr_except e response w =
     (if \<not> name_bound [''response''] ''HTTPError'' then (Inl (NameError ''HTTPError''), w)
      else if e = RequestsHTTPError then
        (if \<not> name_bound [''response'', ''http_err''] ''http_error''
         then (Inl (NameError ''http_error''), w)
         else (Inr response, emit (Print [S ''HTTP Error: '']) w))
      else (Inr response, emit (Print [S ''Error: '', X e]) w))"

text \<open>The \<^verbatim>\<open>try\<close> statement (lines 90 to 96 and 131 to 137). The result is \<^verbatim>\<open>response\<close>,
  \<open>None\<close> when the statement ends with the variable unbound.\<close>

definition cmr_try ::
  "server \<Rightarrow> string \<Rightarrow> world
     \<Rightarrow> (exn + (nat \<times> (string \<times> string) list \<times> body) option) \<times> world" where
  "cmr_try net url w =
     (case requests_post net url w of
        (Inl e, w1) \<Rightarrow> cmr_except e None w1
      | (Inr (code, hdrs, content), w1) \<Rightarrow>
          (case raise_for_status code of
             Inl e \<Rightarrow> cmr_except e (Some (code, hdrs, content)) w1
           | Inr _ \<Rightarrow> (Inr (Some (code, hdrs, content)), w1)))"

text \<open>\<^verbatim>\<open>response.headers['CMR-Hits']\<close>: the headers of \<^verbatim>\<open>requests\<close> ignore the case of
  ASCII letters in a name.\<close>

definition lower :: "char \<Rightarrow> char" where
  "lower c =
     (let n = (of_char c :: nat) in if 65 \<le> n \<and> n \<le> 90 then char_of (n + 32) else c)"

definition header :: "(string \<times> string) list \<Rightarrow> string \<Rightarrow> exn + string" where
  "header hdrs name =
     (case map_of (map (\<lambda>(k, v). (map lower k, v)) hdrs) (map lower name) of
        None \<Rightarrow> Inl KeyError
      | Some v \<Rightarrow> Inr v)"

text \<open>Line 98 (and 139): \<^verbatim>\<open>hits = int(response.headers['CMR-Hits'])\<close>. The result is
  \<^verbatim>\<open>hits\<close> and the body of the reply, which the lines that follow read.\<close>

definition cmr_hits ::
  "python \<Rightarrow> (nat \<times> (string \<times> string) list \<times> body) option \<Rightarrow> exn + int \<times> body" where
  "cmr_hits py response =
     (case response of
        None \<Rightarrow> Inl (UnboundLocalError ''response'')
      | Some (code, hdrs, content) \<Rightarrow>
          seq (header hdrs ''CMR-Hits'') (\<lambda>h.
            case int_of py h of None \<Rightarrow> Inl ValueError | Some n \<Rightarrow> Inr (n, content)))"

text \<open>\<^verbatim>\<open>float(x)\<close> succeeds on a string that reads as a number and on an integer that
  rounds to a double; an integer of absolute value \<^verbatim>\<open>2**1024 - 2**970\<close> or more raises
  \<^verbatim>\<open>OverflowError\<close>.\<close>

definition py_float :: "python \<Rightarrow> json \<Rightarrow> exn + json" where
  "py_float py x =
     (case x of
        JNum n \<Rightarrow> (if \<bar>n\<bar> < 2 ^ 1024 - 2 ^ 970 then Inr x else Inl OverflowError)
      | JBool b \<Rightarrow> Inr x
      | JStr s \<Rightarrow> (if is_float py s then Inr x else Inl ValueError)
      | _ \<Rightarrow> Inl TypeError)"

definition granules_url :: string where
  "granules_url = ''https://cmr.earthdata.nasa.gov/search/granules''"

text \<open>\<^verbatim>\<open>if geojson: files = {... open(geojson, "r") ...}\<close> (lines 79 to 82), for the name
  of a file in the working directory: the file must exist. The empty string counts as
  no file given.\<close>

definition open_geojson :: "string option \<Rightarrow> world \<Rightarrow> exn + unit" where
  "open_geojson geojson w =
     (case geojson of
        None \<Rightarrow> Inr ()
      | Some path \<Rightarrow>
          if path = [] then Inr ()
          else (case cwd w path of Some (File b) \<Rightarrow> Inr () | _ \<Rightarrow> Inl OSError))"

text \<open>Lines 99 to 109. The sizes are only added up and printed; the printed line
  records the values that were converted.\<close>

definition granules_report ::
  "python \<Rightarrow> int \<Rightarrow> body \<Rightarrow> world \<Rightarrow> (exn + json option) \<times> world" where
  "granules_report py hits content w =
     (if hits > 0 then
        andthen (json_loads content, emit (Print [S ''Found '', N hits, S '' files'']) w) (\<lambda>results w.
        andthen (seq (seq (py_getitem results ''feed'') (\<lambda>f. py_getitem f ''entry'')) py_iter, w)
          (\<lambda>granules w.
        andthen (collect (\<lambda>granule. seq (py_getitem granule ''granule_size'') (py_float py))
                   granules, w) (\<lambda>granule_sizes w.
        andthen (json_loads content,
                 emit (Print [S ''The total size of all files is '', Total granule_sizes, S '' MB'']) w)
          (\<lambda>result w. (Inr (Some result), w)))))
      else (Inr None, emit (Print [S ''Found no hits'']) w))"

text \<open>\<^verbatim>\<open>search_granules(search_parameters, token, geojson, output_format)\<close>. The token
  is stored in the caller's dictionary by the first statement that has an effect
  (line 77).\<close>

definition search_granules ::
  "python \<Rightarrow> server \<Rightarrow> params \<Rightarrow> json \<Rightarrow> string option \<Rightarrow> string \<Rightarrow> world
     \<Rightarrow> (exn + json option) \<times> params \<times> world" where
  "search_granules py net search_parameters token geojson output_format w =
     (let sp = search_parameters(''token'' \<mapsto> token) in
      case open_geojson geojson w of
        Inl e \<Rightarrow> (Inl e, sp, w)
      | Inr _ \<Rightarrow>
          (case cmr_try net (granules_url @ ''.'' @ output_format) w of
             (Inl e, w1) \<Rightarrow> (Inl e, sp, w1)
           | (Inr response, w1) \<Rightarrow>
               (case cmr_hits py response of
                  Inl e \<Rightarrow> (Inl e, sp, w1)
                | Inr (hits, content) \<Rightarrow>
                    (case granules_report py hits content w1 of (r, w2) \<Rightarrow> (r, sp, w2)))))"

definition collections_url :: string where
  "collections_url = ''https://cmr.earthdata.nasa.gov/search/collections''"

definition services_url :: string where
  "services_url = ''https://cmr.earthdata.nasa.gov/search/services''"

text \<open>One pass through the loop of lines 146 to 149, for the index \<open>i\<close>.\<close>

definition service_options ::
  "python \<Rightarrow> server \<Rightarrow> json \<Rightarrow> nat \<Rightarrow> world \<Rightarrow> (exn + unit) \<times> world" where
  "service_options py net services i w =
     andthen (py_index services i, w) (\<lambda>concept w.
     andthen (requests_get net (services_url @ ''.umm_json?concept-id='' @ fmt py concept) w)
       (\<lambda>(code, hdrs, content) w.
     andthen (json_loads content, w) (\<lambda>response w.
     andthen (seq (seq (py_getitem response ''items'') (\<lambda>x. py_index x 0))
                (\<lambda>x. py_getitem x ''umm''), w) (\<lambda>umm w.
     andthen (py_contains ''ServiceOptions'' umm, w) (\<lambda>present w.
       if present then
         andthen (py_getitem umm ''ServiceOptions'', w) (\<lambda>opts w. (Inr (), emit (PPrint (J opts)) w))
       else (Inr (), w))))))"

fun services_loop ::
  "python \<Rightarrow> server \<Rightarrow> json \<Rightarrow> nat list \<Rightarrow> world \<Rightarrow> (exn + unit) \<times> world" where
  "services_loop py net services [] w = (Inr (), w)"
| "services_loop py net services (i # is) w =
     (case service_options py net services i w of
        (Inl e, w') \<Rightarrow> (Inl e, w')
      | (Inr _, w') \<Rightarrow> services_loop py net services is w')"

text \<open>Lines 140 to 155.\<close>

definition services_report ::
  "python \<Rightarrow> server \<Rightarrow> int \<Rightarrow> body \<Rightarrow> world \<Rightarrow> (exn + unit) \<times> world" where
  "services_report py net hits content w =
     (if hits > 0 then
        andthen (json_loads content, w) (\<lambda>response w.
        andthen (seq (seq (seq (py_getitem response ''feed'') (\<lambda>x. py_getitem x ''entry''))
                   (\<lambda>x. py_index x 0)) (\<lambda>x. py_getitem x ''associations''), w) (\<lambda>assoc w.
        andthen (py_contains ''services'' assoc, w) (\<lambda>present w.
          if present then
            andthen (py_getitem assoc ''services'', w) (\<lambda>services w.
            andthen (py_len services, w) (\<lambda>n w.
              services_loop py net services [0..<n] w))
          else (Inr (), emit (Print [S ''Found no services'']) w))))
      else (Inr (), emit (Print [S ''Found no hits'']) w))"

text \<open>\<^verbatim>\<open>search_services(search_parameters, token, output_format)\<close>.\<close>

definition search_services ::
  "python \<Rightarrow> server \<Rightarrow> params \<Rightarrow> json \<Rightarrow> string \<Rightarrow> world \<Rightarrow> (exn + unit) \<times> params \<times> world" where
  "search_services py net search_parameters token output_format w =
     (let sp = search_parameters(''token'' \<mapsto> token) in
      case cmr_try net (collections_url @ ''.'' @ output_format) w of
        (Inl e, w1) \<Rightarrow> (Inl e, sp, w1)
      | (Inr response, w1) \<Rightarrow>
          (case cmr_hits py response of
             Inl e \<Rightarrow> (Inl e, sp, w1)
           | Inr (hits, content) \<Rightarrow>
               (case services_report py net hits content w1 of (r, w2) \<Rightarrow> (r, sp, w2))))"

section \<open>Statuses and services used in the properties\<close>

text \<open>The statuses of an order that the specification calls terminal.\<close>

definition terminal :: "string option \<Rightarrow> bool" where
  "terminal status \<longleftrightarrow>
     status = Some ''complete'' \<or> status = Some ''complete_with_errors'' \<or> status = Some ''failed''"

text \<open>A service that never reports a terminal status: whatever is asked and whenever,
  the reply is a status document that reads \<^verbatim>\<open>pending\<close> or \<^verbatim>\<open>processing\<close>, respectively
  a job that is \<^verbatim>\<open>running\<close> with a progress below 100.\<close>

definition nsidc_busy :: "server \<Rightarrow> bool" where
  "nsidc_busy net \<longleftrightarrow>
     (\<forall>n url. \<exists>code hdrs root status.
        net n url = Reply code hdrs (XmlDoc root) \<and> 200 \<le> code \<and> code < 300 \<and>
        first (texts_under root ''requestStatus'') = Inr status \<and> still_processing status)"

definition harmony_busy :: "server \<Rightarrow> bool" where
  "harmony_busy net \<longleftrightarrow>
     (\<forall>n url. \<exists>code hdrs job.
        net n url = Reply code hdrs (JsonDoc job) \<and> 200 \<le> code \<and> code < 300 \<and>
        harmony_running job = Inr True)"

text \<open>A link whose \<^verbatim>\<open>rel\<close> field equals \<^verbatim>\<open>"data"\<close> or is absent, in the words of the
  specification.\<close>

definition rel_data_or_absent :: "json \<Rightarrow> bool" where
  "rel_data_or_absent link \<longleftrightarrow>
     (case link of
        JObj kvs \<Rightarrow> map_of kvs ''rel'' = None \<or> map_of kvs ''rel'' = Some (JStr ''data'')
      | _ \<Rightarrow> False)"

text \<open>The URLs opened with \<^verbatim>\<open>urlopen\<close> in a trace, the URL of a link (its \<^verbatim>\<open>href\<close> field,
  when that is a string) and the file name a link is stored under.\<close>

fun opened :: "event list \<Rightarrow> string list" where
  "opened [] = []"
| "opened (UrlOpen u # es) = u # opened es"
| "opened (e # es) = opened es"

definition href :: "json \<Rightarrow> string" where
  "href link = (case py_getitem link ''href'' of Inr (JStr url) \<Rightarrow> url | _ \<Rightarrow> [])"

definition target :: "json \<Rightarrow> string" where
  "target link = (case py_getitem link ''href'' of Inr (JStr url) \<Rightarrow> filepath_of url | _ \<Rightarrow> [])"

text \<open>All the files of a directory tree, those of the subdirectories first, and all the
  files below a list of subdirectories; a list of subdirectories with everything taken
  out of them.\<close>

fun deep_files :: "dir \<Rightarrow> (string \<times> string) list"
  and deep_files_list :: "(string \<times> dir) list \<Rightarrow> (string \<times> string) list" where
  "deep_files (Dir fs ds) = deep_files_list ds @ fs"
| "deep_files_list [] = []"
| "deep_files_list ((n, d) # ds) = deep_files d @ deep_files_list ds"

definition emptied :: "(string \<times> dir) list \<Rightarrow> (string \<times> dir) list" where
  "emptied ds = map (\<lambda>nd. (fst nd, Dir [] [])) ds"

text \<open>A directory lists a name once, as a file or as a subdirectory, and so do its
  subdirectories.\<close>

fun wf_dir :: "dir \<Rightarrow> bool" and wf_dirs :: "(string \<times> dir) list \<Rightarrow> bool" where
  "wf_dir (Dir fs ds) \<longleftrightarrow> distinct (map fst fs @ map fst ds) \<and> wf_dirs ds"
| "wf_dirs [] \<longleftrightarrow> True"
| "wf_dirs ((n, d) # ds) \<longleftrightarrow> wf_dir d \<and> wf_dirs ds"

section \<open>Example runs\<close>

text \<open>A world with no output folder and no files, before anything has happened.\<close>

definition fresh_world :: world where
  "fresh_world = \<lparr>trace = [], calls = 0, outputs = None, cwd = (\<lambda>_. None)\<rparr>"

text \<open>An order reply and status replies shaped as NSIDC sends them.\<close>

definition order_doc :: xml where
  "order_doc =
     Elem ''agentResponse'' None [Elem ''order'' None [Elem ''id'' (Some ''ORD1'') []]]"

definition status_doc :: "string \<Rightarrow> xml" where
  "status_doc s = Elem ''agentResponse'' None
     [Elem ''processInfo'' None [Elem ''message'' (Some ''No data found'') []],
      Elem ''requestStatus'' None [Elem ''status'' (Some s) []]]"

definition api_request :: string where
  "api_request = ''https://n5eil02u.ecs.nsidc.org/egi/request?short_name=ATL07''"

text \<open>A service whose first status reply is already \<^verbatim>\<open>failed\<close>.\<close>

definition failed_at_once :: server where
  "failed_at_once n url =
     (if n = 0 then Reply 200 [] (XmlDoc order_doc)
      else Reply 200 [] (XmlDoc (status_doc ''failed'')))"

definition status_url :: string where
  "status_url = ''https://n5eil02u.ecs.nsidc.org/egi/request/ORD1''"

text \<open>A service that answers every request with the status \<^verbatim>\<open>pending\<close>.\<close>

definition always_pending :: server where
  "always_pending n url = Reply 200 [] (XmlDoc (status_doc ''pending''))"

text \<open>A Harmony job document and a service on which the job never gets past 40
  percent.\<close>

definition job_doc :: "string \<Rightarrow> int \<Rightarrow> json list \<Rightarrow> json" where
  "job_doc status progress links =
     JObj [(''jobID'', JStr ''123''), (''status'', JStr status), (''progress'', JNum progress),
           (''links'', JArr links)]"

definition job_url :: string where
  "job_url = ''https://harmony.earthdata.nasa.gov/jobs/123''"

definition always_running :: server where
  "always_running n url = Reply 200 [] (JsonDoc (job_doc ''running'' 40 []))"

text \<open>Services whose next status reply is terminal.\<close>

definition completes_next :: server where
  "completes_next n url = Reply 200 [] (XmlDoc (status_doc ''complete''))"

definition finishes_next :: server where
  "finishes_next n url = Reply 200 [] (JsonDoc (job_doc ''running'' 100 []))"

text \<open>
  A run of the Harmony client: CMR knows one collection, the request is accepted as
  job 123, the job is at 40 percent when it is first asked for and at 100 percent
  after one pass through the loop, with three links, and the files are served.
\<close>

definition some_python :: python where
  "some_python = \<lparr>str_of = (\<lambda>_. ''?''), int_of = (\<lambda>_. None), is_float = (\<lambda>_. False)\<rparr>"

definition search_params :: params where
  "search_params =
     [''short_name'' \<mapsto> JStr ''ATL07'',
      ''bounding_box'' \<mapsto> JStr ''-50,60,-40,70'',
      ''temporal'' \<mapsto> JStr ''2019-06-22T00:00:00Z,2019-06-22T23:59:59Z'']"

definition cmr_doc :: json where
  "cmr_doc = JObj [(''feed'', JObj [(''entry'', JArr [JObj [(''id'', JStr ''C1-NSIDC'')]])])]"

definition job_links :: "json list" where
  "job_links =
     [JObj [(''href'', JStr ''https://harmony.earthdata.nasa.gov/out/a.nc''), (''rel'', JStr ''data'')],
      JObj [(''href'', JStr ''https://harmony.earthdata.nasa.gov/out/b.json''), (''rel'', JStr ''meta'')],
      JObj [(''href'', JStr ''https://harmony.earthdata.nasa.gov/out/c.nc'')]]"

definition harmony_service :: server where
  "harmony_service n url =
     (if n = 0 then Reply 200 [] (JsonDoc cmr_doc)
      else if n = 1 then Reply 200 [] (JsonDoc (job_doc ''running'' 0 []))
      else if n = 2 then Reply 200 [] (JsonDoc (job_doc ''running'' 40 []))
      else if n = 3 then Reply 200 [] (JsonDoc (job_doc ''running'' 100 job_links))
      else Reply 200 [] (Raw url))"

text \<open>The links of the example in the specification, their \<^verbatim>\<open>href\<close> fields as they are
  written there.\<close>

definition spec_links :: "json list" where
  "spec_links =
     [JObj [(''href'', JStr ''a''), (''rel'', JStr ''data'')],
      JObj [(''href'', JStr ''b''), (''rel'', JStr ''meta'')],
      JObj [(''href'', JStr ''c'')]]"

text \<open>A service that answers every request with the URL it was sent to.\<close>

definition file_service :: server where
  "file_service n url = Reply 200 [] (Raw url)"

text \<open>An NSIDC service: it takes the order, reports the given statuses one after the
  other and then serves the archive.\<close>

definition nsidc_service :: "string list \<Rightarrow> dir \<Rightarrow> server" where
  "nsidc_service statuses archive n url =
     (if n = 0 then Reply 200 [] (XmlDoc order_doc)
      else if n \<le> length statuses then Reply 200 [] (XmlDoc (status_doc (statuses ! (n - 1))))
      else Reply 200 [] (ZipArchive archive))"

text \<open>An archive with one file in each of two granule folders.\<close>

definition granules :: dir where
  "granules =
     Dir [] [(''g1'', Dir [(''a.h5'', ''AAAA'')] []), (''g2'', Dir [(''b.h5'', ''BBBB'')] [])]"

text \<open>The search parameters after the fields derived in the example run are stored.\<close>

definition derived_params :: params where
  "derived_params = search_params
     (''collection_id'' \<mapsto> JStr ''C1-NSIDC'',
      ''lat'' \<mapsto> JStr ''(60:70)'',
      ''lon'' \<mapsto> JStr ''(-50:-40)'',
      ''time'' \<mapsto> JStr (''('' @ [dq] @ ''2019-06-22T00:00:00Z'' @ [dq] @ '':'' @ [dq]
                         @ ''2019-06-22T23:59:59Z'' @ [dq] @ '')''))"

text \<open>The worlds the example run of the Harmony client passes through.\<close>

definition after_prepare :: world where
  "after_prepare =
     \<lparr>trace = [HttpGet cmr_collections_url], calls = 1, outputs = None, cwd = (\<lambda>_. None)\<rparr>"

definition after_submit :: world where
  "after_submit = snd (harmony_submit some_python harmony_service derived_params after_prepare)"

definition after_poll :: world where
  "after_poll =
     snd (harmony_poll_once harmony_service job_url (job_doc ''running'' 40 []) after_submit)"

text \<open>A CMR endpoint that cannot be reached, and one that answers with status 500.\<close>

definition cmr_down :: server where
  "cmr_down n url = NoReply"

definition cmr_error :: server where
  "cmr_error n url = Reply 500 [] (Raw ''Internal Server Error'')"

text \<open>A service on which CMR knows the collection and Harmony refuses the request.\<close>

definition harmony_refuses :: server where
  "harmony_refuses n url =
     (if n = 0 then Reply 200 [] (JsonDoc cmr_doc) else Reply 500 [] (Raw ''Internal Server Error''))"

text \<open>A service whose status reply carries the status as the text of
  \<^verbatim>\<open>requestStatus\<close> itself, \<^verbatim>\<open><requestStatus>complete</requestStatus>\<close>.\<close>

definition plain_status_doc :: "string \<Rightarrow> xml" where
  "plain_status_doc s = Elem ''agentResponse'' None [Elem ''requestStatus'' (Some s) []]"

definition plain_status_service :: server where
  "plain_status_service n url =
     (if n = 0 then Reply 200 [] (XmlDoc order_doc)
      else if n = 1 then Reply 200 [] (XmlDoc (plain_status_doc ''complete''))
      else Reply 200 [] (ZipArchive granules))"

text \<open>An output folder in which an earlier run has left a file, and one in which an
  earlier run has left a file and a folder that holds a file of the same name.\<close>

definition kept :: dir where
  "kept = Dir [(''z.txt'', ''ZZZZ'')] []"

definition leftover :: dir where
  "leftover = Dir [(''x.h5'', ''AAAA'')] [(''g2'', Dir [(''x.h5'', ''BBBB'')] [])]"

text \<open>A service that answers every request with the archive.\<close>

definition zip_service :: "dir \<Rightarrow> server" where
  "zip_service archive n url = Reply 200 [] (ZipArchive archive)"

section \<open>Properties\<close>

lemma has_scheme_https [simp]: "has_scheme (CHR ''h'' # CHR ''t'' # CHR ''t'' # CHR ''p'' # CHR ''s'' # CHR '':'' # rest)"
  by (simp add: has_scheme_def)

lemmas nsidc_defs = request_nsidc_data_def nsidc_submit_def andthen_def urlopen_def emit_def
  ensure_outputs_def ET_fromstring_def texts_under_def findall_under_def first_def as_str_def
  base_url_def still_processing_def nsidc_poll_once_def
  nsidc_finish_def nsidc_report_errors_def nsidc_download_def esir_url_def ZipFile_def
  flatten_def nsidc_cleanup_def get_dir_def Let_def

lemmas example_defs = fresh_world_def order_doc_def status_doc_def api_request_def

subsection \<open>Diagnostics of a failed order\<close>

text \<open>
  C6. The claim: whenever the order reaches \<^verbatim>\<open>complete_with_errors\<close> or \<^verbatim>\<open>failed\<close>, also
  when the very first status check reports it, the messages of the status reply are
  collected and printed and no exception is raised. The code reads the messages from
  \<^verbatim>\<open>loop_root\<close>, which only the loop body binds: when the first status check already
  reports \<^verbatim>\<open>failed\<close>, the run ends in \<^verbatim>\<open>UnboundLocalError\<close> after the second request,
  and nothing but the status URL has been printed.
\<close>

theorem first_check_failed_raises:
  "request_nsidc_data failed_at_once api_request fresh_world =
     Some (Inl (UnboundLocalError ''loop_root''),
       \<lparr>trace = [UrlOpen api_request,
                 Print [S ''Order status URL: '',
                        S ''https://n5eil02u.ecs.nsidc.org/egi/request/ORD1''],
                 UrlOpen ''https://n5eil02u.ecs.nsidc.org/egi/request/ORD1''],
        calls = 2, outputs = Some (Dir [] []), cwd = (\<lambda>_. None)\<rparr>)"
  by (simp add: nsidc_defs nsidc_poll.simps failed_at_once_def example_defs)

subsection \<open>The polling loops\<close>

lemma nsidc_poll_once_trace:
  "has_scheme url \<Longrightarrow>
   trace (snd (nsidc_poll_once net url status w)) =
     trace w @ [Print [S ''Job status is '', T status, S ''. Trying again.''], Sleep 10, UrlOpen url]
   \<and> calls (snd (nsidc_poll_once net url status w)) = Suc (calls w)"
  by (auto simp: nsidc_poll_once_def urlopen_def emit_def Let_def split: response.splits sum.splits)

lemma nsidc_poll_once_busy:
  assumes "nsidc_busy net" "has_scheme url"
  shows "\<exists>status' root w'. nsidc_poll_once net url status w = (Inr (status', root), w') \<and> still_processing status'"
proof -
  from assms(1) obtain code hdrs root st where
    "net (calls w) url = Reply code hdrs (XmlDoc root)" "200 \<le> code" "code < 300"
    "first (texts_under root ''requestStatus'') = Inr st" "still_processing st"
    unfolding nsidc_busy_def by blast
  then show ?thesis using assms(2)
    by (simp add: nsidc_poll_once_def urlopen_def emit_def Let_def ET_fromstring_def)
qed

lemma nsidc_poll_never_returns:
  assumes "nsidc_busy net" "has_scheme url" "still_processing status"
  shows "nsidc_poll net url status loop_root w = None"
proof -
  have "\<not> (nsidc_busy net' \<and> has_scheme url' \<and> still_processing st)"
    if "nsidc_poll net' url' st lr w0 = Some y" for net' url' st lr w0 y
    using that
  proof (induction rule: nsidc_poll.raw_induct[rotated -1, consumes 1, case_names 1])
    case (1 poll net statusURL status loop_root w y)
    show ?case
    proof
      assume a: "nsidc_busy net \<and> has_scheme statusURL \<and> still_processing status"
      then obtain status' root w' where
        once: "nsidc_poll_once net statusURL status w = (Inr (status', root), w')" and
        busy: "still_processing status'"
        using nsidc_poll_once_busy[of net statusURL status w] by blast
      from 1(2) a once have "poll net statusURL status' (Some root) w' = Some y" by simp
      from 1(1)[OF this] a busy show False by simp
    qed
  qed
  then show ?thesis
    using assms by (cases "nsidc_poll net url status loop_root w") auto
qed


lemma harmony_running_parts:
  assumes "harmony_running job = Inr True"
  shows "py_getitem job ''status'' = Inr (JStr ''running'')"
    and "\<exists>p. py_getitem job ''progress'' = Inr p \<and> less_than_100 p = Inr True"
  using assms
  by (auto simp: harmony_running_def seq_def split: sum.splits if_splits)

lemma harmony_poll_once_trace:
  assumes "has_scheme url" "py_getitem job ''progress'' = Inr p"
  shows "trace (snd (harmony_poll_once net url job w)) =
           trace w @ [Print [S ''Job status is running. Progress is '', J p, S ''%. Trying again.''],
                      Sleep 10, UrlOpen url]
         \<and> calls (snd (harmony_poll_once net url job w)) = Suc (calls w)"
  using assms
  by (auto simp: harmony_poll_once_def andthen_def urlopen_def emit_def Let_def
           split: response.splits sum.splits prod.splits)

lemma harmony_poll_once_busy:
  assumes "harmony_busy net" "has_scheme url" "harmony_running job = Inr True"
  shows "\<exists>job' w'. harmony_poll_once net url job w = (Inr job', w') \<and> harmony_running job' = Inr True"
proof -
  from assms(1) obtain code hdrs job' where
    r: "net (calls w) url = Reply code hdrs (JsonDoc job')" "200 \<le> code" "code < 300"
       "harmony_running job' = Inr True"
    unfolding harmony_busy_def by blast
  from harmony_running_parts[OF assms(3)] obtain p where p: "py_getitem job ''progress'' = Inr p" by blast
  from harmony_running_parts(1)[OF r(4)] have s: "py_getitem job' ''status'' = Inr (JStr ''running'')" .
  show ?thesis using r p s assms(2)
    by (simp add: harmony_poll_once_def andthen_def urlopen_def emit_def Let_def json_loads_def)
qed

lemma harmony_poll_never_returns:
  assumes "harmony_busy net" "has_scheme url" "harmony_running job = Inr True"
  shows "harmony_poll net url job w = None"
proof -
  have "\<not> (harmony_busy net' \<and> has_scheme url' \<and> harmony_running j = Inr True)"
    if "harmony_poll net' url' j w0 = Some y" for net' url' j w0 y
    using that
  proof (induction rule: harmony_poll.raw_induct[rotated -1, consumes 1, case_names 1])
    case (1 poll net job_url job_json w y)
    show ?case
    proof
      assume a: "harmony_busy net \<and> has_scheme job_url \<and> harmony_running job_json = Inr True"
      then obtain job' w' where
        once: "harmony_poll_once net job_url job_json w = (Inr job', w')" and
        busy: "harmony_running job' = Inr True"
        using harmony_poll_once_busy[of net job_url job_json w] by blast
      from 1(2) a once have "poll net job_url job' w' = Some y" by simp
      from 1(1)[OF this] a busy show False by simp
    qed
  qed
  then show ?thesis
    using assms by (cases "harmony_poll net url job w") auto
qed

lemma harmony_running_stopped:
  assumes "py_getitem job ''status'' = Inr st"
    and "st \<noteq> JStr ''running'' \<or> py_getitem job ''progress'' = Inr (JNum 100)"
  shows "harmony_running job = Inr False"
  using assms by (auto simp: harmony_running_def seq_def less_than_100_def)

lemma terminal_not_processing: "terminal status \<Longrightarrow> \<not> still_processing status"
  by (auto simp: terminal_def still_processing_def)

text \<open>
  C1. A status among \<^verbatim>\<open>complete\<close>, \<^verbatim>\<open>complete_with_errors\<close> and \<^verbatim>\<open>failed\<close> ends the loop
  of the NSIDC client, and a job whose status is not \<^verbatim>\<open>running\<close> or whose progress is
  100 ends the loop of the Harmony client, whether the first check reports it or a pass
  through the loop body does: the loop returns that status, respectively that job
  document, and the world is the one in which it was polled, so nothing is requested,
  slept or printed after it. The function goes on with what the loop returned: the
  last status and reply, respectively the last job document.
\<close>

theorem polling_stops_at_terminal_status:
  "(terminal status \<longrightarrow> nsidc_poll net url status loop_root w = Some (Inr (status, loop_root), w))
   \<and> (still_processing prev_status \<and> nsidc_poll_once net url prev_status w = (Inr (status, root), w')
        \<and> terminal status \<longrightarrow>
        nsidc_poll net url prev_status loop_root w = Some (Inr (status, Some root), w'))
   \<and> (py_getitem job ''status'' = Inr st
        \<and> (st \<noteq> JStr ''running'' \<or> py_getitem job ''progress'' = Inr (JNum 100)) \<longrightarrow>
        harmony_poll net url job w = Some (Inr job, w))
   \<and> (harmony_running prev_job = Inr True \<and> harmony_poll_once net url prev_job w = (Inr job, w')
        \<and> py_getitem job ''status'' = Inr st
        \<and> (st \<noteq> JStr ''running'' \<or> py_getitem job ''progress'' = Inr (JNum 100)) \<longrightarrow>
        harmony_poll net url prev_job w = Some (Inr job, w'))
   \<and> (nsidc_submit net api (ensure_outputs w) = (Inr (orderID, url, first_status), w1)
        \<and> nsidc_poll net url first_status None w1 = Some (Inr (status, loop_root), w2) \<longrightarrow>
        request_nsidc_data net api w = Some (nsidc_finish net orderID status loop_root w2))
   \<and> (harmony_prepare net sp w = (Inr u, sp', w1)
        \<and> harmony_submit py net sp' w1 = (Inr (url, first_job), w2)
        \<and> harmony_poll net url first_job w2 = Some (Inr job, w3) \<longrightarrow>
        request_harmony_data py net sp token w =
          Some (fst (harmony_results net job w3), sp', snd (harmony_results net job w3)))"
proof (intro conjI impI)
  assume "terminal status"
  then show "nsidc_poll net url status loop_root w = Some (Inr (status, loop_root), w)"
    by (subst nsidc_poll.simps) (simp add: terminal_not_processing)
next
  assume a: "still_processing prev_status \<and> nsidc_poll_once net url prev_status w = (Inr (status, root), w')
        \<and> terminal status"
  then have "nsidc_poll net url prev_status loop_root w = nsidc_poll net url status (Some root) w'"
    by (subst nsidc_poll.simps) simp
  also from a have "\<dots> = Some (Inr (status, Some root), w')"
    by (subst nsidc_poll.simps) (simp add: terminal_not_processing)
  finally show "nsidc_poll net url prev_status loop_root w = Some (Inr (status, Some root), w')" .
next
  assume "py_getitem job ''status'' = Inr st
        \<and> (st \<noteq> JStr ''running'' \<or> py_getitem job ''progress'' = Inr (JNum 100))"
  then have "harmony_running job = Inr False" using harmony_running_stopped by blast
  then show "harmony_poll net url job w = Some (Inr job, w)"
    by (subst harmony_poll.simps) simp
next
  assume a: "harmony_running prev_job = Inr True \<and> harmony_poll_once net url prev_job w = (Inr job, w')
        \<and> py_getitem job ''status'' = Inr st
        \<and> (st \<noteq> JStr ''running'' \<or> py_getitem job ''progress'' = Inr (JNum 100))"
  then have stop: "harmony_running job = Inr False" using harmony_running_stopped by blast
  from a have "harmony_poll net url prev_job w = harmony_poll net url job w'"
    by (subst harmony_poll.simps) simp
  also from stop have "\<dots> = Some (Inr job, w')"
    by (subst harmony_poll.simps) simp
  finally show "harmony_poll net url prev_job w = Some (Inr job, w')" .
next
  assume "nsidc_submit net api (ensure_outputs w) = (Inr (orderID, url, first_status), w1)
        \<and> nsidc_poll net url first_status None w1 = Some (Inr (status, loop_root), w2)"
  then show "request_nsidc_data net api w = Some (nsidc_finish net orderID status loop_root w2)"
    by (simp add: request_nsidc_data_def)
next
  assume "harmony_prepare net sp w = (Inr u, sp', w1)
        \<and> harmony_submit py net sp' w1 = (Inr (url, first_job), w2)
        \<and> harmony_poll net url first_job w2 = Some (Inr job, w3)"
  then show "request_harmony_data py net sp token w =
          Some (fst (harmony_results net job w3), sp', snd (harmony_results net job w3))"
    by (simp add: request_harmony_data_def split: prod.splits)
qed


lemma nsidc_busy_always_pending: "nsidc_busy always_pending"
  by (simp add: nsidc_busy_def always_pending_def status_doc_def first_def texts_under_def
      findall_under_def still_processing_def)

lemma harmony_busy_always_running: "harmony_busy always_running"
  by (simp add: harmony_busy_def always_running_def job_doc_def harmony_running_def seq_def
      py_getitem_def less_than_100_def)

lemma nsidc_poll_unfold:
  "nsidc_poll net url status loop_root w =
     (case nsidc_poll_for n net url status loop_root w of
        Exited r \<Rightarrow> Some r
      | Looping (status', loop_root', w') \<Rightarrow> nsidc_poll net url status' loop_root' w')"
proof (induction n arbitrary: status loop_root w)
  case 0
  show ?case
  proof (cases "still_processing status")
    case True
    then show ?thesis by simp
  next
    case False
    then show ?thesis by (subst nsidc_poll.simps) simp
  qed
next
  case (Suc n)
  show ?case
  proof (cases "still_processing status")
    case False
    then show ?thesis by (subst nsidc_poll.simps) simp
  next
    case True
    obtain r w1 where o: "nsidc_poll_once net url status w = (r, w1)" by force
    show ?thesis
    proof (cases r)
      case (Inl e)
      with True o show ?thesis by (subst nsidc_poll.simps) simp
    next
      case (Inr p)
      obtain st root where p: "p = (st, root)" by force
      from True o Inr p have "nsidc_poll net url status loop_root w = nsidc_poll net url st (Some root) w1"
        by (subst nsidc_poll.simps) simp
      also have "\<dots> = (case nsidc_poll_for n net url st (Some root) w1 of
        Exited r \<Rightarrow> Some r
      | Looping (status', loop_root', w') \<Rightarrow> nsidc_poll net url status' loop_root' w')"
        by (rule Suc.IH)
      finally show ?thesis using True o Inr p by simp
    qed
  qed
qed

lemma nsidc_poll_for_looping:
  "nsidc_poll_for n net url status loop_root w = Looping (status', loop_root', w') \<Longrightarrow>
     calls w' = calls w + n \<and>
     (\<exists>seen. length seen = Suc n \<and> seen ! 0 = status \<and> seen ! n = status' \<and>
        (\<forall>s\<in>set seen. still_processing s) \<and>
        trace w' = trace w @ concat (map (\<lambda>s. [Print [S ''Job status is '', T s, S ''. Trying again.''],
                                              Sleep 10, UrlOpen url]) (take n seen)) \<and>
        (\<forall>i<n. \<exists>code hdrs root.
           net (calls w + i) url = Reply code hdrs (XmlDoc root) \<and> 200 \<le> code \<and> code < 300 \<and>
           first (texts_under root ''requestStatus'') = Inr (seen ! Suc i) \<and>
           (Suc i = n \<longrightarrow> loop_root' = Some root)))"
proof (induction n arbitrary: status loop_root w)
  case 0
  then show ?case by (auto split: if_splits intro!: exI[of _ "[status]"])
next
  case (Suc n)
  from Suc.prems obtain st root w1 where
    sp: "still_processing status" and
    o: "nsidc_poll_once net url status w = (Inr (st, root), w1)" and
    rest: "nsidc_poll_for n net url st (Some root) w1 = Looping (status', loop_root', w')"
    by (auto split: if_splits sum.splits prod.splits)
  from o obtain code hdrs where t:
    "trace w1 = trace w @ [Print [S ''Job status is '', T status, S ''. Trying again.''],
                                              Sleep 10, UrlOpen url]" "calls w1 = Suc (calls w)"
    "net (calls w) url = Reply code hdrs (XmlDoc root)" "200 \<le> code" "code < 300"
    "first (texts_under root ''requestStatus'') = Inr st"
    by (auto simp: nsidc_poll_once_def urlopen_def emit_def Let_def ET_fromstring_def
        split: if_splits response.splits sum.splits body.splits)
  from Suc.IH[OF rest] obtain seen where s:
    "calls w' = calls w1 + n" "length seen = Suc n" "seen ! 0 = st" "seen ! n = status'"
    "\<forall>s\<in>set seen. still_processing s"
    "trace w' = trace w1 @ concat (map (\<lambda>s. [Print [S ''Job status is '', T s, S ''. Trying again.''],
                                              Sleep 10, UrlOpen url]) (take n seen))"
    "\<forall>i<n. \<exists>code hdrs root.
           net (calls w1 + i) url = Reply code hdrs (XmlDoc root) \<and> 200 \<le> code \<and> code < 300 \<and>
           first (texts_under root ''requestStatus'') = Inr (seen ! Suc i) \<and>
           (Suc i = n \<longrightarrow> loop_root' = Some root)" by blast
  have lr: "n = 0 \<Longrightarrow> loop_root' = Some root"
    using rest by (auto split: if_splits)
  have replies: "\<exists>code hdrs root.
           net (calls w + i) url = Reply code hdrs (XmlDoc root) \<and> 200 \<le> code \<and> code < 300 \<and>
           first (texts_under root ''requestStatus'') = Inr ((status # seen) ! Suc i) \<and>
           (Suc i = Suc n \<longrightarrow> loop_root' = Some root)" if "i < Suc n" for i
  proof (cases i)
    case 0
    with t s(3) lr show ?thesis by auto
  next
    case (Suc j)
    with that have "j < n" by simp
    with s(7) t(2) Suc show ?thesis by auto
  qed
  show ?case
  proof (intro conjI exI[of _ "status # seen"] ballI allI impI)
    show "calls w' = calls w + Suc n" using s(1) t(2) by simp
    show "length (status # seen) = Suc (Suc n)" using s(2) by simp
    show "(status # seen) ! 0 = status" by simp
    show "(status # seen) ! Suc n = status'" using s(4) by simp
    show "still_processing x" if "x \<in> set (status # seen)" for x using that sp s(5) by auto
    show "trace w' = trace w @ concat (map (\<lambda>s. [Print [S ''Job status is '', T s, S ''. Trying again.''],
                                              Sleep 10, UrlOpen url]) (take (Suc n) (status # seen)))"
      using s(6) t(1) by simp
    show "\<exists>code hdrs root.
           net (calls w + i) url = Reply code hdrs (XmlDoc root) \<and> 200 \<le> code \<and> code < 300 \<and>
           first (texts_under root ''requestStatus'') = Inr ((status # seen) ! Suc i) \<and>
           (Suc i = Suc n \<longrightarrow> loop_root' = Some root)" if "i < Suc n" for i
      using replies[OF that] .
  qed
qed

lemma harmony_poll_unfold:
  "harmony_poll net url job w =
     (case harmony_poll_for n net url job w of
        Exited r \<Rightarrow> Some r
      | Looping (job', w') \<Rightarrow> harmony_poll net url job' w')"
proof (induction n arbitrary: job w)
  case 0
  show ?case
  proof (cases "harmony_running job = Inr True")
    case True
    then show ?thesis by simp
  next
    case False
    then show ?thesis by (subst harmony_poll.simps) (auto split: sum.splits)
  qed
next
  case (Suc n)
  show ?case
  proof (cases "harmony_running job = Inr True")
    case False
    then show ?thesis by (subst harmony_poll.simps) (auto split: sum.splits)
  next
    case True
    obtain r w1 where o: "harmony_poll_once net url job w = (r, w1)" by force
    show ?thesis
    proof (cases r)
      case (Inl e)
      with True o show ?thesis by (subst harmony_poll.simps) simp
    next
      case (Inr job1)
      from True o Inr have "harmony_poll net url job w = harmony_poll net url job1 w1"
        by (subst harmony_poll.simps) simp
      also have "\<dots> = (case harmony_poll_for n net url job1 w1 of
        Exited r \<Rightarrow> Some r
      | Looping (job', w') \<Rightarrow> harmony_poll net url job' w')"
        by (rule Suc.IH)
      finally show ?thesis using True o Inr by simp
    qed
  qed
qed

lemma harmony_poll_for_looping:
  "harmony_poll_for n net url job w = Looping (job', w') \<Longrightarrow>
     calls w' = calls w + n \<and>
     (\<exists>seen ps. length seen = Suc n \<and> seen ! 0 = job \<and> seen ! n = job' \<and> length ps = n \<and>
        (\<forall>j\<in>set seen. harmony_running j = Inr True) \<and>
        trace w' = trace w @ concat (map (\<lambda>p. [Print [S ''Job status is running. Progress is '', J p,
                                                      S ''%. Trying again.''],
                                              Sleep 10, UrlOpen url]) ps) \<and>
        (\<forall>i<n. \<exists>code hdrs.
           py_getitem (seen ! i) ''progress'' = Inr (ps ! i) \<and>
           net (calls w + i) url = Reply code hdrs (JsonDoc (seen ! Suc i)) \<and>
           200 \<le> code \<and> code < 300))"
proof (induction n arbitrary: job w)
  case 0
  then show ?case by (auto split: if_splits sum.splits intro!: exI[of _ "[job]"])
next
  case (Suc n)
  from Suc.prems obtain job1 w1 where
    sp: "harmony_running job = Inr True" and
    o: "harmony_poll_once net url job w = (Inr job1, w1)" and
    rest: "harmony_poll_for n net url job1 w1 = Looping (job', w')"
    by (auto split: if_splits sum.splits prod.splits)
  from o obtain p code hdrs where t: "py_getitem job ''progress'' = Inr p"
    "trace w1 = trace w @ [Print [S ''Job status is running. Progress is '', J p, S ''%. Trying again.''],
                                              Sleep 10, UrlOpen url]" "calls w1 = Suc (calls w)"
    "net (calls w) url = Reply code hdrs (JsonDoc job1)" "200 \<le> code" "code < 300"
    by (auto simp: harmony_poll_once_def andthen_def urlopen_def emit_def Let_def json_loads_def
        split: if_splits response.splits sum.splits prod.splits body.splits)
  from Suc.IH[OF rest] obtain seen ps where s:
    "calls w' = calls w1 + n" "length seen = Suc n" "seen ! 0 = job1" "seen ! n = job'"
    "length ps = n" "\<forall>j\<in>set seen. harmony_running j = Inr True"
    "trace w' = trace w1 @ concat (map (\<lambda>p. [Print [S ''Job status is running. Progress is '', J p,
                                                      S ''%. Trying again.''],
                                              Sleep 10, UrlOpen url]) ps)"
    "\<forall>i<n. \<exists>code hdrs.
           py_getitem (seen ! i) ''progress'' = Inr (ps ! i) \<and>
           net (calls w1 + i) url = Reply code hdrs (JsonDoc (seen ! Suc i)) \<and>
           200 \<le> code \<and> code < 300" by blast
  have replies: "\<exists>code hdrs.
           py_getitem ((job # seen) ! i) ''progress'' = Inr ((p # ps) ! i) \<and>
           net (calls w + i) url = Reply code hdrs (JsonDoc ((job # seen) ! Suc i)) \<and>
           200 \<le> code \<and> code < 300" if "i < Suc n" for i
  proof (cases i)
    case 0
    with t s(3) show ?thesis by auto
  next
    case (Suc j)
    with that have "j < n" by simp
    with s(8) t(3) Suc show ?thesis by auto
  qed
  show ?case
  proof (rule conjI, goal_cases)
    case 1
    show ?case using s(1) t(3) by simp
  next
    case 2
    show ?case
  proof (rule exI[of _ "job # seen"], rule exI[of _ "p # ps"], intro conjI ballI allI impI)
    show "length (job # seen) = Suc (Suc n)" using s(2) by simp
    show "(job # seen) ! 0 = job" by simp
    show "(job # seen) ! Suc n = job'" using s(4) by simp
    show "length (p # ps) = Suc n" using s(5) by simp
    show "harmony_running x = Inr True" if "x \<in> set (job # seen)" for x using that sp s(6) by auto
    show "trace w' = trace w @ concat (map (\<lambda>p. [Print [S ''Job status is running. Progress is '', J p,
                                                      S ''%. Trying again.''],
                                              Sleep 10, UrlOpen url]) (p # ps))"
      using s(7) t(2) by simp
    show "\<exists>code hdrs.
           py_getitem ((job # seen) ! i) ''progress'' = Inr ((p # ps) ! i) \<and>
           net (calls w + i) url = Reply code hdrs (JsonDoc ((job # seen) ! Suc i)) \<and>
           200 \<le> code \<and> code < 300" if "i < Suc n" for i
      using replies[OF that] .
  qed
  qed
qed

lemma nsidc_poll_for_busy:
  assumes "nsidc_busy net" "has_scheme url"
  shows "still_processing status \<Longrightarrow>
    \<exists>st lr w'. nsidc_poll_for n net url status loop_root w = Looping (st, lr, w')"
proof (induction n arbitrary: status loop_root w)
  case 0
  then show ?case by simp
next
  case (Suc n)
  from nsidc_poll_once_busy[OF assms, of status w] obtain st root w1 where
    o: "nsidc_poll_once net url status w = (Inr (st, root), w1)" "still_processing st" by blast
  from Suc.IH[OF o(2), of "Some root" w1] Suc.prems o(1) show ?case by simp
qed

lemma harmony_poll_for_busy:
  assumes "harmony_busy net" "has_scheme url"
  shows "harmony_running job = Inr True \<Longrightarrow>
    \<exists>job' w'. harmony_poll_for n net url job w = Looping (job', w')"
proof (induction n arbitrary: job w)
  case 0
  then show ?case by simp
next
  case (Suc n)
  from harmony_poll_once_busy[OF assms Suc.prems, of w] obtain job1 w1 where
    o: "harmony_poll_once net url job w = (Inr job1, w1)" "harmony_running job1 = Inr True" by blast
  from Suc.IH[OF o(2), of w1] Suc.prems o(1) show ?case by simp
qed

text \<open>
  C2. A pass through either loop body prints one line, sleeps 10 seconds and sends
  one request to the status URL, respectively the job URL. The loop is the loop cut off
  after \<open>n\<close> passes, continued from where that one stands, for every \<open>n\<close>. When the loop
  has made \<open>n\<close> passes and is about to make the next, it has seen \<open>n + 1\<close> statuses
  (job documents), none of them terminal: the one it was entered with and the replies
  to \<open>n\<close> requests, the \<open>i\<close>-th pass having asked the \<open>i\<close>-th of them, and its trace is the
  print, the sleep of 10 seconds and the request of each pass in turn. Nothing bounds
  the number of passes: on a service that never reports a terminal status the loop is
  about to make the next pass after every number of passes, and it never returns.
\<close>

theorem polling_has_no_bound:
  "(has_scheme url \<longrightarrow>
      trace (snd (nsidc_poll_once net url status w)) =
        trace w @ [Print [S ''Job status is '', T status, S ''. Trying again.''], Sleep 10, UrlOpen url]
      \<and> calls (snd (nsidc_poll_once net url status w)) = Suc (calls w))
   \<and> nsidc_poll net url status loop_root w =
       (case nsidc_poll_for n net url status loop_root w of
          Exited r \<Rightarrow> Some r
        | Looping (s, l, v) \<Rightarrow> nsidc_poll net url s l v)
   \<and> (nsidc_poll_for n net url status loop_root w = Looping (status', loop_root', w') \<longrightarrow>
        calls w' = calls w + n \<and>
        (\<exists>seen. length seen = Suc n \<and> seen ! 0 = status \<and> seen ! n = status' \<and>
           (\<forall>s\<in>set seen. still_processing s) \<and>
           trace w' = trace w @ concat (map (\<lambda>s. [Print [S ''Job status is '', T s, S ''. Trying again.''],
                                                    Sleep 10, UrlOpen url]) (take n seen)) \<and>
           (\<forall>i<n. \<exists>code hdrs root.
              net (calls w + i) url = Reply code hdrs (XmlDoc root) \<and> 200 \<le> code \<and> code < 300 \<and>
              first (texts_under root ''requestStatus'') = Inr (seen ! Suc i) \<and>
              (Suc i = n \<longrightarrow> loop_root' = Some root))))
   \<and> (nsidc_busy net \<and> has_scheme url \<and> still_processing status \<longrightarrow>
        (\<exists>s l v. nsidc_poll_for n net url status loop_root w = Looping (s, l, v))
        \<and> nsidc_poll net url status loop_root w = None)
   \<and> (has_scheme url \<and> py_getitem job ''progress'' = Inr p \<longrightarrow>
      trace (snd (harmony_poll_once net url job w)) =
        trace w @ [Print [S ''Job status is running. Progress is '', J p, S ''%. Trying again.''],
                   Sleep 10, UrlOpen url]
      \<and> calls (snd (harmony_poll_once net url job w)) = Suc (calls w))
   \<and> harmony_poll net url job w =
       (case harmony_poll_for n net url job w of
          Exited r \<Rightarrow> Some r
        | Looping (j, v) \<Rightarrow> harmony_poll net url j v)
   \<and> (harmony_poll_for n net url job w = Looping (job', w') \<longrightarrow>
        calls w' = calls w + n \<and>
        (\<exists>seen ps. length seen = Suc n \<and> seen ! 0 = job \<and> seen ! n = job' \<and> length ps = n \<and>
           (\<forall>j\<in>set seen. harmony_running j = Inr True) \<and>
           trace w' = trace w @ concat (map (\<lambda>p. [Print [S ''Job status is running. Progress is '', J p,
                                                         S ''%. Trying again.''],
                                                    Sleep 10, UrlOpen url]) ps) \<and>
           (\<forall>i<n. \<exists>code hdrs.
              py_getitem (seen ! i) ''progress'' = Inr (ps ! i) \<and>
              net (calls w + i) url = Reply code hdrs (JsonDoc (seen ! Suc i)) \<and>
              200 \<le> code \<and> code < 300)))
   \<and> (harmony_busy net \<and> has_scheme url \<and> harmony_running job = Inr True \<longrightarrow>
        (\<exists>j v. harmony_poll_for n net url job w = Looping (j, v))
        \<and> harmony_poll net url job w = None)"
proof (intro conjI impI)
  assume "has_scheme url"
  then show "trace (snd (nsidc_poll_once net url status w)) =
        trace w @ [Print [S ''Job status is '', T status, S ''. Trying again.''], Sleep 10, UrlOpen url]"
    and "calls (snd (nsidc_poll_once net url status w)) = Suc (calls w)"
    using nsidc_poll_once_trace by blast+
next
  show "nsidc_poll net url status loop_root w =
       (case nsidc_poll_for n net url status loop_root w of
          Exited r \<Rightarrow> Some r
        | Looping (s, l, v) \<Rightarrow> nsidc_poll net url s l v)"
    by (rule nsidc_poll_unfold)
next
  assume a: "nsidc_poll_for n net url status loop_root w = Looping (status', loop_root', w')"
  from nsidc_poll_for_looping[OF a]
  show "calls w' = calls w + n"
    and "\<exists>seen. length seen = Suc n \<and> seen ! 0 = status \<and> seen ! n = status' \<and>
           (\<forall>s\<in>set seen. still_processing s) \<and>
           trace w' = trace w @ concat (map (\<lambda>s. [Print [S ''Job status is '', T s, S ''. Trying again.''],
                                                    Sleep 10, UrlOpen url]) (take n seen)) \<and>
           (\<forall>i<n. \<exists>code hdrs root.
              net (calls w + i) url = Reply code hdrs (XmlDoc root) \<and> 200 \<le> code \<and> code < 300 \<and>
              first (texts_under root ''requestStatus'') = Inr (seen ! Suc i) \<and>
              (Suc i = n \<longrightarrow> loop_root' = Some root))"
    by blast+
next
  assume a: "nsidc_busy net \<and> has_scheme url \<and> still_processing status"
  then show "\<exists>s l v. nsidc_poll_for n net url status loop_root w = Looping (s, l, v)"
    using nsidc_poll_for_busy by blast
  from a show "nsidc_poll net url status loop_root w = None"
    using nsidc_poll_never_returns by blast
next
  assume "has_scheme url \<and> py_getitem job ''progress'' = Inr p"
  then show "trace (snd (harmony_poll_once net url job w)) =
        trace w @ [Print [S ''Job status is running. Progress is '', J p, S ''%. Trying again.''],
                   Sleep 10, UrlOpen url]"
    and "calls (snd (harmony_poll_once net url job w)) = Suc (calls w)"
    using harmony_poll_once_trace by blast+
next
  show "harmony_poll net url job w =
       (case harmony_poll_for n net url job w of
          Exited r \<Rightarrow> Some r
        | Looping (j, v) \<Rightarrow> harmony_poll net url j v)"
    by (rule harmony_poll_unfold)
next
  assume a: "harmony_poll_for n net url job w = Looping (job', w')"
  from harmony_poll_for_looping[OF a]
  show "calls w' = calls w + n"
    and "\<exists>seen ps. length seen = Suc n \<and> seen ! 0 = job \<and> seen ! n = job' \<and> length ps = n \<and>
           (\<forall>j\<in>set seen. harmony_running j = Inr True) \<and>
           trace w' = trace w @ concat (map (\<lambda>p. [Print [S ''Job status is running. Progress is '', J p,
                                                         S ''%. Trying again.''],
                                                    Sleep 10, UrlOpen url]) ps) \<and>
           (\<forall>i<n. \<exists>code hdrs.
              py_getitem (seen ! i) ''progress'' = Inr (ps ! i) \<and>
              net (calls w + i) url = Reply code hdrs (JsonDoc (seen ! Suc i)) \<and>
              200 \<le> code \<and> code < 300)"
    by blast+
next
  assume a: "harmony_busy net \<and> has_scheme url \<and> harmony_running job = Inr True"
  then show "\<exists>j v. harmony_poll_for n net url job w = Looping (j, v)"
    using harmony_poll_for_busy by blast
  from a show "harmony_poll net url job w = None"
    using harmony_poll_never_returns by blast
qed

theorem polling_has_no_bound_witness:
  "nsidc_poll always_pending status_url (Some ''pending'') None fresh_world = None
   \<and> nsidc_poll_for 2 always_pending status_url (Some ''pending'') None fresh_world =
       Looping (Some ''pending'', Some (status_doc ''pending''),
         \<lparr>trace = [Print [S ''Job status is '', T (Some ''pending''), S ''. Trying again.''],
                   Sleep 10, UrlOpen status_url,
                   Print [S ''Job status is '', T (Some ''pending''), S ''. Trying again.''],
                   Sleep 10, UrlOpen status_url],
          calls = 2, outputs = None, cwd = (\<lambda>_. None)\<rparr>)
   \<and> nsidc_poll (nsidc_service [''processing'', ''complete''] granules) status_url (Some ''pending'') None
       (fresh_world\<lparr>calls := 1\<rparr>) =
       Some (Inr (Some ''complete'', Some (status_doc ''complete'')),
         \<lparr>trace = [Print [S ''Job status is '', T (Some ''pending''), S ''. Trying again.''],
                   Sleep 10, UrlOpen status_url,
                   Print [S ''Job status is '', T (Some ''processing''), S ''. Trying again.''],
                   Sleep 10, UrlOpen status_url],
          calls = 3, outputs = None, cwd = (\<lambda>_. None)\<rparr>)
   \<and> harmony_poll always_running job_url (job_doc ''running'' 40 []) fresh_world = None
   \<and> harmony_poll_for 2 always_running job_url (job_doc ''running'' 40 []) fresh_world =
       Looping (job_doc ''running'' 40 [],
         \<lparr>trace = [Print [S ''Job status is running. Progress is '', J (JNum 40), S ''%. Trying again.''],
                   Sleep 10, UrlOpen job_url,
                   Print [S ''Job status is running. Progress is '', J (JNum 40), S ''%. Trying again.''],
                   Sleep 10, UrlOpen job_url],
          calls = 2, outputs = None, cwd = (\<lambda>_. None)\<rparr>)
   \<and> harmony_poll harmony_service job_url (job_doc ''running'' 0 []) (fresh_world\<lparr>calls := 2\<rparr>) =
       Some (Inr (job_doc ''running'' 100 job_links),
         \<lparr>trace = [Print [S ''Job status is running. Progress is '', J (JNum 0), S ''%. Trying again.''],
                   Sleep 10, UrlOpen job_url,
                   Print [S ''Job status is running. Progress is '', J (JNum 40), S ''%. Trying again.''],
                   Sleep 10, UrlOpen job_url],
          calls = 4, outputs = None, cwd = (\<lambda>_. None)\<rparr>)"
proof -
  have 1: "has_scheme status_url" "has_scheme job_url"
    by (simp_all add: status_url_def job_url_def)
  have 2: "still_processing (Some ''pending'')" by (simp add: still_processing_def)
  have 3: "harmony_running (job_doc ''running'' 40 []) = Inr True"
    by (simp add: job_doc_def harmony_running_def seq_def py_getitem_def less_than_100_def)
  note n = polling_has_no_bound[where url = status_url and net = always_pending
            and status = "Some ''pending''" and w = fresh_world and loop_root = None and n = 2]
  note h = polling_has_no_bound[where url = job_url and net = always_running and w = fresh_world
            and job = "job_doc ''running'' 40 []" and n = 2]
  note n2 = polling_has_no_bound[where url = status_url
            and net = "nsidc_service [''processing'', ''complete''] granules"
            and status = "Some ''pending''" and w = "fresh_world\<lparr>calls := 1\<rparr>" and loop_root = None
            and n = 2, THEN conjunct2, THEN conjunct1]
  note h2 = polling_has_no_bound[where url = job_url and net = harmony_service
            and w = "fresh_world\<lparr>calls := 2\<rparr>" and job = "job_doc ''running'' 0 []" and n = 2,
            THEN conjunct2, THEN conjunct2, THEN conjunct2, THEN conjunct2, THEN conjunct2,
            THEN conjunct1]
  have a: "nsidc_poll always_pending status_url (Some ''pending'') None fresh_world = None"
    using n 1 2 nsidc_busy_always_pending by blast
  have b: "harmony_poll always_running job_url (job_doc ''running'' 40 []) fresh_world = None"
    using h 1 3 harmony_busy_always_running by blast
  have c: "nsidc_poll_for 2 always_pending status_url (Some ''pending'') None fresh_world =
       Looping (Some ''pending'', Some (status_doc ''pending''),
         \<lparr>trace = [Print [S ''Job status is '', T (Some ''pending''), S ''. Trying again.''],
                   Sleep 10, UrlOpen status_url,
                   Print [S ''Job status is '', T (Some ''pending''), S ''. Trying again.''],
                   Sleep 10, UrlOpen status_url],
          calls = 2, outputs = None, cwd = (\<lambda>_. None)\<rparr>)"
    by (simp add: numeral_2_eq_2 nsidc_defs example_defs always_pending_def status_url_def)
  have d: "harmony_poll_for 2 always_running job_url (job_doc ''running'' 40 []) fresh_world =
       Looping (job_doc ''running'' 40 [],
         \<lparr>trace = [Print [S ''Job status is running. Progress is '', J (JNum 40), S ''%. Trying again.''],
                   Sleep 10, UrlOpen job_url,
                   Print [S ''Job status is running. Progress is '', J (JNum 40), S ''%. Trying again.''],
                   Sleep 10, UrlOpen job_url],
          calls = 2, outputs = None, cwd = (\<lambda>_. None)\<rparr>)"
    by (simp add: numeral_2_eq_2 harmony_poll_once_def harmony_running_def seq_def less_than_100_def
        andthen_def urlopen_def emit_def json_loads_def py_getitem_def job_doc_def always_running_def
        job_url_def fresh_world_def)
  have e: "nsidc_poll_for 2 (nsidc_service [''processing'', ''complete''] granules) status_url
       (Some ''pending'') None (fresh_world\<lparr>calls := 1\<rparr>) =
       Exited (Inr (Some ''complete'', Some (status_doc ''complete'')),
         \<lparr>trace = [Print [S ''Job status is '', T (Some ''pending''), S ''. Trying again.''],
                   Sleep 10, UrlOpen status_url,
                   Print [S ''Job status is '', T (Some ''processing''), S ''. Trying again.''],
                   Sleep 10, UrlOpen status_url],
          calls = 3, outputs = None, cwd = (\<lambda>_. None)\<rparr>)"
    by (simp add: numeral_2_eq_2 nsidc_defs example_defs nsidc_service_def status_url_def)
  have f: "harmony_poll_for 2 harmony_service job_url (job_doc ''running'' 0 [])
       (fresh_world\<lparr>calls := 2\<rparr>) =
       Exited (Inr (job_doc ''running'' 100 job_links),
         \<lparr>trace = [Print [S ''Job status is running. Progress is '', J (JNum 0), S ''%. Trying again.''],
                   Sleep 10, UrlOpen job_url,
                   Print [S ''Job status is running. Progress is '', J (JNum 40), S ''%. Trying again.''],
                   Sleep 10, UrlOpen job_url],
          calls = 4, outputs = None, cwd = (\<lambda>_. None)\<rparr>)"
    by (simp add: numeral_2_eq_2 harmony_poll_once_def harmony_running_def seq_def less_than_100_def
        andthen_def urlopen_def emit_def json_loads_def py_getitem_def job_doc_def harmony_service_def
        job_url_def fresh_world_def)
  from n2 e have g: "nsidc_poll (nsidc_service [''processing'', ''complete''] granules) status_url
       (Some ''pending'') None (fresh_world\<lparr>calls := 1\<rparr>) =
       Some (Inr (Some ''complete'', Some (status_doc ''complete'')),
         \<lparr>trace = [Print [S ''Job status is '', T (Some ''pending''), S ''. Trying again.''],
                   Sleep 10, UrlOpen status_url,
                   Print [S ''Job status is '', T (Some ''processing''), S ''. Trying again.''],
                   Sleep 10, UrlOpen status_url],
          calls = 3, outputs = None, cwd = (\<lambda>_. None)\<rparr>)" by simp
  from h2 f have i: "harmony_poll harmony_service job_url (job_doc ''running'' 0 [])
       (fresh_world\<lparr>calls := 2\<rparr>) =
       Some (Inr (job_doc ''running'' 100 job_links),
         \<lparr>trace = [Print [S ''Job status is running. Progress is '', J (JNum 0), S ''%. Trying again.''],
                   Sleep 10, UrlOpen job_url,
                   Print [S ''Job status is running. Progress is '', J (JNum 40), S ''%. Trying again.''],
                   Sleep 10, UrlOpen job_url],
          calls = 4, outputs = None, cwd = (\<lambda>_. None)\<rparr>)" by simp
  from a b c d g i show ?thesis by blast
qed

subsection \<open>The links of a finished Harmony job\<close>

lemma opened_append [simp]: "opened (xs @ ys) = opened xs @ opened ys"
  by (induction xs rule: opened.induct) auto

lemma select_rel_is_data:
  "select rel_is_data links = Inr ls \<Longrightarrow> ls = filter rel_data_or_absent links"
proof (induction links arbitrary: ls)
  case Nil
  then show ?case by simp
next
  case (Cons l links)
  then show ?case
    by (auto simp: rel_is_data_def rel_data_or_absent_def split: sum.splits json.splits option.splits if_splits)
qed

lemma harmony_fetch_pass:
  assumes "harmony_fetch net (l # ls) w = (Inr u, w')"
  obtains code hdrs data w2 where
    "py_getitem l ''href'' = Inr (JStr (href l))"
    "net (calls w) (href l) = Reply code hdrs data" "200 \<le> code" "code < 300"
    "trace w2 = trace w @ [Print [J (JStr (href l))], UrlOpen (href l)]"
    "calls w2 = Suc (calls w)" "outputs w2 = outputs w"
    "cwd w2 = (cwd w)(filepath_of (href l) \<mapsto> File data)"
    "harmony_fetch net ls w2 = (Inr u, w')"
proof -
  from assms obtain h url w1 w2 data where
    h: "py_getitem l ''href'' = Inr h" "href_str h = Inr url"
    and o: "open_wb (filepath_of url) (emit (Print [J h]) w) = (Inr (), w1)"
    and r: "urlopen net url w1 = (Inr data, w2)"
    and rest: "harmony_fetch net ls (w2\<lparr>cwd := (cwd w2)(filepath_of url \<mapsto> File data)\<rparr>) = (Inr u, w')"
    by (auto split: sum.splits prod.splits)
  from h(2) have hj: "h = JStr url" by (auto simp: href_str_def split: json.splits)
  with h(1) have u: "href l = url" by (simp add: href_def)
  from o have w1: "calls w1 = calls w" "outputs w1 = outputs w"
    "cwd w1 = (cwd w)(filepath_of url \<mapsto> File (Raw []))" "trace w1 = trace w @ [Print [J h]]"
    by (auto simp: open_wb_def emit_def split: if_splits)
  from r obtain code hdrs where w2: "net (calls w1) url = Reply code hdrs data"
    "200 \<le> code" "code < 300"
    "calls w2 = Suc (calls w1)" "outputs w2 = outputs w1" "cwd w2 = cwd w1"
    "trace w2 = trace w1 @ [UrlOpen url]"
    by (auto simp: urlopen_def emit_def Let_def split: if_splits response.splits)
  show thesis
    by (rule that[of code hdrs data "w2\<lparr>cwd := (cwd w2)(filepath_of url \<mapsto> File data)\<rparr>"])
       (use h(1) hj u w1 w2 rest in auto)
qed

lemma harmony_fetch_downloads:
  "harmony_fetch net ls w = (Inr u, w') \<Longrightarrow>
     trace w' = trace w @ concat (map (\<lambda>l. [Print [J (JStr (href l))], UrlOpen (href l)]) ls)
     \<and> calls w' = calls w + length ls
     \<and> (\<forall>i<length ls. \<exists>code hdrs data.
          py_getitem (ls ! i) ''href'' = Inr (JStr (href (ls ! i)))
          \<and> net (calls w + i) (href (ls ! i)) = Reply code hdrs data \<and> 200 \<le> code \<and> code < 300
          \<and> ((\<forall>j. i < j \<and> j < length ls \<longrightarrow>
                 filepath_of (href (ls ! j)) \<noteq> filepath_of (href (ls ! i))) \<longrightarrow>
               cwd w' (filepath_of (href (ls ! i))) = Some (File data)))
     \<and> (\<forall>name. name \<notin> (\<lambda>l. filepath_of (href l)) ` set ls \<longrightarrow> cwd w' name = cwd w name)
     \<and> outputs w' = outputs w"
proof (induction ls arbitrary: w)
  case Nil
  then show ?case by simp
next
  case (Cons l ls)
  from Cons.prems obtain code hdrs data w2 where s:
    "py_getitem l ''href'' = Inr (JStr (href l))"
    "net (calls w) (href l) = Reply code hdrs data" "200 \<le> code" "code < 300"
    "trace w2 = trace w @ [Print [J (JStr (href l))], UrlOpen (href l)]"
    "calls w2 = Suc (calls w)" "outputs w2 = outputs w"
    "cwd w2 = (cwd w)(filepath_of (href l) \<mapsto> File data)"
    "harmony_fetch net ls w2 = (Inr u, w')"
    by (rule harmony_fetch_pass)
  note ih = Cons.IH[OF s(9)]
  from ih have frame: "name \<notin> (\<lambda>l. filepath_of (href l)) ` set ls \<Longrightarrow> cwd w' name = cwd w2 name"
    for name by blast
  have files: "\<exists>code hdrs data.
          py_getitem ((l # ls) ! i) ''href'' = Inr (JStr (href ((l # ls) ! i)))
          \<and> net (calls w + i) (href ((l # ls) ! i)) = Reply code hdrs data \<and> 200 \<le> code \<and> code < 300
          \<and> ((\<forall>j. i < j \<and> j < length (l # ls) \<longrightarrow>
                 filepath_of (href ((l # ls) ! j)) \<noteq> filepath_of (href ((l # ls) ! i))) \<longrightarrow>
               cwd w' (filepath_of (href ((l # ls) ! i))) = Some (File data))"
    if i: "i < length (l # ls)" for i
  proof (cases i)
    case 0
    have "cwd w' (filepath_of (href l)) = Some (File data)"
      if a: "\<forall>j. 0 < j \<and> j < length (l # ls) \<longrightarrow>
                 filepath_of (href ((l # ls) ! j)) \<noteq> filepath_of (href l)"
    proof -
      have "filepath_of (href l) \<notin> (\<lambda>l. filepath_of (href l)) ` set ls"
      proof
        assume "filepath_of (href l) \<in> (\<lambda>l. filepath_of (href l)) ` set ls"
        then obtain k where "k < length ls" "filepath_of (href (ls ! k)) = filepath_of (href l)"
          by (auto simp: in_set_conv_nth)
        with a[rule_format, of "Suc k"] show False by simp
      qed
      from frame[OF this] s(8) show ?thesis by simp
    qed
    with 0 s(1,2,3,4) show ?thesis by auto
  next
    case (Suc k)
    with i have k: "k < length ls" by simp
    from ih k obtain code' hdrs' data' where r:
      "py_getitem (ls ! k) ''href'' = Inr (JStr (href (ls ! k)))"
      "net (calls w2 + k) (href (ls ! k)) = Reply code' hdrs' data'" "200 \<le> code'" "code' < 300"
      "(\<forall>j. k < j \<and> j < length ls \<longrightarrow>
                 filepath_of (href (ls ! j)) \<noteq> filepath_of (href (ls ! k))) \<longrightarrow>
               cwd w' (filepath_of (href (ls ! k))) = Some (File data')"
      by blast
    have "\<forall>j. k < j \<and> j < length ls \<longrightarrow> filepath_of (href (ls ! j)) \<noteq> filepath_of (href (ls ! k))"
      if a: "\<forall>j. Suc k < j \<and> j < length (l # ls) \<longrightarrow>
                 filepath_of (href ((l # ls) ! j)) \<noteq> filepath_of (href ((l # ls) ! Suc k))"
      using a[rule_format, of "Suc j" for j] by auto
    with r s(6) Suc show ?thesis
      by (intro exI[of _ code'] exI[of _ hdrs'] exI[of _ data']) auto
  qed
  show ?case
  proof (intro conjI allI impI)
    show "trace w' = trace w @ concat (map (\<lambda>l. [Print [J (JStr (href l))], UrlOpen (href l)]) (l # ls))"
      using ih s(5) by simp
    show "calls w' = calls w + length (l # ls)" using ih s(6) by simp
    show "\<exists>code hdrs data.
          py_getitem ((l # ls) ! i) ''href'' = Inr (JStr (href ((l # ls) ! i)))
          \<and> net (calls w + i) (href ((l # ls) ! i)) = Reply code hdrs data \<and> 200 \<le> code \<and> code < 300
          \<and> ((\<forall>j. i < j \<and> j < length (l # ls) \<longrightarrow>
                 filepath_of (href ((l # ls) ! j)) \<noteq> filepath_of (href ((l # ls) ! i))) \<longrightarrow>
               cwd w' (filepath_of (href ((l # ls) ! i))) = Some (File data))"
      if "i < length (l # ls)" for i using files[OF that] .
    show "cwd w' name = cwd w name" if "name \<notin> (\<lambda>l. filepath_of (href l)) ` set (l # ls)" for name
      using that frame[of name] s(8) by auto
    show "outputs w' = outputs w" using ih s(7) by simp
  qed
qed

lemma harmony_fetch_prefix:
  "harmony_fetch net ls w = (r, w') \<Longrightarrow>
     \<exists>new rest. trace w' = trace w @ new \<and> map href ls = opened new @ rest"
proof (induction ls arbitrary: w)
  case Nil
  then show ?case by simp
next
  case (Cons l ls)
  show ?case
  proof (cases "py_getitem l ''href''")
    case (Inl e)
    with Cons.prems show ?thesis by auto
  next
    case (Inr h)
    show ?thesis
    proof (cases "href_str h")
      case (Inl e)
      with Inr Cons.prems have "trace w' = trace w @ [Print [J h]]" by (auto simp: emit_def)
      then show ?thesis by (intro exI[of _ "[Print [J h]]"]) simp
    next
      case url: (Inr url)
      then have hj: "h = JStr url" by (auto simp: href_str_def split: json.splits)
      with Inr have u: "href l = url" by (simp add: href_def)
      obtain r1 w1 where o: "open_wb (filepath_of url) (emit (Print [J h]) w) = (r1, w1)" by force
      then have t1: "trace w1 = trace w @ [Print [J h]]"
        by (auto simp: open_wb_def emit_def split: if_splits)
      show ?thesis
      proof (cases r1)
        case (Inl e)
        with Inr url o Cons.prems have "w' = w1" by simp
        with t1 show ?thesis by (intro exI[of _ "[Print [J h]]"]) simp
      next
        case ok: (Inr x)
        obtain r2 w2 where q: "urlopen net url w1 = (r2, w2)" by force
        then have t2: "trace w2 = trace w1 \<or> trace w2 = trace w1 @ [UrlOpen url]"
          by (auto simp: urlopen_def emit_def Let_def split: if_splits response.splits)
        show ?thesis
        proof (cases r2)
          case (Inl e)
          with Inr url o ok q Cons.prems have "w' = w2" by simp
          with t1 t2 u show ?thesis
            by (auto intro: exI[of _ "[Print [J h]]"] exI[of _ "[Print [J h], UrlOpen url]"])
        next
          case data: (Inr data)
          with q have t2': "trace w2 = trace w1 @ [UrlOpen url]"
            by (auto simp: urlopen_def emit_def Let_def split: if_splits response.splits)
          from Inr url o ok q data Cons.prems
          have "harmony_fetch net ls (w2\<lparr>cwd := (cwd w2)(filepath_of url \<mapsto> File data)\<rparr>) = (r, w')"
            by simp
          from Cons.IH[OF this] obtain new rest where
            n: "trace w' = trace w2 @ new" "map href ls = opened new @ rest" by auto
          show ?thesis
            using n t1 t2' u by (intro exI[of _ "[Print [J h], UrlOpen url] @ new"] exI[of _ rest]) simp
        qed
      qed
    qed
  qed
qed

lemma harmony_results_at_100:
  assumes "py_getitem job ''progress'' = Inr (JNum 100)"
    and "py_getitem job ''links'' = Inr (JArr links)"
  shows "harmony_results net job w =
    (case select rel_is_data links of
       Inl e \<Rightarrow> (Inl e, emit (Print [S ''Job progress is 100%. Output links printed below:'']) w)
     | Inr ls \<Rightarrow> harmony_fetch net (filter rel_data_or_absent links)
         (emit (Print [S ''Job progress is 100%. Output links printed below:'']) w))"
  using assms select_rel_is_data[of links]
  by (auto simp: harmony_results_def andthen_def seq_def equals_100_def py_iter_def split: sum.splits)

lemmas harmony_defs = harmony_results_def andthen_def seq_def equals_100_def py_iter_def
  py_getitem_def rel_is_data_def href_str_def open_wb_def urlopen_def emit_def filepath_of_def
  Let_def

text \<open>
  C3, as stated: for every list of links, those whose \<^verbatim>\<open>rel\<close> field equals \<^verbatim>\<open>"data"\<close> or is
  absent are downloaded, and for the links with the \<^verbatim>\<open>href\<close> fields \<^verbatim>\<open>a\<close>, \<^verbatim>\<open>b\<close> and \<^verbatim>\<open>c\<close> of
  the example, \<^verbatim>\<open>a\<close> and \<^verbatim>\<open>c\<close> are fetched. The code opens a file named by the \<^verbatim>\<open>href\<close> and
  hands the \<^verbatim>\<open>href\<close> to \<^verbatim>\<open>urlopen\<close>, which refuses a string without a scheme: on the list
  of the example the call ends in \<^verbatim>\<open>ValueError\<close> at the first link, with an empty file
  \<^verbatim>\<open>a\<close> in the working directory and nothing requested.
\<close>

theorem bare_hrefs_are_refused:
  "harmony_results file_service (job_doc ''successful'' 100 spec_links) fresh_world =
     (Inl ValueError,
      \<lparr>trace = [Print [S ''Job progress is 100%. Output links printed below:''],
                Print [J (JStr ''a'')]],
       calls = 0, outputs = None, cwd = [''a'' \<mapsto> File (Raw [])]\<rparr>)"
  by (simp add: harmony_defs has_scheme_def job_doc_def spec_links_def fresh_world_def)

text \<open>
  C3, amended. Let the job be at 100 percent with a list of links. When the part of
  \<^verbatim>\<open>request_harmony_data\<close> that follows the loop returns, it has dealt with exactly the
  links whose \<^verbatim>\<open>rel\<close> field equals \<^verbatim>\<open>"data"\<close> or is absent, in the order of the list: for
  each of them it has printed the \<^verbatim>\<open>href\<close>, a string, and sent one request to it, and
  nothing else was printed or requested; the reply to that request had a status 2xx and
  its body is in the file named by the last segment of the \<^verbatim>\<open>href\<close>, unless a later
  link of these has taken that name; no other file has changed. However the call ends,
  the URLs it has requested are the \<^verbatim>\<open>href\<close>s of the first of these links, in order, so
  that a link with another \<^verbatim>\<open>rel\<close> is never requested.
\<close>

theorem data_links_are_fetched:
  assumes "py_getitem job ''progress'' = Inr (JNum 100)"
    and "py_getitem job ''links'' = Inr (JArr links)"
  shows "(harmony_results net job w = (Inr u, w') \<longrightarrow>
       trace w' = trace w @ Print [S ''Job progress is 100%. Output links printed below:'']
         # concat (map (\<lambda>l. [Print [J (JStr (href l))], UrlOpen (href l)])
             (filter rel_data_or_absent links))
       \<and> calls w' = calls w + length (filter rel_data_or_absent links)
       \<and> (\<forall>i<length (filter rel_data_or_absent links). \<exists>code hdrs data.
            py_getitem (filter rel_data_or_absent links ! i) ''href'' =
              Inr (JStr (href (filter rel_data_or_absent links ! i)))
            \<and> net (calls w + i) (href (filter rel_data_or_absent links ! i)) = Reply code hdrs data
            \<and> 200 \<le> code \<and> code < 300
            \<and> ((\<forall>j. i < j \<and> j < length (filter rel_data_or_absent links) \<longrightarrow>
                   filepath_of (href (filter rel_data_or_absent links ! j)) \<noteq>
                   filepath_of (href (filter rel_data_or_absent links ! i))) \<longrightarrow>
                 cwd w' (filepath_of (href (filter rel_data_or_absent links ! i))) = Some (File data)))
       \<and> (\<forall>name. name \<notin> (\<lambda>l. filepath_of (href l)) ` set (filter rel_data_or_absent links) \<longrightarrow>
            cwd w' name = cwd w name)
       \<and> outputs w' = outputs w)
    \<and> (harmony_results net job w = (r, v) \<longrightarrow>
         (\<exists>new rest. trace v = trace w @ new
            \<and> map href (filter rel_data_or_absent links) = opened new @ rest))"
proof (intro conjI impI)
  let ?w = "emit (Print [S ''Job progress is 100%. Output links printed below:'']) w"
  let ?sel = "filter rel_data_or_absent links"
  note res = harmony_results_at_100[OF assms, of net w]
  {
    assume a: "harmony_results net job w = (Inr u, w')"
    with res have f: "harmony_fetch net ?sel ?w = (Inr u, w')"
      by (auto split: sum.splits)
    note d = harmony_fetch_downloads[OF f]
    have w: "trace ?w = trace w @ [Print [S ''Job progress is 100%. Output links printed below:'']]"
      "calls ?w = calls w" "cwd ?w = cwd w" "outputs ?w = outputs w"
      by (simp_all add: emit_def)
    show "trace w' = trace w @ Print [S ''Job progress is 100%. Output links printed below:'']
         # concat (map (\<lambda>l. [Print [J (JStr (href l))], UrlOpen (href l)]) ?sel)"
      using d w by simp
    show "calls w' = calls w + length ?sel" using d w by simp
    show "\<forall>i<length ?sel. \<exists>code hdrs data.
            py_getitem (?sel ! i) ''href'' = Inr (JStr (href (?sel ! i)))
            \<and> net (calls w + i) (href (?sel ! i)) = Reply code hdrs data
            \<and> 200 \<le> code \<and> code < 300
            \<and> ((\<forall>j. i < j \<and> j < length ?sel \<longrightarrow>
                   filepath_of (href (?sel ! j)) \<noteq> filepath_of (href (?sel ! i))) \<longrightarrow>
                 cwd w' (filepath_of (href (?sel ! i))) = Some (File data))"
      using d unfolding w by blast
    show "\<forall>name. name \<notin> (\<lambda>l. filepath_of (href l)) ` set ?sel \<longrightarrow> cwd w' name = cwd w name"
      using d unfolding w by blast
    show "outputs w' = outputs w" using d w by simp
  }
  assume b: "harmony_results net job w = (r, v)"
  show "\<exists>new rest. trace v = trace w @ new \<and> map href ?sel = opened new @ rest"
  proof (cases "select rel_is_data links")
    case (Inl e)
    with res b have "trace v = trace w @ [Print [S ''Job progress is 100%. Output links printed below:'']]"
      by (auto simp: emit_def)
    then show ?thesis
      by (intro exI[of _ "[Print [S ''Job progress is 100%. Output links printed below:'']]"]) simp
  next
    case (Inr ls)
    with res b have "harmony_fetch net ?sel ?w = (r, v)" by simp
    from harmony_fetch_prefix[OF this] obtain new rest where
      "trace v = trace ?w @ new" "map href ?sel = opened new @ rest" by blast
    then show ?thesis
      by (intro exI[of _ "Print [S ''Job progress is 100%. Output links printed below:''] # new"]
            exI[of _ rest]) (simp add: emit_def)
  qed
qed

theorem data_links_are_fetched_witness:
  "harmony_results file_service (job_doc ''successful'' 100 job_links) fresh_world =
     (Inr (), snd (harmony_results file_service (job_doc ''successful'' 100 job_links) fresh_world))
   \<and> trace (snd (harmony_results file_service (job_doc ''successful'' 100 job_links) fresh_world)) =
       [Print [S ''Job progress is 100%. Output links printed below:''],
        Print [J (JStr ''https://harmony.earthdata.nasa.gov/out/a.nc'')],
        UrlOpen ''https://harmony.earthdata.nasa.gov/out/a.nc'',
        Print [J (JStr ''https://harmony.earthdata.nasa.gov/out/c.nc'')],
        UrlOpen ''https://harmony.earthdata.nasa.gov/out/c.nc'']
   \<and> calls (snd (harmony_results file_service (job_doc ''successful'' 100 job_links) fresh_world)) = 2
   \<and> cwd (snd (harmony_results file_service (job_doc ''successful'' 100 job_links) fresh_world))
       ''b.json'' = None
   \<and> cwd (snd (harmony_results file_service (job_doc ''successful'' 100 job_links) fresh_world))
       ''c.nc'' = Some (File (Raw ''https://harmony.earthdata.nasa.gov/out/c.nc''))
   \<and> (\<exists>rest. [''a'', ''c''] =
        opened (trace (snd (harmony_results file_service (job_doc ''successful'' 100 spec_links)
                  fresh_world))) @ rest)"
proof -
  let ?job = "job_doc ''successful'' 100 job_links"
  let ?r = "harmony_results file_service ?job fresh_world"
  let ?s = "harmony_results file_service (job_doc ''successful'' 100 spec_links) fresh_world"
  have 1: "py_getitem (job_doc ''successful'' 100 ls) ''progress'' = Inr (JNum 100)"
    and 2: "py_getitem (job_doc ''successful'' 100 ls) ''links'' = Inr (JArr ls)" for ls
    by (simp_all add: job_doc_def py_getitem_def)
  have 3: "?r = (Inr (), snd ?r)"
    by (simp add: harmony_defs job_doc_def job_links_def file_service_def fresh_world_def)
  have 4: "filter rel_data_or_absent job_links =
     [JObj [(''href'', JStr ''https://harmony.earthdata.nasa.gov/out/a.nc''), (''rel'', JStr ''data'')],
      JObj [(''href'', JStr ''https://harmony.earthdata.nasa.gov/out/c.nc'')]]"
    "filter rel_data_or_absent spec_links =
     [JObj [(''href'', JStr ''a''), (''rel'', JStr ''data'')], JObj [(''href'', JStr ''c'')]]"
    by (simp_all add: rel_data_or_absent_def job_links_def spec_links_def)
  have 5: "href (JObj ((''href'', JStr x) # kvs)) = x" for x kvs
    by (simp add: href_def py_getitem_def)
  have 6: "?s = (fst ?s, snd ?s)" by simp
  note t = data_links_are_fetched[OF 1 2, where net = file_service and w = fresh_world,
      THEN conjunct1, rule_format, OF 3]
  note p = data_links_are_fetched[OF 1 2, where net = file_service and w = fresh_world,
      THEN conjunct2, rule_format, OF 6]
  have a: "trace (snd ?r) =
       [Print [S ''Job progress is 100%. Output links printed below:''],
        Print [J (JStr ''https://harmony.earthdata.nasa.gov/out/a.nc'')],
        UrlOpen ''https://harmony.earthdata.nasa.gov/out/a.nc'',
        Print [J (JStr ''https://harmony.earthdata.nasa.gov/out/c.nc'')],
        UrlOpen ''https://harmony.earthdata.nasa.gov/out/c.nc'']"
    using t by (simp add: 4 5 fresh_world_def)
  have b: "calls (snd ?r) = 2" using t by (simp add: 4 fresh_world_def)
  have c: "cwd (snd ?r) ''b.json'' = None"
    using t by (simp add: 4 5 fresh_world_def filepath_of_def)
  have d: "\<exists>rest. [''a'', ''c''] = opened (trace (snd ?s)) @ rest"
    using p by (auto simp: 4 5 fresh_world_def)
  have e: "cwd (snd ?r) ''c.nc'' = Some (File (Raw ''https://harmony.earthdata.nasa.gov/out/c.nc''))"
    using t[THEN conjunct2, THEN conjunct2, THEN conjunct1, rule_format, of 1]
    by (auto simp: 4 5 fresh_world_def filepath_of_def file_service_def)
  from 3 a b c d e show ?thesis by blast
qed

lemma split_on_not_Nil [simp]: "split_on c s \<noteq> []"
  by (induction s) (auto split: list.splits)

lemma last_split_on:
  "\<exists>dir. s = dir @ last (split_on c s) \<and> (dir = [] \<or> last dir = c) \<and> c \<notin> set (last (split_on c s))"
proof (induction s)
  case Nil
  then show ?case by simp
next
  case (Cons x s)
  then obtain dir where d: "s = dir @ last (split_on c s)" "dir = [] \<or> last dir = c"
    "c \<notin> set (last (split_on c s))" by blast
  obtain y ys where ys: "split_on c s = y # ys" by (cases "split_on c s") auto
  show ?case
  proof (cases "x = c")
    case True
    have "x # s = (c # dir) @ last (split_on c (x # s))"
      using True d(1) by simp
    moreover have "last (c # dir) = c" using d(2) by auto
    moreover have "c \<notin> set (last (split_on c (x # s)))" using True d(3) by simp
    ultimately show ?thesis by blast
  next
    case False
    show ?thesis
    proof (cases ys)
      case Nil
      then have l: "last (split_on c s) = y" "last (split_on c (x # s)) = x # y"
        using ys False by simp_all
      have "dir = []"
      proof (rule ccontr)
        assume "dir \<noteq> []"
        then have "c \<in> set dir" using d(2) last_in_set by fastforce
        moreover have "c \<notin> set s"
        proof -
          have "c \<notin> set t" if "split_on c t = [z]" for t z
            using that by (induction t arbitrary: z) (auto split: if_splits list.splits)
          then show ?thesis using ys Nil by blast
        qed
        ultimately show False using d(1) by (metis Un_iff set_append)
      qed
      then have "x # s = [] @ last (split_on c (x # s))" using d(1) l by simp
      moreover have "c \<notin> set (last (split_on c (x # s)))" using l d(3) False by simp
      ultimately show ?thesis by blast
    next
      case (Cons z zs)
      then have l: "last (split_on c (x # s)) = last (split_on c s)"
        using ys False by simp
      have "dir \<noteq> []"
      proof
        assume "dir = []"
        then have "s = last (split_on c s)" using d(1) by simp
        then have "c \<notin> set s" using d(3) by simp
        moreover have "c \<in> set t" if "split_on c t = a # b # bs" for t a b bs
          using that by (induction t arbitrary: a b bs) (auto split: if_splits list.splits)
        ultimately show False using ys Cons by blast
      qed
      then have "last (x # dir) = c" using d(2) by simp
      moreover have "x # s = (x # dir) @ last (split_on c (x # s))" using d(1) l by simp
      moreover have "c \<notin> set (last (split_on c (x # s)))" using l d(3) by simp
      ultimately show ?thesis by blast
    qed
  qed
qed

lemma harmony_fetch_step:
  assumes "harmony_fetch net (l # ls) w = (Inr u, w')"
  obtains url code hdrs data w2 where
    "py_getitem l ''href'' = Inr (JStr url)"
    "net (calls w) url = Reply code hdrs data"
    "calls w2 = Suc (calls w)" "outputs w2 = outputs w"
    "cwd w2 = (cwd w)(filepath_of url \<mapsto> File data)"
    "harmony_fetch net ls w2 = (Inr u, w')"
proof -
  from assms obtain href url w1 w2 data where
    h: "py_getitem l ''href'' = Inr href" "href_str href = Inr url"
    and o: "open_wb (filepath_of url) (emit (Print [J href]) w) = (Inr (), w1)"
    and r: "urlopen net url w1 = (Inr data, w2)"
    and rest: "harmony_fetch net ls (w2\<lparr>cwd := (cwd w2)(filepath_of url \<mapsto> File data)\<rparr>) = (Inr u, w')"
    by (auto split: sum.splits prod.splits)
  from h(2) have href: "href = JStr url" by (auto simp: href_str_def split: json.splits)
  from o have w1: "calls w1 = calls w" "outputs w1 = outputs w"
    "cwd w1 = (cwd w)(filepath_of url \<mapsto> File (Raw []))"
    by (auto simp: open_wb_def emit_def split: if_splits)
  from r obtain code hdrs where w2: "net (calls w1) url = Reply code hdrs data"
    "calls w2 = Suc (calls w1)" "outputs w2 = outputs w1" "cwd w2 = cwd w1"
    by (auto simp: urlopen_def emit_def Let_def split: if_splits response.splits)
  show thesis
    by (rule that[of url code hdrs data "w2\<lparr>cwd := (cwd w2)(filepath_of url \<mapsto> File data)\<rparr>"])
       (use h(1) href w1 w2 rest in auto)
qed

lemma harmony_fetch_frame:
  "harmony_fetch net ls w = (Inr u, w') \<Longrightarrow>
     outputs w' = outputs w \<and> (name \<notin> set (map target ls) \<longrightarrow> cwd w' name = cwd w name)"
proof (induction ls arbitrary: w)
  case Nil
  then show ?case by simp
next
  case (Cons l ls)
  from Cons.prems obtain url code hdrs data w2 where s:
    "py_getitem l ''href'' = Inr (JStr url)"
    "outputs w2 = outputs w"
    "cwd w2 = (cwd w)(filepath_of url \<mapsto> File data)"
    "harmony_fetch net ls w2 = (Inr u, w')"
    by (rule harmony_fetch_step)
  from Cons.IH[OF s(4)] s(1,2,3) show ?case
    by (auto simp: target_def)
qed

text \<open>
  C4, as stated: each downloaded link is written into the designated output directory,
  under the file name taken from the last segment of its URL. \<^verbatim>\<open>request_harmony_data\<close>
  names no directory: it opens the bare file name, which lies in the working directory.
  With the folder \<^verbatim>\<open>Outputs\<close> in place and empty, the download loop returns with the
  files of the links in the working directory and \<^verbatim>\<open>Outputs\<close> still empty.
\<close>

theorem harmony_files_bypass_outputs:
  "fst (harmony_fetch file_service job_links (ensure_outputs fresh_world)) = Inr ()
   \<and> outputs (snd (harmony_fetch file_service job_links (ensure_outputs fresh_world))) =
       Some (Dir [] [])
   \<and> cwd (snd (harmony_fetch file_service job_links (ensure_outputs fresh_world))) ''c.nc'' =
       Some (File (Raw ''https://harmony.earthdata.nasa.gov/out/c.nc''))"
  by (simp add: harmony_defs job_links_def file_service_def fresh_world_def ensure_outputs_def)

text \<open>
  C4, amended. When the download loop returns, every link it was given has been
  requested and the body of the reply is in the file of the working directory named by
  what follows the last \<^verbatim>\<open>/\<close> of the link's URL, unless a later link has the same file
  name and has replaced it. The name holds no \<^verbatim>\<open>/\<close>, so the file lies directly in the
  working directory; the folder \<^verbatim>\<open>Outputs\<close> is left as it was.
\<close>

theorem harmony_files_named_by_last_segment:
  assumes "harmony_fetch net links w = (Inr u, w')" and "i < length links"
  shows "\<exists>url code hdrs data dir.
           py_getitem (links ! i) ''href'' = Inr (JStr url)
         \<and> net (calls w + i) url = Reply code hdrs data
         \<and> url = dir @ filepath_of url \<and> (dir = [] \<or> last dir = CHR ''/'')
         \<and> CHR ''/'' \<notin> set (filepath_of url)
         \<and> ((\<forall>j. i < j \<and> j < length links \<longrightarrow> target (links ! j) \<noteq> filepath_of url) \<longrightarrow>
              cwd w' (filepath_of url) = Some (File data))
         \<and> outputs w' = outputs w"
  using assms
proof (induction links arbitrary: w i)
  case Nil
  then show ?case by simp
next
  case (Cons l ls)
  from Cons.prems(1) obtain url code hdrs data w2 where s:
    "py_getitem l ''href'' = Inr (JStr url)"
    "net (calls w) url = Reply code hdrs data"
    "calls w2 = Suc (calls w)" "outputs w2 = outputs w"
    "cwd w2 = (cwd w)(filepath_of url \<mapsto> File data)"
    "harmony_fetch net ls w2 = (Inr u, w')"
    by (rule harmony_fetch_step)
  note frame = harmony_fetch_frame[OF s(6)]
  show ?case
  proof (cases i)
    case 0
    obtain dir where d: "url = dir @ filepath_of url" "dir = [] \<or> last dir = CHR ''/''"
      "CHR ''/'' \<notin> set (filepath_of url)"
      using last_split_on[of url "CHR ''/''"] unfolding filepath_of_def by blast
    have "cwd w' (filepath_of url) = Some (File data)"
      if "\<forall>j. 0 < j \<and> j < length (l # ls) \<longrightarrow> target ((l # ls) ! j) \<noteq> filepath_of url"
    proof -
      have "filepath_of url \<notin> set (map target ls)"
      proof
        assume "filepath_of url \<in> set (map target ls)"
        then obtain k where "k < length ls" "target (ls ! k) = filepath_of url"
          by (auto simp: in_set_conv_nth)
        with that[rule_format, of "Suc k"] show False by simp
      qed
      with frame[of "filepath_of url"] s(5) show ?thesis by simp
    qed
    with 0 s(1,2,4) d frame show ?thesis by auto
  next
    case (Suc k)
    with Cons.prems(2) have k: "k < length ls" by simp
    from Cons.IH[OF s(6) k] obtain url' code' hdrs' data' dir' where r:
      "py_getitem (ls ! k) ''href'' = Inr (JStr url')"
      "net (calls w2 + k) url' = Reply code' hdrs' data'"
      "url' = dir' @ filepath_of url'" "dir' = [] \<or> last dir' = CHR ''/''"
      "CHR ''/'' \<notin> set (filepath_of url')"
      "(\<forall>j. k < j \<and> j < length ls \<longrightarrow> target (ls ! j) \<noteq> filepath_of url') \<longrightarrow>
              cwd w' (filepath_of url') = Some (File data')"
      "outputs w' = outputs w2" by blast
    have "(\<forall>j. k < j \<and> j < length ls \<longrightarrow> target (ls ! j) \<noteq> filepath_of url')"
      if "\<forall>j. Suc k < j \<and> j < length (l # ls) \<longrightarrow> target ((l # ls) ! j) \<noteq> filepath_of url'"
      using that[rule_format, of "Suc j" for j] by auto
    with r s(3,4) Suc show ?thesis
      by (intro exI[of _ url'] exI[of _ code'] exI[of _ hdrs'] exI[of _ data'] exI[of _ dir']) auto
  qed
qed

theorem harmony_files_named_by_last_segment_witness:
  "cwd (snd (harmony_fetch file_service job_links fresh_world)) ''c.nc'' =
     Some (File (Raw ''https://harmony.earthdata.nasa.gov/out/c.nc''))
   \<and> outputs (snd (harmony_fetch file_service job_links fresh_world)) = None"
proof -
  let ?r = "harmony_fetch file_service job_links fresh_world"
  have 1: "?r = (Inr (), snd ?r)"
    by (simp add: harmony_defs job_links_def file_service_def fresh_world_def)
  have 2: "(2::nat) < length job_links" by (simp add: job_links_def)
  have 3: "py_getitem (job_links ! 2) ''href'' = Inr (JStr ''https://harmony.earthdata.nasa.gov/out/c.nc'')"
    by (simp add: job_links_def py_getitem_def)
  have 4: "filepath_of ''https://harmony.earthdata.nasa.gov/out/c.nc'' = ''c.nc''"
    by (simp add: filepath_of_def)
  have 5: "\<not> (2 < j \<and> j < length job_links)" for j by (simp add: job_links_def)
  from harmony_files_named_by_last_segment[OF 1 2] 3 4 5 show ?thesis
    by (auto simp: file_service_def fresh_world_def)
qed

subsection \<open>The example run of the Harmony client\<close>

lemmas harmony_run_defs = harmony_prepare_def harmony_derive_def harmony_submit_def harmony_url_def
  requests_get_def json_loads_def params_get_def py_split_def item_def first_def fmt_def
  harmony_root_def cmr_collections_url_def harmony_poll_once_def harmony_running_def
  less_than_100_def has_scheme_def

lemma harmony_example_prepare:
  "harmony_prepare harmony_service search_params fresh_world =
     (Inr (), derived_params,
      \<lparr>trace = [HttpGet cmr_collections_url], calls = 1, outputs = None, cwd = (\<lambda>_. None)\<rparr>)"
  by (simp add: harmony_run_defs harmony_defs harmony_service_def search_params_def cmr_doc_def
      fresh_world_def derived_params_def)

lemma harmony_example_submit:
  "fst (harmony_submit some_python harmony_service derived_params
      \<lparr>trace = [HttpGet cmr_collections_url], calls = 1, outputs = None, cwd = (\<lambda>_. None)\<rparr>) =
     Inr (job_url, job_doc ''running'' 40 [])"
  "calls (snd (harmony_submit some_python harmony_service derived_params
      \<lparr>trace = [HttpGet cmr_collections_url], calls = 1, outputs = None, cwd = (\<lambda>_. None)\<rparr>)) = 3"
  "cwd (snd (harmony_submit some_python harmony_service derived_params
      \<lparr>trace = [HttpGet cmr_collections_url], calls = 1, outputs = None, cwd = (\<lambda>_. None)\<rparr>)) =
     (\<lambda>_. None)"
  by (simp_all add: harmony_run_defs harmony_defs harmony_service_def search_params_def job_doc_def
      derived_params_def job_url_def)


theorem polling_stops_at_terminal_status_witness:
  "nsidc_poll always_pending status_url (Some ''failed'') None fresh_world =
     Some (Inr (Some ''failed'', None), fresh_world)
   \<and> nsidc_poll completes_next status_url (Some ''processing'') None fresh_world =
     Some (Inr (Some ''complete'', Some (status_doc ''complete'')),
           \<lparr>trace = [Print [S ''Job status is '', T (Some ''processing''), S ''. Trying again.''],
                     Sleep 10, UrlOpen status_url],
            calls = 1, outputs = None, cwd = (\<lambda>_. None)\<rparr>)
   \<and> harmony_poll always_running job_url (job_doc ''failed'' 40 []) fresh_world =
     Some (Inr (job_doc ''failed'' 40 []), fresh_world)
   \<and> harmony_poll finishes_next job_url (job_doc ''running'' 40 []) fresh_world =
     Some (Inr (job_doc ''running'' 100 []),
           \<lparr>trace = [Print [S ''Job status is running. Progress is '', J (JNum 40),
                            S ''%. Trying again.''],
                     Sleep 10, UrlOpen job_url],
            calls = 1, outputs = None, cwd = (\<lambda>_. None)\<rparr>)
   \<and> (\<exists>w. request_nsidc_data (nsidc_service [''complete''] granules) api_request fresh_world =
          Some (nsidc_finish (nsidc_service [''complete''] granules) ''ORD1'' (Some ''complete'')
                  None w))
   \<and> (\<exists>w. request_harmony_data some_python harmony_service search_params (JStr ''token'')
            fresh_world =
          Some (fst (harmony_results harmony_service (job_doc ''running'' 100 job_links) w),
                derived_params,
                snd (harmony_results harmony_service (job_doc ''running'' 100 job_links) w)))"
proof -
  have a: "terminal (Some ''failed'')" "terminal (Some ''complete'')"
    "still_processing (Some ''processing'')"
    by (simp_all add: terminal_def still_processing_def)
  have b: "nsidc_poll_once completes_next status_url (Some ''processing'') fresh_world =
      (Inr (Some ''complete'', status_doc ''complete''),
       \<lparr>trace = [Print [S ''Job status is '', T (Some ''processing''), S ''. Trying again.''],
                     Sleep 10, UrlOpen status_url],
            calls = 1, outputs = None, cwd = (\<lambda>_. None)\<rparr>)"
    by (simp add: nsidc_defs example_defs completes_next_def status_url_def)
  have c: "py_getitem (job_doc ''failed'' 40 []) ''status'' = Inr (JStr ''failed'')"
    "JStr ''failed'' \<noteq> JStr ''running''"
    "py_getitem (job_doc ''running'' 100 links) ''status'' = Inr (JStr ''running'')"
    "py_getitem (job_doc ''running'' 100 links) ''progress'' = Inr (JNum 100)"
    "harmony_running (job_doc ''running'' 40 []) = Inr True" for links
    by (simp_all add: job_doc_def py_getitem_def harmony_running_def seq_def less_than_100_def)
  have d: "harmony_poll_once finishes_next job_url (job_doc ''running'' 40 []) fresh_world =
      (Inr (job_doc ''running'' 100 []),
       \<lparr>trace = [Print [S ''Job status is running. Progress is '', J (JNum 40),
                            S ''%. Trying again.''],
                     Sleep 10, UrlOpen job_url],
            calls = 1, outputs = None, cwd = (\<lambda>_. None)\<rparr>)"
    by (simp add: harmony_poll_once_def andthen_def urlopen_def emit_def json_loads_def
        py_getitem_def job_doc_def finishes_next_def job_url_def fresh_world_def)
  note thm1 = polling_stops_at_terminal_status[where status = "Some ''failed''"
      and net = always_pending and url = status_url and loop_root = None and w = fresh_world,
      THEN conjunct1]
  note thm2 = polling_stops_at_terminal_status[where status = "Some ''complete''"
      and net = completes_next and url = status_url and loop_root = None and w = fresh_world
      and prev_status = "Some ''processing''" and root = "status_doc ''complete''",
      THEN conjunct2, THEN conjunct1]
  note thm3 = polling_stops_at_terminal_status[where net = always_running
      and url = job_url and w = fresh_world
      and job = "job_doc ''failed'' 40 []" and st = "JStr ''failed''",
      THEN conjunct2, THEN conjunct2, THEN conjunct1]
  note thm4 = polling_stops_at_terminal_status[where url = job_url and net = finishes_next and w = fresh_world
      and job = "job_doc ''running'' 100 []"
      and prev_job = "job_doc ''running'' 40 []" and st = "JStr ''running''",
      THEN conjunct2, THEN conjunct2, THEN conjunct2,
      THEN conjunct1]
  note thm5 = polling_stops_at_terminal_status[where net = "nsidc_service [''complete''] granules"
      and api = api_request and w = fresh_world and orderID = "''ORD1''" and url = status_url
      and first_status = "Some ''complete''" and status = "Some ''complete''" and loop_root = None,
      THEN conjunct2, THEN conjunct2, THEN conjunct2,
      THEN conjunct2, THEN conjunct1]
  note thm6 = polling_stops_at_terminal_status[where net = harmony_service
      and py = some_python and sp = search_params and w = fresh_world and sp' = derived_params
      and url = job_url and first_job = "job_doc ''running'' 40 []"
      and job = "job_doc ''running'' 100 job_links" and token = "JStr ''token''",
      THEN conjunct2, THEN conjunct2, THEN conjunct2,
      THEN conjunct2, THEN conjunct2]
  from a thm1 have 1: "nsidc_poll always_pending status_url (Some ''failed'') None fresh_world =
     Some (Inr (Some ''failed'', None), fresh_world)" by simp
  from a b thm2 have 2: "nsidc_poll completes_next status_url (Some ''processing'') None fresh_world =
     Some (Inr (Some ''complete'', Some (status_doc ''complete'')),
           \<lparr>trace = [Print [S ''Job status is '', T (Some ''processing''), S ''. Trying again.''],
                     Sleep 10, UrlOpen status_url],
            calls = 1, outputs = None, cwd = (\<lambda>_. None)\<rparr>)" by simp
  from c thm3 have 3: "harmony_poll always_running job_url (job_doc ''failed'' 40 []) fresh_world =
     Some (Inr (job_doc ''failed'' 40 []), fresh_world)" by simp
  from c d thm4
  have 4: "harmony_poll finishes_next job_url (job_doc ''running'' 40 []) fresh_world =
     Some (Inr (job_doc ''running'' 100 []),
           \<lparr>trace = [Print [S ''Job status is running. Progress is '', J (JNum 40),
                            S ''%. Trying again.''],
                     Sleep 10, UrlOpen job_url],
            calls = 1, outputs = None, cwd = (\<lambda>_. None)\<rparr>)" by simp
  let ?n = "nsidc_service [''complete''] granules"
  let ?s = "nsidc_submit ?n api_request (ensure_outputs fresh_world)"
  have e: "?s = (Inr (''ORD1'', status_url, Some ''complete''), snd ?s)"
    by (simp add: nsidc_defs example_defs nsidc_service_def status_url_def)
  from a polling_stops_at_terminal_status[where net = ?n and w = "snd ?s"
      and status = "Some ''complete''" and url = status_url and loop_root = None, THEN conjunct1]
  have f: "nsidc_poll ?n status_url (Some ''complete'') None (snd ?s) =
    Some (Inr (Some ''complete'', None), snd ?s)" by simp
  from thm5[of "snd ?s" "snd ?s"] e f
  have 5: "request_nsidc_data ?n api_request fresh_world =
          Some (nsidc_finish ?n ''ORD1'' (Some ''complete'') None (snd ?s))" by simp
  let ?w1 = "\<lparr>trace = [HttpGet cmr_collections_url], calls = 1, outputs = None, cwd = (\<lambda>_. None)\<rparr>"
  let ?h = "harmony_submit some_python harmony_service derived_params ?w1"
  let ?p = "harmony_poll_once harmony_service job_url (job_doc ''running'' 40 []) (snd ?h)"
  have g: "?h = (Inr (job_url, job_doc ''running'' 40 []), snd ?h)"
    using harmony_example_submit(1) by (metis prod.collapse)
  have h: "?p = (Inr (job_doc ''running'' 100 job_links), snd ?p)"
    using harmony_example_submit(2)
    by (simp add: harmony_poll_once_def andthen_def urlopen_def emit_def json_loads_def
        py_getitem_def job_doc_def harmony_service_def job_url_def)
  from c h polling_stops_at_terminal_status[where url = job_url and net = harmony_service
      and w = "snd ?h" and job = "job_doc ''running'' 100 job_links" and w' = "snd ?p"
      and prev_job = "job_doc ''running'' 40 []" and st = "JStr ''running''",
      THEN conjunct2, THEN conjunct2, THEN conjunct2,
      THEN conjunct1]
  have i: "harmony_poll harmony_service job_url (job_doc ''running'' 40 []) (snd ?h) =
     Some (Inr (job_doc ''running'' 100 job_links), snd ?p)" by simp
  from thm6[of "()" ?w1 "snd ?h" "snd ?p"] harmony_example_prepare g i
  have 6: "request_harmony_data some_python harmony_service search_params (JStr ''token'')
            fresh_world =
          Some (fst (harmony_results harmony_service (job_doc ''running'' 100 job_links) (snd ?p)),
                derived_params,
                snd (harmony_results harmony_service (job_doc ''running'' 100 job_links) (snd ?p)))"
    by simp
  from 1 2 3 4 5 6 show ?thesis by blast
qed

subsection \<open>The caller's search parameters\<close>

lemma search_granules_params:
  "fst (snd (search_granules py net sp token geojson output_format w)) = sp(''token'' \<mapsto> token)"
  by (simp add: search_granules_def Let_def split: sum.splits prod.splits)

lemma harmony_derive_frame:
  assumes "harmony_derive cmr sp = (r, sp')"
    and "k \<noteq> ''collection_id''" "k \<noteq> ''lat''" "k \<noteq> ''lon''" "k \<noteq> ''time''"
  shows "sp' k = sp k"
  using assms
  by (auto simp: harmony_derive_def andthen_def seq_def params_get_def py_split_def item_def
      split: sum.splits option.splits json.splits if_splits)

lemma request_harmony_data_params:
  assumes "request_harmony_data py net sp token w = Some (r, sp', w')"
  shows "(sp' = sp \<and> (\<forall>u. r \<noteq> Inr u))
       \<or> (\<exists>cmr r0. harmony_derive cmr sp = (r0, sp') \<and> ((\<exists>u. r = Inr u) \<longrightarrow> (\<exists>u. r0 = Inr u)))"
  using assms
  by (auto simp: request_harmony_data_def harmony_prepare_def
      split: sum.splits prod.splits option.splits)

lemma harmony_derive_stores:
  assumes "py_getitem cmr ''feed'' = Inr feed" and "py_getitem feed ''entry'' = Inr (JArr entries)"
    and "collect (\<lambda>el. py_getitem el ''id'') entries = Inr (cid # cids)"
    and "harmony_derive cmr sp = (r0, sp')"
  shows "sp' ''collection_id'' = Some cid"
    and "sp ''bounding_box'' = Some (JStr b) \<Longrightarrow> 3 < length (split_on CHR '','' b) \<Longrightarrow>
           sp' ''lat'' = Some (JStr (''('' @ split_on CHR '','' b ! 1 @ '':'' @ split_on CHR '','' b ! 3 @ '')''))
         \<and> sp' ''lon'' = Some (JStr (''('' @ split_on CHR '','' b ! 0 @ '':'' @ split_on CHR '','' b ! 2 @ '')''))"
    and "sp ''bounding_box'' = Some (JStr b) \<Longrightarrow> 3 < length (split_on CHR '','' b) \<Longrightarrow>
         sp ''temporal'' = Some (JStr t) \<Longrightarrow> 1 < length (split_on CHR '','' t) \<Longrightarrow>
           r0 = Inr () \<and>
           sp' ''time'' = Some (JStr (''('' @ [dq] @ split_on CHR '','' t ! 0 @ [dq] @ '':'' @ [dq]
                                    @ split_on CHR '','' t ! 1 @ [dq] @ '')''))"
    and "sp ''bounding_box'' = Some (JStr b) \<Longrightarrow> 3 < length (split_on CHR '','' b) \<Longrightarrow>
         \<not> (\<exists>t. sp ''temporal'' = Some (JStr t) \<and> 1 < length (split_on CHR '','' t)) \<Longrightarrow>
           (\<exists>e. r0 = Inl e) \<and> sp' ''time'' = sp ''time''"
    and "\<not> (\<exists>b. sp ''bounding_box'' = Some (JStr b) \<and> 3 < length (split_on CHR '','' b)) \<Longrightarrow>
           (\<exists>e. r0 = Inl e) \<and> sp' ''lat'' = sp ''lat'' \<and> sp' ''lon'' = sp ''lon''
           \<and> sp' ''time'' = sp ''time''"
proof -
  let ?sp1 = "sp(''collection_id'' \<mapsto> cid)"
  have d: "harmony_derive cmr sp =
     andthen (seq (params_get ?sp1 ''bounding_box'') (\<lambda>b. py_split b CHR '',''), ?sp1) (\<lambda>bb sp.
     andthen (item bb 1, sp) (\<lambda>south sp.
     andthen (item bb 3, sp) (\<lambda>north sp.
     andthen (seq (params_get (sp(''lat'' \<mapsto> JStr (''('' @ south @ '':'' @ north @ '')'')))
                     ''bounding_box'') (\<lambda>b. py_split b CHR '',''),
              sp(''lat'' \<mapsto> JStr (''('' @ south @ '':'' @ north @ '')''))) (\<lambda>bb sp.
     andthen (item bb 0, sp) (\<lambda>west sp.
     andthen (item bb 2, sp) (\<lambda>east sp.
     andthen (seq (params_get (sp(''lon'' \<mapsto> JStr (''('' @ west @ '':'' @ east @ '')'')))
                     ''temporal'') (\<lambda>t. py_split t CHR '',''),
              sp(''lon'' \<mapsto> JStr (''('' @ west @ '':'' @ east @ '')''))) (\<lambda>tt sp.
     andthen (item tt 0, sp) (\<lambda>t1 sp.
     andthen (item tt 1, sp) (\<lambda>t2 sp.
       (Inr (), sp(''time'' \<mapsto>
          JStr (''('' @ [dq] @ t1 @ [dq] @ '':'' @ [dq] @ t2 @ [dq] @ '')''))))))))))))"
    using assms(1,2,3)
    by (simp add: harmony_derive_def andthen_def seq_def py_iter_def first_def)
  from assms(4) show "sp' ''collection_id'' = Some cid"
    unfolding d
    by (auto simp: andthen_def seq_def params_get_def py_split_def item_def
        split: sum.splits option.splits json.splits if_splits)
  from assms(4) show "sp ''bounding_box'' = Some (JStr b) \<Longrightarrow> 3 < length (split_on CHR '','' b) \<Longrightarrow>
           sp' ''lat'' = Some (JStr (''('' @ split_on CHR '','' b ! 1 @ '':'' @ split_on CHR '','' b ! 3 @ '')''))
         \<and> sp' ''lon'' = Some (JStr (''('' @ split_on CHR '','' b ! 0 @ '':'' @ split_on CHR '','' b ! 2 @ '')''))"
    unfolding d
    by (auto simp: andthen_def seq_def params_get_def py_split_def item_def
        split: sum.splits option.splits json.splits if_splits)
  from assms(4) show "sp ''bounding_box'' = Some (JStr b) \<Longrightarrow> 3 < length (split_on CHR '','' b) \<Longrightarrow>
         sp ''temporal'' = Some (JStr t) \<Longrightarrow> 1 < length (split_on CHR '','' t) \<Longrightarrow>
           r0 = Inr () \<and>
           sp' ''time'' = Some (JStr (''('' @ [dq] @ split_on CHR '','' t ! 0 @ [dq] @ '':'' @ [dq]
                                    @ split_on CHR '','' t ! 1 @ [dq] @ '')''))"
    unfolding d
    by (auto simp: andthen_def seq_def params_get_def py_split_def item_def
        split: sum.splits option.splits json.splits if_splits)
  from assms(4) show "sp ''bounding_box'' = Some (JStr b) \<Longrightarrow> 3 < length (split_on CHR '','' b) \<Longrightarrow>
         \<not> (\<exists>t. sp ''temporal'' = Some (JStr t) \<and> 1 < length (split_on CHR '','' t)) \<Longrightarrow>
           (\<exists>e. r0 = Inl e) \<and> sp' ''time'' = sp ''time''"
    unfolding d
    by (auto simp: andthen_def seq_def params_get_def py_split_def item_def
        split: sum.splits option.splits json.splits if_splits)
  from assms(4) show "\<not> (\<exists>b. sp ''bounding_box'' = Some (JStr b) \<and> 3 < length (split_on CHR '','' b)) \<Longrightarrow>
           (\<exists>e. r0 = Inl e) \<and> sp' ''lat'' = sp ''lat'' \<and> sp' ''lon'' = sp ''lon''
           \<and> sp' ''time'' = sp ''time''"
    unfolding d
    by (auto simp: andthen_def seq_def params_get_def py_split_def item_def
        split: sum.splits option.splits json.splits if_splits)
qed

lemma request_harmony_data_derives:
  assumes "net (calls w) cmr_collections_url = Reply code hdrs (JsonDoc cmr)"
    and "request_harmony_data py net sp token w = Some (r, sp', w')"
  shows "\<exists>r0. harmony_derive cmr sp = (r0, sp') \<and> ((\<exists>e. r0 = Inl e) \<longrightarrow> (\<exists>e. r = Inl e))"
  using assms
  by (auto simp: request_harmony_data_def harmony_prepare_def requests_get_def json_loads_def Let_def
      split: sum.splits prod.splits option.splits)

lemma request_harmony_data_unreachable:
  "net (calls w) cmr_collections_url = NoReply \<Longrightarrow>
     request_harmony_data py net sp token w =
       Some (Inl RequestsConnectionError, sp,
             w\<lparr>trace := trace w @ [HttpGet cmr_collections_url], calls := Suc (calls w)\<rparr>)"
  by (simp add: request_harmony_data_def harmony_prepare_def requests_get_def emit_def Let_def)

text \<open>
  C9. \<^verbatim>\<open>search_granules\<close> hands the dictionary back with the key \<^verbatim>\<open>token\<close> set to the
  token and every other key as it was, however the call ends. \<^verbatim>\<open>request_harmony_data\<close>
  changes no key but \<^verbatim>\<open>collection_id\<close>, \<^verbatim>\<open>lat\<close>, \<^verbatim>\<open>lon\<close> and \<^verbatim>\<open>time\<close>, however it ends, and
  none when CMR cannot be reached. When CMR replies with a list of collections, the
  dictionary holds the first identifier of the list under \<^verbatim>\<open>collection_id\<close> from then
  on; when, moreover, the bounding box is a string with four parts, it holds \<^verbatim>\<open>lat\<close> and
  \<^verbatim>\<open>lon\<close>, made of these parts, and otherwise the call raises and \<^verbatim>\<open>lat\<close>, \<^verbatim>\<open>lon\<close> and
  \<^verbatim>\<open>time\<close> are as before; when, moreover, the temporal range is a string with two parts,
  it holds \<^verbatim>\<open>time\<close>, made of these parts, and otherwise the call raises and \<^verbatim>\<open>time\<close> is as
  before. All of this holds whatever happens after the keys are stored: the request to
  Harmony, the loop and the downloads may fail, and the keys stay.
\<close>

theorem search_parameters_changed_in_place:
  "fst (snd (search_granules py net sp token geojson output_format w)) = sp(''token'' \<mapsto> token)
   \<and> (request_harmony_data py net sp token w = Some (r, sp', w')
        \<and> k \<noteq> ''collection_id'' \<and> k \<noteq> ''lat'' \<and> k \<noteq> ''lon'' \<and> k \<noteq> ''time'' \<longrightarrow>
        sp' k = sp k)
   \<and> (net (calls w) cmr_collections_url = NoReply \<longrightarrow>
        request_harmony_data py net sp token w =
          Some (Inl RequestsConnectionError, sp,
                w\<lparr>trace := trace w @ [HttpGet cmr_collections_url], calls := Suc (calls w)\<rparr>))
   \<and> (net (calls w) cmr_collections_url = Reply code hdrs (JsonDoc cmr)
        \<and> py_getitem cmr ''feed'' = Inr feed \<and> py_getitem feed ''entry'' = Inr (JArr entries)
        \<and> collect (\<lambda>el. py_getitem el ''id'') entries = Inr (cid # cids)
        \<and> request_harmony_data py net sp token w = Some (r, sp', w') \<longrightarrow>
        sp' ''collection_id'' = Some cid
        \<and> (sp ''bounding_box'' = Some (JStr b) \<and> 3 < length (split_on CHR '','' b) \<longrightarrow>
             sp' ''lat'' =
               Some (JStr (''('' @ split_on CHR '','' b ! 1 @ '':'' @ split_on CHR '','' b ! 3 @ '')''))
             \<and> sp' ''lon'' =
               Some (JStr (''('' @ split_on CHR '','' b ! 0 @ '':'' @ split_on CHR '','' b ! 2 @ '')''))
             \<and> (sp ''temporal'' = Some (JStr t) \<and> 1 < length (split_on CHR '','' t) \<longrightarrow>
                  sp' ''time'' =
                    Some (JStr (''('' @ [dq] @ split_on CHR '','' t ! 0 @ [dq] @ '':'' @ [dq]
                                @ split_on CHR '','' t ! 1 @ [dq] @ '')'')))
             \<and> (\<not> (\<exists>x. sp ''temporal'' = Some (JStr x) \<and> 1 < length (split_on CHR '','' x)) \<longrightarrow>
                  (\<exists>e. r = Inl e) \<and> sp' ''time'' = sp ''time''))
        \<and> (\<not> (\<exists>x. sp ''bounding_box'' = Some (JStr x) \<and> 3 < length (split_on CHR '','' x)) \<longrightarrow>
             (\<exists>e. r = Inl e) \<and> sp' ''lat'' = sp ''lat'' \<and> sp' ''lon'' = sp ''lon''
             \<and> sp' ''time'' = sp ''time''))"
proof (intro conjI impI)
  show "fst (snd (search_granules py net sp token geojson output_format w)) = sp(''token'' \<mapsto> token)"
    by (rule search_granules_params)
next
  assume a: "request_harmony_data py net sp token w = Some (r, sp', w')
        \<and> k \<noteq> ''collection_id'' \<and> k \<noteq> ''lat'' \<and> k \<noteq> ''lon'' \<and> k \<noteq> ''time''"
  with request_harmony_data_params[of py net sp token w r sp' w'] harmony_derive_frame[of _ sp _ sp' k]
  show "sp' k = sp k" by blast
next
  assume "net (calls w) cmr_collections_url = NoReply"
  then show "request_harmony_data py net sp token w =
          Some (Inl RequestsConnectionError, sp,
                w\<lparr>trace := trace w @ [HttpGet cmr_collections_url], calls := Suc (calls w)\<rparr>)"
    by (rule request_harmony_data_unreachable)
next
  assume a: "net (calls w) cmr_collections_url = Reply code hdrs (JsonDoc cmr)
        \<and> py_getitem cmr ''feed'' = Inr feed \<and> py_getitem feed ''entry'' = Inr (JArr entries)
        \<and> collect (\<lambda>el. py_getitem el ''id'') entries = Inr (cid # cids)
        \<and> request_harmony_data py net sp token w = Some (r, sp', w')"
  then obtain r0 where d: "harmony_derive cmr sp = (r0, sp')"
    and e: "(\<exists>e. r0 = Inl e) \<longrightarrow> (\<exists>e. r = Inl e)"
    using request_harmony_data_derives[of net w code hdrs cmr py sp token r sp' w'] by blast
  from a have h: "py_getitem cmr ''feed'' = Inr feed" "py_getitem feed ''entry'' = Inr (JArr entries)"
    "collect (\<lambda>el. py_getitem el ''id'') entries = Inr (cid # cids)" by blast+
  note st = harmony_derive_stores[OF h d]
  show "sp' ''collection_id'' = Some cid" by (rule st(1))
  {
    assume bb: "sp ''bounding_box'' = Some (JStr b) \<and> 3 < length (split_on CHR '','' b)"
    then show "sp' ''lat'' =
               Some (JStr (''('' @ split_on CHR '','' b ! 1 @ '':'' @ split_on CHR '','' b ! 3 @ '')''))"
      and "sp' ''lon'' =
               Some (JStr (''('' @ split_on CHR '','' b ! 0 @ '':'' @ split_on CHR '','' b ! 2 @ '')''))"
      using st(2)[of b] by blast+
    {
      assume "sp ''temporal'' = Some (JStr t) \<and> 1 < length (split_on CHR '','' t)"
      with bb show "sp' ''time'' =
                    Some (JStr (''('' @ [dq] @ split_on CHR '','' t ! 0 @ [dq] @ '':'' @ [dq]
                                @ split_on CHR '','' t ! 1 @ [dq] @ '')''))"
        using st(3)[of b t] by blast
    }
    assume "\<not> (\<exists>x. sp ''temporal'' = Some (JStr x) \<and> 1 < length (split_on CHR '','' x))"
    with bb have "(\<exists>e. r0 = Inl e) \<and> sp' ''time'' = sp ''time''" using st(4)[of b] by blast
    with e show "\<exists>e. r = Inl e" and "sp' ''time'' = sp ''time''" by blast+
  }
  assume "\<not> (\<exists>x. sp ''bounding_box'' = Some (JStr x) \<and> 3 < length (split_on CHR '','' x))"
  then have "(\<exists>e. r0 = Inl e) \<and> sp' ''lat'' = sp ''lat'' \<and> sp' ''lon'' = sp ''lon''
           \<and> sp' ''time'' = sp ''time''" by (rule st(5))
  with e show "\<exists>e. r = Inl e" and "sp' ''lat'' = sp ''lat''" and "sp' ''lon'' = sp ''lon''"
    and "sp' ''time'' = sp ''time''" by blast+
qed

lemma harmony_example_submitted:
  "harmony_submit some_python harmony_service derived_params after_prepare =
     (Inr (job_url, job_doc ''running'' 40 []), after_submit)"
  "calls after_submit = 3"
  "cwd after_submit = (\<lambda>_. None)"
  using harmony_example_submit
  by (simp_all add: after_submit_def after_prepare_def prod_eq_iff)

lemma harmony_example_polled:
  "harmony_poll_once harmony_service job_url (job_doc ''running'' 40 []) after_submit =
     (Inr (job_doc ''running'' 100 job_links), after_poll)"
  "calls after_poll = 4"
  "cwd after_poll = (\<lambda>_. None)"
  using harmony_example_submitted(2,3)
  by (simp_all add: after_poll_def harmony_poll_once_def andthen_def urlopen_def emit_def
        json_loads_def py_getitem_def job_doc_def harmony_service_def job_url_def)

lemma harmony_example_loop:
  "harmony_poll harmony_service job_url (job_doc ''running'' 40 []) after_submit =
     Some (Inr (job_doc ''running'' 100 job_links), after_poll)"
proof -
  have "harmony_running (job_doc ''running'' 40 []) = Inr True"
    "harmony_running (job_doc ''running'' 100 job_links) = Inr False"
    by (simp_all add: harmony_running_def seq_def py_getitem_def job_doc_def less_than_100_def)
  then show ?thesis
    by (subst harmony_poll.simps, simp add: harmony_example_polled, subst harmony_poll.simps) simp
qed

lemma harmony_example_results:
  "fst (harmony_results harmony_service (job_doc ''running'' 100 job_links) after_poll) = Inr ()"
  using harmony_example_polled(2,3)
  by (simp add: harmony_defs job_doc_def job_links_def harmony_service_def)

lemma harmony_example_run:
  "\<exists>w. request_harmony_data some_python harmony_service search_params (JStr ''token'') fresh_world =
     Some (Inr (), derived_params, w)"
proof -
  have 1: "harmony_prepare harmony_service search_params fresh_world =
     (Inr (), derived_params, after_prepare)"
    using harmony_example_prepare by (simp add: after_prepare_def)
  obtain w where 2:
    "harmony_results harmony_service (job_doc ''running'' 100 job_links) after_poll = (Inr (), w)"
    using harmony_example_results by (metis prod.collapse)
  show ?thesis
    by (simp add: request_harmony_data_def 1 harmony_example_submitted(1) harmony_example_loop 2)
qed

lemma refused_run:
  "map_option fst (request_harmony_data some_python harmony_refuses search_params (JStr ''token'')
       fresh_world) = Some (Inl HTTPError)"
  "map_option fst (request_harmony_data some_python harmony_service
       (search_params(''temporal'' := None)) (JStr ''token'') fresh_world) = Some (Inl KeyError)"
  by (simp_all add: request_harmony_data_def harmony_run_defs harmony_defs harmony_refuses_def
      harmony_service_def search_params_def cmr_doc_def fresh_world_def)

theorem search_parameters_changed_in_place_witness:
  "fst (snd (search_granules some_python cmr_down search_params (JStr ''token'') None ''json''
       fresh_world)) = search_params(''token'' \<mapsto> JStr ''token'')
   \<and> map_option fst (request_harmony_data some_python harmony_refuses search_params (JStr ''token'')
       fresh_world) = Some (Inl HTTPError)
   \<and> map_option (fst \<circ> snd) (request_harmony_data some_python harmony_refuses search_params
       (JStr ''token'') fresh_world) =
     Some (search_params
       (''collection_id'' \<mapsto> JStr ''C1-NSIDC'',
        ''lat'' \<mapsto> JStr ''(60:70)'',
        ''lon'' \<mapsto> JStr ''(-50:-40)'',
        ''time'' \<mapsto> JStr (''('' @ [dq] @ ''2019-06-22T00:00:00Z'' @ [dq] @ '':'' @ [dq]
                           @ ''2019-06-22T23:59:59Z'' @ [dq] @ '')'')))
   \<and> map_option fst (request_harmony_data some_python harmony_service
       (search_params(''temporal'' := None)) (JStr ''token'') fresh_world) = Some (Inl KeyError)
   \<and> map_option (fst \<circ> snd) (request_harmony_data some_python harmony_service
       (search_params(''temporal'' := None)) (JStr ''token'') fresh_world) =
     Some ((search_params(''temporal'' := None))
       (''collection_id'' \<mapsto> JStr ''C1-NSIDC'',
        ''lat'' \<mapsto> JStr ''(60:70)'',
        ''lon'' \<mapsto> JStr ''(-50:-40)''))
   \<and> request_harmony_data some_python cmr_down search_params (JStr ''token'') fresh_world =
     Some (Inl RequestsConnectionError, search_params,
           \<lparr>trace = [HttpGet cmr_collections_url], calls = 1, outputs = None, cwd = (\<lambda>_. None)\<rparr>)
   \<and> map_option fst (request_harmony_data some_python harmony_service search_params (JStr ''token'')
       fresh_world) = Some (Inr ())
   \<and> map_option (fst \<circ> snd) (request_harmony_data some_python harmony_service search_params
       (JStr ''token'') fresh_world) =
     Some (search_params
       (''collection_id'' \<mapsto> JStr ''C1-NSIDC'',
        ''lat'' \<mapsto> JStr ''(60:70)'',
        ''lon'' \<mapsto> JStr ''(-50:-40)'',
        ''time'' \<mapsto> JStr (''('' @ [dq] @ ''2019-06-22T00:00:00Z'' @ [dq] @ '':'' @ [dq]
                           @ ''2019-06-22T23:59:59Z'' @ [dq] @ '')'')))"
proof -
  let ?sp0 = "search_params(''temporal'' := None)"
  let ?R = "request_harmony_data some_python harmony_refuses search_params (JStr ''token'') fresh_world"
  let ?Q = "request_harmony_data some_python harmony_service ?sp0 (JStr ''token'') fresh_world"
  have cmr: "py_getitem cmr_doc ''feed'' = Inr (JObj [(''entry'', JArr [JObj [(''id'', JStr ''C1-NSIDC'')]])])"
    "py_getitem (JObj [(''entry'', JArr [JObj [(''id'', JStr ''C1-NSIDC'')]])]) ''entry'' =
       Inr (JArr [JObj [(''id'', JStr ''C1-NSIDC'')]])"
    "collect (\<lambda>el. py_getitem el ''id'') [JObj [(''id'', JStr ''C1-NSIDC'')]] = Inr (JStr ''C1-NSIDC'' # [])"
    by (simp_all add: cmr_doc_def py_getitem_def)
  have net: "harmony_refuses (calls fresh_world) cmr_collections_url = Reply 200 [] (JsonDoc cmr_doc)"
    "harmony_service (calls fresh_world) cmr_collections_url = Reply 200 [] (JsonDoc cmr_doc)"
    "cmr_down (calls fresh_world) cmr_collections_url = NoReply"
    by (simp_all add: harmony_refuses_def harmony_service_def cmr_down_def fresh_world_def)
  have sp: "search_params ''bounding_box'' = Some (JStr ''-50,60,-40,70'')"
    "search_params ''temporal'' = Some (JStr ''2019-06-22T00:00:00Z,2019-06-22T23:59:59Z'')"
    "?sp0 ''bounding_box'' = Some (JStr ''-50,60,-40,70'')"
    "\<not> (\<exists>x. ?sp0 ''temporal'' = Some (JStr x) \<and> 1 < length (split_on CHR '','' x))"
    "3 < length (split_on CHR '','' ''-50,60,-40,70'')"
    "1 < length (split_on CHR '','' ''2019-06-22T00:00:00Z,2019-06-22T23:59:59Z'')"
    by (simp_all add: search_params_def)
  from refused_run(1) obtain x where x: "?R = Some x" by auto
  from refused_run(2) obtain y where y: "?Q = Some y" by auto
  have xe: "?R = Some (fst x, fst (snd x), snd (snd x))" using x by simp
  have ye: "?Q = Some (fst y, fst (snd y), snd (snd y))" using y by simp
  note tx = search_parameters_changed_in_place[where py = some_python and net = harmony_refuses
      and sp = search_params and token = "JStr ''token''" and w = fresh_world
      and r = "fst x" and sp' = "fst (snd x)" and w' = "snd (snd x)"
      and code = 200 and hdrs = "[]" and cmr = cmr_doc
      and feed = "JObj [(''entry'', JArr [JObj [(''id'', JStr ''C1-NSIDC'')]])]"
      and entries = "[JObj [(''id'', JStr ''C1-NSIDC'')]]" and cid = "JStr ''C1-NSIDC''" and cids = "[]"
      and b = "''-50,60,-40,70''" and t = "''2019-06-22T00:00:00Z,2019-06-22T23:59:59Z''"
      and geojson = None and output_format = "''json''"]
  note ty = search_parameters_changed_in_place[where py = some_python and net = harmony_service
      and sp = ?sp0 and token = "JStr ''token''" and w = fresh_world
      and r = "fst y" and sp' = "fst (snd y)" and w' = "snd (snd y)"
      and code = 200 and hdrs = "[]" and cmr = cmr_doc
      and feed = "JObj [(''entry'', JArr [JObj [(''id'', JStr ''C1-NSIDC'')]])]"
      and entries = "[JObj [(''id'', JStr ''C1-NSIDC'')]]" and cid = "JStr ''C1-NSIDC''" and cids = "[]"
      and b = "''-50,60,-40,70''"]
  note td = search_parameters_changed_in_place[where py = some_python and net = cmr_down
      and sp = search_params and token = "JStr ''token''" and w = fresh_world,
      THEN conjunct2, THEN conjunct2, THEN conjunct1]
  have 1: "fst (snd (search_granules some_python cmr_down search_params (JStr ''token'') None
       ''json'' fresh_world)) = search_params(''token'' \<mapsto> JStr ''token'')"
    using search_parameters_changed_in_place[where py = some_python and net = cmr_down
      and sp = search_params and token = "JStr ''token''" and w = fresh_world
      and geojson = None and output_format = "''json''", THEN conjunct1] .
  have 2: "fst (snd x) = search_params
       (''collection_id'' \<mapsto> JStr ''C1-NSIDC'',
        ''lat'' \<mapsto> JStr ''(60:70)'',
        ''lon'' \<mapsto> JStr ''(-50:-40)'',
        ''time'' \<mapsto> JStr (''('' @ [dq] @ ''2019-06-22T00:00:00Z'' @ [dq] @ '':'' @ [dq]
                           @ ''2019-06-22T23:59:59Z'' @ [dq] @ '')''))"
  proof
    fix k
    from tx[THEN conjunct2, THEN conjunct2, THEN conjunct2] net(1) cmr xe sp
    have s: "fst (snd x) ''collection_id'' = Some (JStr ''C1-NSIDC'')"
      "fst (snd x) ''lat'' = Some (JStr ''(60:70)'')"
      "fst (snd x) ''lon'' = Some (JStr ''(-50:-40)'')"
      "fst (snd x) ''time'' = Some (JStr (''('' @ [dq] @ ''2019-06-22T00:00:00Z'' @ [dq] @ '':'' @ [dq]
                           @ ''2019-06-22T23:59:59Z'' @ [dq] @ '')''))"
      by simp_all
    have f: "fst (snd x) k = search_params k"
      if "k \<noteq> ''collection_id''" "k \<noteq> ''lat''" "k \<noteq> ''lon''" "k \<noteq> ''time''"
      using tx[where k = k, THEN conjunct2, THEN conjunct1] xe that by blast
    show "fst (snd x) k = (search_params
       (''collection_id'' \<mapsto> JStr ''C1-NSIDC'',
        ''lat'' \<mapsto> JStr ''(60:70)'',
        ''lon'' \<mapsto> JStr ''(-50:-40)'',
        ''time'' \<mapsto> JStr (''('' @ [dq] @ ''2019-06-22T00:00:00Z'' @ [dq] @ '':'' @ [dq]
                           @ ''2019-06-22T23:59:59Z'' @ [dq] @ '')''))) k"
      using s f by (cases "k = ''collection_id'' \<or> k = ''lat'' \<or> k = ''lon'' \<or> k = ''time''") auto
  qed
  have 3: "fst (snd y) = ?sp0
       (''collection_id'' \<mapsto> JStr ''C1-NSIDC'',
        ''lat'' \<mapsto> JStr ''(60:70)'',
        ''lon'' \<mapsto> JStr ''(-50:-40)'')"
  proof
    fix k
    from ty[THEN conjunct2, THEN conjunct2, THEN conjunct2] net(2) cmr ye sp
    have s: "fst (snd y) ''collection_id'' = Some (JStr ''C1-NSIDC'')"
      "fst (snd y) ''lat'' = Some (JStr ''(60:70)'')"
      "fst (snd y) ''lon'' = Some (JStr ''(-50:-40)'')"
      "fst (snd y) ''time'' = ?sp0 ''time''"
      by simp_all
    have f: "fst (snd y) k = ?sp0 k"
      if "k \<noteq> ''collection_id''" "k \<noteq> ''lat''" "k \<noteq> ''lon''" "k \<noteq> ''time''"
      using ty[where k = k, THEN conjunct2, THEN conjunct1] ye that by blast
    show "fst (snd y) k = (?sp0
       (''collection_id'' \<mapsto> JStr ''C1-NSIDC'',
        ''lat'' \<mapsto> JStr ''(60:70)'',
        ''lon'' \<mapsto> JStr ''(-50:-40)'')) k"
      using s f by (cases "k = ''collection_id'' \<or> k = ''lat'' \<or> k = ''lon'' \<or> k = ''time''") auto
  qed
  have 4: "request_harmony_data some_python cmr_down search_params (JStr ''token'') fresh_world =
     Some (Inl RequestsConnectionError, search_params,
           \<lparr>trace = [HttpGet cmr_collections_url], calls = 1, outputs = None, cwd = (\<lambda>_. None)\<rparr>)"
    using td net(3) by (simp add: fresh_world_def)
  from x 2 have 5: "map_option (fst \<circ> snd) ?R = Some (search_params
       (''collection_id'' \<mapsto> JStr ''C1-NSIDC'',
        ''lat'' \<mapsto> JStr ''(60:70)'',
        ''lon'' \<mapsto> JStr ''(-50:-40)'',
        ''time'' \<mapsto> JStr (''('' @ [dq] @ ''2019-06-22T00:00:00Z'' @ [dq] @ '':'' @ [dq]
                           @ ''2019-06-22T23:59:59Z'' @ [dq] @ '')'')))" by simp
  from y 3 have 6: "map_option (fst \<circ> snd) ?Q = Some (?sp0
       (''collection_id'' \<mapsto> JStr ''C1-NSIDC'',
        ''lat'' \<mapsto> JStr ''(60:70)'',
        ''lon'' \<mapsto> JStr ''(-50:-40)''))" by simp
  from harmony_example_run have 7:
    "map_option fst (request_harmony_data some_python harmony_service search_params (JStr ''token'')
       fresh_world) = Some (Inr ())"
    "map_option (fst \<circ> snd) (request_harmony_data some_python harmony_service search_params
       (JStr ''token'') fresh_world) =
     Some (search_params
       (''collection_id'' \<mapsto> JStr ''C1-NSIDC'',
        ''lat'' \<mapsto> JStr ''(60:70)'',
        ''lon'' \<mapsto> JStr ''(-50:-40)'',
        ''time'' \<mapsto> JStr (''('' @ [dq] @ ''2019-06-22T00:00:00Z'' @ [dq] @ '':'' @ [dq]
                           @ ''2019-06-22T23:59:59Z'' @ [dq] @ '')'')))"
    by (auto simp: derived_params_def)
  from 1 refused_run 4 5 6 7 show ?thesis by blast
qed

subsection \<open>A CMR search that fails\<close>

lemmas cmr_defs = search_granules_def search_services_def open_geojson_def cmr_try_def
  requests_post_def raise_for_status_def cmr_except_def name_bound_def module_globals_def
  builtin_names_def emit_def granules_url_def collections_url_def Let_def

lemma cmr_try_failure:
  assumes "net (calls w) url = NoReply
           \<or> (\<exists>code hdrs b. net (calls w) url = Reply code hdrs b \<and> 400 \<le> code \<and> code < 600)"
  shows "cmr_try net url w =
           (Inl (NameError ''HTTPError''), w\<lparr>trace := trace w @ [HttpPost url], calls := Suc (calls w)\<rparr>)"
  using assms
  by (auto simp: cmr_try_def requests_post_def raise_for_status_def cmr_except_def name_bound_def
      module_globals_def builtin_names_def emit_def Let_def)

text \<open>
  C7. The claim: when the HTTP request of a CMR search fails, by a network error or by a
  status that is not 2xx, a message is printed and execution continues. In the code the
  first \<^verbatim>\<open>except\<close> clause names \<^verbatim>\<open>HTTPError\<close>, which the module never imports: whatever the
  \<^verbatim>\<open>try\<close> block raises, evaluating the clause raises \<^verbatim>\<open>NameError\<close>. Both search functions
  end with that exception, after the request and without a printed line, for an
  endpoint that cannot be reached as for one that answers 500.
\<close>

theorem failed_search_raises_name_error:
  "search_granules some_python cmr_down search_params (JStr ''token'') None ''json'' fresh_world =
     (Inl (NameError ''HTTPError''), search_params(''token'' \<mapsto> JStr ''token''),
      \<lparr>trace = [HttpPost ''https://cmr.earthdata.nasa.gov/search/granules.json''],
       calls = 1, outputs = None, cwd = (\<lambda>_. None)\<rparr>)
   \<and> search_granules some_python cmr_error search_params (JStr ''token'') None ''json'' fresh_world =
     (Inl (NameError ''HTTPError''), search_params(''token'' \<mapsto> JStr ''token''),
      \<lparr>trace = [HttpPost ''https://cmr.earthdata.nasa.gov/search/granules.json''],
       calls = 1, outputs = None, cwd = (\<lambda>_. None)\<rparr>)
   \<and> search_services some_python cmr_down search_params (JStr ''token'') ''json'' fresh_world =
     (Inl (NameError ''HTTPError''), search_params(''token'' \<mapsto> JStr ''token''),
      \<lparr>trace = [HttpPost ''https://cmr.earthdata.nasa.gov/search/collections.json''],
       calls = 1, outputs = None, cwd = (\<lambda>_. None)\<rparr>)
   \<and> search_services some_python cmr_error search_params (JStr ''token'') ''json'' fresh_world =
     (Inl (NameError ''HTTPError''), search_params(''token'' \<mapsto> JStr ''token''),
      \<lparr>trace = [HttpPost ''https://cmr.earthdata.nasa.gov/search/collections.json''],
       calls = 1, outputs = None, cwd = (\<lambda>_. None)\<rparr>)"
  by (simp add: cmr_defs cmr_down_def cmr_error_def fresh_world_def)

subsection \<open>The clean-up of the output folder\<close>

lemma move_files_all:
  "distinct (map fst fs) \<Longrightarrow> set (map fst fs) \<inter> (set tdirs \<union> set (map fst flat)) = {} \<Longrightarrow>
     move_files tdirs flat fs = (flat @ fs, [])"
proof (induction fs arbitrary: flat)
  case Nil
  then show ?case by simp
next
  case (Cons f fs)
  obtain n c where f: "f = (n, c)" by (cases f)
  from Cons.prems f have 1: "n \<notin> set tdirs" "n \<notin> set (map fst flat)" by auto
  from Cons.prems f have 2: "distinct (map fst fs)"
    "set (map fst fs) \<inter> (set tdirs \<union> set (map fst (flat @ [(n, c)]))) = {}" by auto
  from Cons.IH[OF 2] 1 f show ?case by simp
qed

lemma move_files_none:
  "set (map fst fs) \<subseteq> set tdirs \<union> set (map fst flat) \<Longrightarrow> move_files tdirs flat fs = (flat, fs)"
proof (induction fs)
  case Nil
  then show ?case by simp
next
  case (Cons f fs)
  obtain n c where f: "f = (n, c)" by (cases f)
  from Cons.prems f have "n \<in> set tdirs \<or> n \<in> set (map fst flat)" by auto
  moreover from Cons have "move_files tdirs flat fs = (flat, fs)" by simp
  ultimately show ?case using f by simp
qed

lemma rmdirs_emptied: "rmdirs (emptied ds) = (None, [])"
  by (induction ds) (auto simp: emptied_def)

lemma walk_collects:
  "distinct (map fst (flat @ deep_files d)) \<Longrightarrow> set (map fst (deep_files d)) \<inter> set tdirs = {} \<Longrightarrow>
     walk_sub tdirs flat d = (None, flat @ deep_files d, Dir [] [])"
  "distinct (map fst (flat @ deep_files_list ds)) \<Longrightarrow>
   set (map fst (deep_files_list ds)) \<inter> set tdirs = {} \<Longrightarrow>
     walk_subs tdirs flat ds = (None, flat @ deep_files_list ds, emptied ds)"
proof (induction tdirs flat d and tdirs flat ds rule: walk_sub_walk_subs.induct)
  case (1 tdirs flat fs ds)
  from "1.prems" have a: "distinct (map fst (flat @ deep_files_list ds))"
    "set (map fst (deep_files_list ds)) \<inter> set tdirs = {}" by auto
  from "1.IH"[OF a] have w: "walk_subs tdirs flat ds = (None, flat @ deep_files_list ds, emptied ds)" .
  from "1.prems" have "distinct (map fst fs)"
    "set (map fst fs) \<inter> (set tdirs \<union> set (map fst (flat @ deep_files_list ds))) = {}" by auto
  from move_files_all[OF this] w show ?case by (simp add: rmdirs_emptied)
next
  case (2 tdirs flat)
  then show ?case by (simp add: emptied_def)
next
  case (3 tdirs flat n d ds)
  from "3.prems" have a: "distinct (map fst (flat @ deep_files d))"
    "set (map fst (deep_files d)) \<inter> set tdirs = {}" by auto
  from "3.IH"(1)[OF a] have w: "walk_sub tdirs flat d = (None, flat @ deep_files d, Dir [] [])" .
  from "3.prems" have b: "distinct (map fst ((flat @ deep_files d) @ deep_files_list ds))"
    "set (map fst (deep_files_list ds)) \<inter> set tdirs = {}" by auto
  have "walk_subs tdirs (flat @ deep_files d) ds =
      (None, (flat @ deep_files d) @ deep_files_list ds, emptied ds)"
    by (rule "3.IH"(2)[OF w[symmetric] _ _ b]) auto
  with w show ?case by (simp add: emptied_def)
qed

lemma flatten_collects:
  assumes "distinct (map fst (files d @ deep_files_list (subdirs d)))"
    and "set (map fst (deep_files_list (subdirs d))) \<inter> set (map fst (subdirs d)) = {}"
  shows "flatten d = (None, Dir (files d @ deep_files_list (subdirs d)) [])"
proof -
  from walk_collects(2)[OF assms]
  have w: "walk_subs (map fst (subdirs d)) (files d) (subdirs d) =
      (None, files d @ deep_files_list (subdirs d), emptied (subdirs d))" .
  have "move_files (map fst (emptied (subdirs d))) (files d @ deep_files_list (subdirs d)) (files d) =
      (files d @ deep_files_list (subdirs d), files d)"
    by (rule move_files_none) auto
  with w show ?thesis by (simp add: flatten_def rmdirs_emptied)
qed

lemma write_file_new: "n \<notin> set (map fst fs) \<Longrightarrow> write_file (n, c) fs = fs @ [(n, c)]"
  by (induction fs) auto

lemma write_files_new:
  "distinct (map fst (fs @ afs)) \<Longrightarrow> set (map fst afs) \<inter> set dnames = {} \<Longrightarrow>
     write_files dnames fs afs = (None, fs @ afs)"
proof (induction afs arbitrary: fs)
  case Nil
  then show ?case by simp
next
  case (Cons f afs)
  obtain n c where f: "f = (n, c)" by (cases f)
  from Cons.prems f have 1: "n \<notin> set dnames" "n \<notin> set (map fst fs)" by auto
  from Cons.prems f have 2: "distinct (map fst ((fs @ [(n, c)]) @ afs))"
    "set (map fst afs) \<inter> set dnames = {}" by auto
  from Cons.IH[OF 2] 1 f show ?case by (simp add: write_file_new)
qed

lemma put_dir_new: "n \<notin> set (map fst ds) \<Longrightarrow> put_dir n d ds = ds @ [(n, d)]"
  by (induction ds) auto

lemma get_dir_new: "n \<notin> set (map fst ds) \<Longrightarrow> get_dir n ds = Dir [] []"
  by (simp add: get_dir_def map_of_eq_None_iff[THEN iffD2] image_iff)

lemma extractall_fresh:
  "d = Dir [] [] \<Longrightarrow> wf_dir a \<Longrightarrow> extractall a d = (None, a)"
  "distinct (map fst (ds @ ads)) \<Longrightarrow> set (map fst ads) \<inter> set fnames = {} \<Longrightarrow> wf_dirs ads \<Longrightarrow>
     extract_subs fnames ads ds = (None, ds @ ads)"
proof (induction a d and fnames ads ds rule: extractall_extract_subs.induct)
  case (1 afs ads fs ds)
  from "1.prems" have e: "fs = []" "ds = []" by simp_all
  from "1.prems" have w: "write_files (map fst ds) fs afs = (None, afs)"
    using write_files_new[of "[]" afs "[]"] e by simp
  have "extract_subs (map fst afs) ads ds = (None, ds @ ads)"
    by (rule "1.IH"[OF w[symmetric] refl]) (use "1.prems" e in auto)
  with w e show ?case by simp
next
  case (2 fnames ds)
  then show ?case by simp
next
  case (3 fnames n a ads ds)
  from "3.prems" have n: "n \<notin> set fnames" "n \<notin> set (map fst ds)" by auto
  from "3.prems" have wa: "wf_dir a" by simp
  have x: "extractall a (get_dir n ds) = (None, a)"
    by (rule "3.IH"(1)[OF n(1) get_dir_new[OF n(2)] wa])
  have "extract_subs fnames ads (put_dir n a ds) = (None, put_dir n a ds @ ads)"
    by (rule "3.IH"(2)[OF n(1) x[symmetric] refl]) (use "3.prems" n in \<open>auto simp: put_dir_new\<close>)
  with x n show ?case by (simp add: put_dir_new)
qed

subsection \<open>An order that is complete at the first check\<close>

lemma nsidc_poll_done:
  "\<not> still_processing status \<Longrightarrow>
     nsidc_poll net url status loop_root w = Some (Inr (status, loop_root), w)"
  by (subst nsidc_poll.simps) simp

lemma has_scheme_urls [simp]: "has_scheme (base_url @ x)" "has_scheme (esir_url @ x)"
  by (simp_all add: base_url_def esir_url_def)

lemma nsidc_submit_ok:
  assumes "has_scheme api"
    and "net (calls w) api = Reply c0 h0 (XmlDoc order_root)" "200 \<le> c0" "c0 < 300"
    and "first (texts_under order_root ''order'') = Inr (Some oid)"
    and "net (Suc (calls w)) (base_url @ ''/'' @ oid) = Reply c1 h1 (XmlDoc status_root)"
      "200 \<le> c1" "c1 < 300"
    and "first (texts_under status_root ''requestStatus'') = Inr status"
  shows "nsidc_submit net api w =
    (Inr (oid, base_url @ ''/'' @ oid, status),
     w\<lparr>trace := trace w @ [UrlOpen api, Print [S ''Order status URL: '', S (base_url @ ''/'' @ oid)],
                           UrlOpen (base_url @ ''/'' @ oid)],
       calls := Suc (Suc (calls w))\<rparr>)"
  using assms
  by (simp add: nsidc_submit_def andthen_def urlopen_def emit_def ET_fromstring_def as_str_def Let_def)

lemma nsidc_cleanup_trace: "trace (snd (nsidc_cleanup w)) = trace w"
  by (simp add: nsidc_cleanup_def split: option.splits prod.splits)

lemma nsidc_finish_complete_trace:
  "\<exists>rest. trace (snd (nsidc_finish net oid (Some ''complete'') loop_root w)) =
      trace w @ [Print [S ''Job status is '', T (Some ''complete'')],
                 Print [S ''Zip download URL: '', S (esir_url @ oid @ ''.zip'')],
                 Print [S ''Beginning download of zipped output...''],
                 UrlOpen (esir_url @ oid @ ''.zip'')] @ rest
      \<and> opened rest = []"
proof -
  let ?w3 = "emit (Print [S ''Beginning download of zipped output...''])
             (emit (Print [S ''Zip download URL: '', S (esir_url @ oid @ ''.zip'')])
             (emit (Print [S ''Job status is '', T (Some ''complete'')]) w))"
  obtain r w4 where u: "urlopen net (esir_url @ oid @ ''.zip'') ?w3 = (r, w4)" by force
  then have t4: "trace w4 = trace w @ [Print [S ''Job status is '', T (Some ''complete'')],
                 Print [S ''Zip download URL: '', S (esir_url @ oid @ ''.zip'')],
                 Print [S ''Beginning download of zipped output...''],
                 UrlOpen (esir_url @ oid @ ''.zip'')]"
    by (auto simp: urlopen_def emit_def Let_def split: response.splits if_splits)
  have d: "nsidc_download net oid (Some ''complete'') w =
    andthen (r, w4) (\<lambda>zip_response w.
         andthen (ZipFile zip_response, w) (\<lambda>z w.
           (case extractall z (case outputs w of None \<Rightarrow> Dir [] [] | Some d \<Rightarrow> d) of
              (Some e, d') \<Rightarrow> (Inl e, w\<lparr>outputs := Some d'\<rparr>)
            | (None, d') \<Rightarrow>
                (Inr (), emit (Print [S ''Download is complete.'']) (w\<lparr>outputs := Some d'\<rparr>)))))"
    using u by (simp add: nsidc_download_def Let_def)
  have "trace (snd (nsidc_download net oid (Some ''complete'') w)) = trace w4
      \<or> trace (snd (nsidc_download net oid (Some ''complete'') w)) =
          trace w4 @ [Print [S ''Download is complete.'']]"
    unfolding d by (auto simp: andthen_def emit_def split: sum.splits prod.splits option.splits)
  moreover have "trace (snd (nsidc_finish net oid (Some ''complete'') loop_root w)) =
      trace (snd (nsidc_download net oid (Some ''complete'') w))"
    by (auto simp: nsidc_finish_def nsidc_report_errors_def andthen_def nsidc_cleanup_trace
        split: sum.splits prod.splits)
  ultimately show ?thesis using t4 by auto
qed

text \<open>
  C8, as stated: a status reply that contains \<^verbatim>\<open><requestStatus>complete</requestStatus>\<close>
  yields the status \<^verbatim>\<open>complete\<close>, and the archive is then downloaded. The code reads the
  status with \<^verbatim>\<open>findall("./requestStatus/")\<close>, which selects the child elements of
  \<^verbatim>\<open>requestStatus\<close>, not the element: on such a reply the list of statuses is empty,
  \<^verbatim>\<open>statuslist[0]\<close> raises \<^verbatim>\<open>IndexError\<close>, and the only requests made are the order and the
  status check.
\<close>

theorem status_text_is_not_read:
  "map_option fst (request_nsidc_data plain_status_service api_request fresh_world) =
     Some (Inl IndexError)
   \<and> map_option (opened \<circ> trace \<circ> snd)
       (request_nsidc_data plain_status_service api_request fresh_world) =
     Some [api_request, ''https://n5eil02u.ecs.nsidc.org/egi/request/ORD1'']"
  by (simp add: nsidc_defs example_defs plain_status_service_def plain_status_doc_def)

text \<open>
  C8, amended. When the root of the order reply has a child \<^verbatim>\<open>order\<close> and the first
  element below such children has the text \<open>oid\<close> (as in \<^verbatim>\<open><order><id>ORD1</id></order>\<close>),
  the status is asked for at the request URL followed by \<^verbatim>\<open>/\<close> and \<open>oid\<close>; when the first
  element below the \<^verbatim>\<open>requestStatus\<close> children of that reply's root has the text
  \<^verbatim>\<open>complete\<close> (as in \<^verbatim>\<open><requestStatus><status>complete</status></requestStatus>\<close>), the loop
  is not entered and the next request is the download of the esir URL followed by \<open>oid\<close>
  and \<^verbatim>\<open>.zip\<close>; nothing is requested after it.
\<close>

theorem order_scenario:
  assumes "has_scheme api"
    and "net (calls w) api = Reply c0 h0 (XmlDoc order_root)" "200 \<le> c0" "c0 < 300"
    and "first (texts_under order_root ''order'') = Inr (Some oid)"
    and "net (Suc (calls w)) (base_url @ ''/'' @ oid) = Reply c1 h1 (XmlDoc status_root)"
      "200 \<le> c1" "c1 < 300"
    and "first (texts_under status_root ''requestStatus'') = Inr (Some ''complete'')"
  shows "\<exists>r w' rest. request_nsidc_data net api w = Some (r, w')
           \<and> trace w' = trace w @
               [UrlOpen api,
                Print [S ''Order status URL: '', S (base_url @ ''/'' @ oid)],
                UrlOpen (base_url @ ''/'' @ oid),
                Print [S ''Job status is '', T (Some ''complete'')],
                Print [S ''Zip download URL: '', S (esir_url @ oid @ ''.zip'')],
                Print [S ''Beginning download of zipped output...''],
                UrlOpen (esir_url @ oid @ ''.zip'')] @ rest
           \<and> opened rest = []"
proof -
  let ?w0 = "ensure_outputs w"
  have c: "calls ?w0 = calls w" "trace ?w0 = trace w" by (simp_all add: ensure_outputs_def)
  let ?w1 = "?w0\<lparr>trace := trace ?w0 @ [UrlOpen api,
                  Print [S ''Order status URL: '', S (base_url @ ''/'' @ oid)],
                  UrlOpen (base_url @ ''/'' @ oid)],
       calls := Suc (Suc (calls ?w0))\<rparr>"
  have s: "nsidc_submit net api ?w0 = (Inr (oid, base_url @ ''/'' @ oid, Some ''complete''), ?w1)"
    using nsidc_submit_ok[of api net ?w0 c0 h0 order_root oid c1 h1 status_root "Some ''complete''"]
      assms c by simp
  have p: "nsidc_poll net (base_url @ ''/'' @ oid) (Some ''complete'') None ?w1 =
      Some (Inr (Some ''complete'', None), ?w1)"
    by (rule nsidc_poll_done) (simp add: still_processing_def)
  have r: "request_nsidc_data net api w =
      Some (nsidc_finish net oid (Some ''complete'') None ?w1)"
    by (simp add: request_nsidc_data_def s nsidc_poll_done still_processing_def)
  from nsidc_finish_complete_trace[of net oid None ?w1] obtain rest where
    "trace (snd (nsidc_finish net oid (Some ''complete'') None ?w1)) =
      trace ?w1 @ [Print [S ''Job status is '', T (Some ''complete'')],
                 Print [S ''Zip download URL: '', S (esir_url @ oid @ ''.zip'')],
                 Print [S ''Beginning download of zipped output...''],
                 UrlOpen (esir_url @ oid @ ''.zip'')] @ rest" "opened rest = []" by blast
  with r c show ?thesis
    by (intro exI[of _ "fst (nsidc_finish net oid (Some ''complete'') None ?w1)"]
              exI[of _ "snd (nsidc_finish net oid (Some ''complete'') None ?w1)"]
              exI[of _ rest]) simp
qed

theorem order_scenario_witness:
  "\<exists>r w' rest.
     request_nsidc_data (nsidc_service [''complete''] granules) api_request fresh_world = Some (r, w')
     \<and> trace w' =
         [UrlOpen api_request,
          Print [S ''Order status URL: '', S ''https://n5eil02u.ecs.nsidc.org/egi/request/ORD1''],
          UrlOpen ''https://n5eil02u.ecs.nsidc.org/egi/request/ORD1'',
          Print [S ''Job status is '', T (Some ''complete'')],
          Print [S ''Zip download URL: '', S ''https://n5eil02u.ecs.nsidc.org/esir/ORD1.zip''],
          Print [S ''Beginning download of zipped output...''],
          UrlOpen ''https://n5eil02u.ecs.nsidc.org/esir/ORD1.zip''] @ rest
     \<and> opened rest = []"
proof -
  have 1: "has_scheme api_request" by (simp add: api_request_def)
  have 2: "nsidc_service [''complete''] granules (calls fresh_world) api_request =
      Reply 200 [] (XmlDoc order_doc)"
    by (simp add: nsidc_service_def fresh_world_def)
  have 3: "first (texts_under order_doc ''order'') = Inr (Some ''ORD1'')"
    by (simp add: order_doc_def texts_under_def findall_under_def first_def)
  have 4: "nsidc_service [''complete''] granules (Suc (calls fresh_world)) (base_url @ ''/'' @ ''ORD1'') =
      Reply 200 [] (XmlDoc (status_doc ''complete''))"
    by (simp add: nsidc_service_def fresh_world_def)
  have 5: "first (texts_under (status_doc ''complete'') ''requestStatus'') = Inr (Some ''complete'')"
    by (simp add: status_doc_def texts_under_def findall_under_def first_def)
  from order_scenario[OF 1 2 _ _ 3 4 _ _ 5] show ?thesis
    by (simp add: fresh_world_def base_url_def esir_url_def)
qed

subsection \<open>The archive in the output folder\<close>

lemma move_files_moved:
  "move_files tdirs flat fs = (flat', []) \<Longrightarrow>
     flat' = flat @ fs \<and> (distinct (map fst flat) \<longrightarrow> distinct (map fst flat'))"
proof (induction fs arbitrary: flat)
  case Nil
  then show ?case by simp
next
  case (Cons f fs)
  obtain n c where f: "f = (n, c)" by (cases f)
  from Cons.prems f have n: "n \<notin> set tdirs" "n \<notin> set (map fst flat)"
    by (auto split: if_splits prod.splits)
  with Cons.prems f have "move_files tdirs (flat @ [(n, c)]) fs = (flat', [])" by simp
  from Cons.IH[OF this] have ih: "flat' = (flat @ [(n, c)]) @ fs"
    "distinct (map fst (flat @ [(n, c)])) \<longrightarrow> distinct (map fst flat')" by blast+
  have "distinct (map fst (flat @ [(n, c)]))" if "distinct (map fst flat)"
    using that n(2) by simp
  with ih f show ?case by simp
qed

lemma rmdirs_done: "rmdirs ds = (None, x) \<Longrightarrow> x = []"
  by (induction ds arbitrary: x) (auto split: if_splits)

lemma walk_completes:
  "walk_sub tdirs flat d = (None, flat', Dir [] []) \<Longrightarrow>
     flat' = flat @ deep_files d \<and> (distinct (map fst flat) \<longrightarrow> distinct (map fst flat'))"
  "walk_subs tdirs flat ds = (None, flat', ds') \<Longrightarrow> rmdirs ds' = (None, x) \<Longrightarrow>
     flat' = flat @ deep_files_list ds \<and> (distinct (map fst flat) \<longrightarrow> distinct (map fst flat'))"
proof (induction tdirs flat d and tdirs flat ds arbitrary: flat' and flat' ds' x
    rule: walk_sub_walk_subs.induct)
  case (1 tdirs flat fs ds)
  from "1.prems" obtain flat1 ds1 where
    w: "walk_subs tdirs flat ds = (None, flat1, ds1)"
    and m: "move_files tdirs flat1 fs = (flat', [])"
    and r: "rmdirs ds1 = (None, [])"
    by (auto split: prod.splits option.splits)
  from "1.IH"[OF w r] have a: "flat1 = flat @ deep_files_list ds"
    "distinct (map fst flat) \<longrightarrow> distinct (map fst flat1)" by blast+
  from move_files_moved[OF m] have b: "flat' = flat1 @ fs"
    "distinct (map fst flat1) \<longrightarrow> distinct (map fst flat')" by blast+
  from a(1) b(1) have "flat' = flat @ deep_files (Dir fs ds)" by simp
  moreover from a(2) b(2) have "distinct (map fst flat) \<longrightarrow> distinct (map fst flat')" by blast
  ultimately show ?case by blast
next
  case (2 tdirs flat)
  then show ?case by simp
next
  case (3 tdirs flat n d ds)
  from "3.prems"(1) obtain flat1 d' ds1 where
    w: "walk_sub tdirs flat d = (None, flat1, d')"
    and ws: "walk_subs tdirs flat1 ds = (None, flat', ds1)"
    and e: "ds' = (n, d') # ds1"
    by (auto split: prod.splits option.splits)
  from "3.prems"(2) e have d': "d' = Dir [] []" and r: "rmdirs ds1 = (None, x)"
    by (auto split: if_splits intro: dir.expand)
  from "3.IH"(1)[OF w[unfolded d']] have a:
    "flat1 = flat @ deep_files d" "distinct (map fst flat) \<longrightarrow> distinct (map fst flat1)" by blast+
  have "flat' = flat1 @ deep_files_list ds \<and> (distinct (map fst flat1) \<longrightarrow> distinct (map fst flat'))"
    by (rule "3.IH"(2)[OF w[symmetric] _ _ ws r]) auto
  then have b: "flat' = flat1 @ deep_files_list ds"
    "distinct (map fst flat1) \<longrightarrow> distinct (map fst flat')" by blast+
  from a(1) b(1) have "flat' = flat @ deep_files_list ((n, d) # ds)" by simp
  moreover from a(2) b(2) have "distinct (map fst flat) \<longrightarrow> distinct (map fst flat')" by blast
  ultimately show ?case by blast
qed

lemma flatten_completes:
  assumes "flatten d = (None, d')"
  shows "d' = Dir (files d @ deep_files_list (subdirs d)) []"
    and "distinct (map fst (files d)) \<Longrightarrow> distinct (map fst (files d'))"
proof -
  from assms obtain flat1 ds1 flat2 left where
    w: "walk_subs (map fst (subdirs d)) (files d) (subdirs d) = (None, flat1, ds1)"
    and m: "move_files (map fst ds1) flat1 (files d) = (flat2, left)"
    and r: "rmdirs ds1 = (None, [])" and d': "d' = Dir flat2 []"
    by (auto simp: flatten_def split: prod.splits option.splits dest: rmdirs_done)
  from walk_completes(2)[OF w r] have f:
    "flat1 = files d @ deep_files_list (subdirs d)"
    "distinct (map fst (files d)) \<longrightarrow> distinct (map fst flat1)" by blast+
  have "set (map fst (files d)) \<subseteq> set (map fst ds1) \<union> set (map fst flat1)"
    unfolding f(1) by auto
  then have "move_files (map fst ds1) flat1 (files d) = (flat1, files d)"
    by (rule move_files_none)
  with m have e: "flat2 = flat1" by simp
  from e f(1) d' show "d' = Dir (files d @ deep_files_list (subdirs d)) []" by simp
  from e f(2) d' show "distinct (map fst (files d)) \<Longrightarrow> distinct (map fst (files d'))" by simp
qed

lemma nsidc_finish_returned:
  assumes "wf_dir a" and "outputs w = Some (Dir [] [])"
    and "net (calls w) (esir_url @ orderID @ ''.zip'') = Reply code hdrs (ZipArchive a)"
    and "status = Some ''complete'' \<or> status = Some ''complete_with_errors''"
    and "nsidc_finish net orderID status loop_root w = (Inr u, w')"
  shows "outputs w' = Some (Dir (files a @ deep_files_list (subdirs a)) [])"
    and "distinct (map fst (files a @ deep_files_list (subdirs a)))"
proof -
  have x: "extractall a (Dir [] []) = (None, a)" by (rule extractall_fresh(1)[OF refl assms(1)])
  obtain r d' where f: "flatten a = (r, d')" by force
  from assms(2,3,4,5) x f have "r = None \<and> outputs w' = Some d'"
    by (auto simp: nsidc_finish_def nsidc_report_errors_def nsidc_download_def nsidc_cleanup_def
        andthen_def urlopen_def emit_def ZipFile_def Let_def
        split: if_splits option.splits sum.splits prod.splits)
  then have r: "flatten a = (None, d')" and o: "outputs w' = Some d'" using f by simp_all
  from flatten_completes(1)[OF r] o
  show "outputs w' = Some (Dir (files a @ deep_files_list (subdirs a)) [])" by simp
  from assms(1) have "distinct (map fst (files a))" by (cases a) simp
  from flatten_completes(2)[OF r this] flatten_completes(1)[OF r]
  show "distinct (map fst (files a @ deep_files_list (subdirs a)))" by simp
qed

lemma deep_files_count:
  "length (files a @ deep_files_list (subdirs a)) = length (deep_files a)"
  "set (files a @ deep_files_list (subdirs a)) = set (deep_files a)"
  by (cases a, auto)+

lemma nsidc_finish_completes:
  assumes "wf_dir a"
    and "distinct (map fst (files a @ deep_files_list (subdirs a)))"
    and "set (map fst (deep_files_list (subdirs a))) \<inter> set (map fst (subdirs a)) = {}"
    and "outputs w = Some (Dir [] [])"
    and "net (calls w) (esir_url @ orderID @ ''.zip'') = Reply code hdrs (ZipArchive a)"
    and "200 \<le> code" "code < 300"
    and "status = Some ''complete'' \<or> status = Some ''complete_with_errors'' \<and> loop_root \<noteq> None"
  shows "fst (nsidc_finish net orderID status loop_root w) = Inr ()"
proof -
  have x: "extractall a (Dir [] []) = (None, a)" by (rule extractall_fresh(1)[OF refl assms(1)])
  have f: "flatten a = (None, Dir (files a @ deep_files_list (subdirs a)) [])"
    by (rule flatten_collects[OF assms(2,3)])
  from assms(8) obtain root where
    r: "status = Some ''complete'' \<or> status = Some ''complete_with_errors'' \<and> loop_root = Some root"
    by auto
  from r assms(4,5,6,7) x f show ?thesis
    by (auto simp: nsidc_finish_def nsidc_report_errors_def nsidc_download_def nsidc_cleanup_def
        andthen_def urlopen_def emit_def ZipFile_def Let_def)
qed

text \<open>
  C5, as stated: whatever the N files of the archive, exactly N files lie directly under
  the output folder once extraction and the clean-up walk are through. The output folder
  is created only when it does not exist, and what it holds stays: with one file left in
  it by an earlier run and an archive of two files in two folders, the call returns
  normally and the output folder holds three files and no subdirectory.
\<close>

theorem earlier_files_are_counted:
  "map_option fst (request_nsidc_data (nsidc_service [''complete''] granules) api_request
       (fresh_world\<lparr>outputs := Some kept\<rparr>)) = Some (Inr ())
   \<and> map_option (map_option (\<lambda>d. (length (files d), set (files d), subdirs d)) \<circ> outputs \<circ> snd)
       (request_nsidc_data (nsidc_service [''complete''] granules) api_request
          (fresh_world\<lparr>outputs := Some kept\<rparr>)) =
     Some (Some (3, {(''z.txt'', ''ZZZZ''), (''a.h5'', ''AAAA''), (''b.h5'', ''BBBB'')}, []))
   \<and> length (deep_files granules) = 2"
  by (simp add: nsidc_defs example_defs nsidc_service_def granules_def kept_def nsidc_poll.simps
      insert_commute)

text \<open>
  C5, amended. Let the archive be a directory tree and let the output folder be new or
  empty when the archive is extracted. Whenever the part of \<^verbatim>\<open>request_nsidc_data\<close> that
  follows the loop returns, the output folder holds the files of the archive, each once
  and as many as the archive has, under pairwise distinct names, and no subdirectory.
  It does return when the files of the archive have pairwise distinct names, none of
  them the name of a top-level folder of the archive, and the archive is served. A move
  whose target name is taken under the output folder is swallowed: the file stays where
  it is and nothing is raised by the move.
\<close>

theorem archive_is_flattened:
  "(wf_dir a
    \<and> outputs w = Some (Dir [] [])
    \<and> net (calls w) (esir_url @ orderID @ ''.zip'') = Reply code hdrs (ZipArchive a)
    \<and> (status = Some ''complete'' \<or> status = Some ''complete_with_errors'')
    \<and> nsidc_finish net orderID status loop_root w = (Inr u, w') \<longrightarrow>
      (\<exists>fs. outputs w' = Some (Dir fs [])
         \<and> length fs = length (deep_files a) \<and> set fs = set (deep_files a)
         \<and> distinct (map fst fs)))
   \<and> (wf_dir a
    \<and> distinct (map fst (files a @ deep_files_list (subdirs a)))
    \<and> set (map fst (deep_files_list (subdirs a))) \<inter> set (map fst (subdirs a)) = {}
    \<and> outputs w = Some (Dir [] [])
    \<and> net (calls w) (esir_url @ orderID @ ''.zip'') = Reply code hdrs (ZipArchive a)
    \<and> 200 \<le> code \<and> code < 300
    \<and> (status = Some ''complete'' \<or> status = Some ''complete_with_errors'' \<and> loop_root \<noteq> None) \<longrightarrow>
      fst (nsidc_finish net orderID status loop_root w) = Inr ())
   \<and> (set (map fst fs) \<subseteq> set tdirs \<union> set (map fst flat) \<longrightarrow>
        move_files tdirs flat fs = (flat, fs))"
proof (intro conjI impI)
  assume a: "wf_dir a
    \<and> outputs w = Some (Dir [] [])
    \<and> net (calls w) (esir_url @ orderID @ ''.zip'') = Reply code hdrs (ZipArchive a)
    \<and> (status = Some ''complete'' \<or> status = Some ''complete_with_errors'')
    \<and> nsidc_finish net orderID status loop_root w = (Inr u, w')"
  then have "outputs w' = Some (Dir (files a @ deep_files_list (subdirs a)) [])"
    and "distinct (map fst (files a @ deep_files_list (subdirs a)))"
    using nsidc_finish_returned[of a w net orderID code hdrs status loop_root u w'] by blast+
  then show "\<exists>fs. outputs w' = Some (Dir fs [])
         \<and> length fs = length (deep_files a) \<and> set fs = set (deep_files a)
         \<and> distinct (map fst fs)"
    using deep_files_count[of a] by blast
next
  assume "wf_dir a
    \<and> distinct (map fst (files a @ deep_files_list (subdirs a)))
    \<and> set (map fst (deep_files_list (subdirs a))) \<inter> set (map fst (subdirs a)) = {}
    \<and> outputs w = Some (Dir [] [])
    \<and> net (calls w) (esir_url @ orderID @ ''.zip'') = Reply code hdrs (ZipArchive a)
    \<and> 200 \<le> code \<and> code < 300
    \<and> (status = Some ''complete'' \<or> status = Some ''complete_with_errors'' \<and> loop_root \<noteq> None)"
  then show "fst (nsidc_finish net orderID status loop_root w) = Inr ()"
    using nsidc_finish_completes[of a w net orderID code hdrs status loop_root] by blast
next
  assume "set (map fst fs) \<subseteq> set tdirs \<union> set (map fst flat)"
  then show "move_files tdirs flat fs = (flat, fs)" by (rule move_files_none)
qed

theorem archive_is_flattened_witness:
  "fst (nsidc_finish (zip_service granules) ''ORD1'' (Some ''complete'') None
         (ensure_outputs fresh_world)) = Inr ()
   \<and> (\<exists>fs. outputs (snd (nsidc_finish (zip_service granules) ''ORD1'' (Some ''complete'') None
                (ensure_outputs fresh_world))) = Some (Dir fs [])
         \<and> length fs = 2 \<and> set fs = {(''a.h5'', ''AAAA''), (''b.h5'', ''BBBB'')}
         \<and> distinct (map fst fs))
   \<and> move_files [''g1'', ''g2''] [(''x.h5'', ''AAAA'')] [(''x.h5'', ''BBBB'')] =
       ([(''x.h5'', ''AAAA'')], [(''x.h5'', ''BBBB'')])"
proof -
  let ?r = "nsidc_finish (zip_service granules) ''ORD1'' (Some ''complete'') None
         (ensure_outputs fresh_world)"
  have 1: "wf_dir granules"
    "distinct (map fst (files granules @ deep_files_list (subdirs granules)))"
    "set (map fst (deep_files_list (subdirs granules))) \<inter> set (map fst (subdirs granules)) = {}"
    by (simp_all add: granules_def)
  have 2: "outputs (ensure_outputs fresh_world) = Some (Dir [] [])"
    "zip_service granules (calls (ensure_outputs fresh_world)) (esir_url @ ''ORD1'' @ ''.zip'') =
       Reply 200 [] (ZipArchive granules)"
    by (simp_all add: ensure_outputs_def fresh_world_def zip_service_def)
  have 3: "length (deep_files granules) = 2"
    "set (deep_files granules) = {(''a.h5'', ''AAAA''), (''b.h5'', ''BBBB'')}"
    by (simp_all add: granules_def)
  have 4: "set (map fst [(''x.h5'', ''BBBB'')]) \<subseteq> set [''g1'', ''g2''] \<union> set (map fst [(''x.h5'', ''AAAA'')])"
    by simp
  note t = archive_is_flattened[where a = granules and w = "ensure_outputs fresh_world"
      and net = "zip_service granules" and orderID = "''ORD1''" and code = 200 and hdrs = "[]"
      and status = "Some ''complete''" and loop_root = None
      and fs = "[(''x.h5'', ''BBBB'')]" and tdirs = "[''g1'', ''g2'']" and flat = "[(''x.h5'', ''AAAA'')]"
      and u = "()" and w' = "snd ?r"]
  from t 1 2 have a: "fst ?r = Inr ()" by simp
  then have b: "?r = (Inr (), snd ?r)" by (simp add: prod_eq_iff)
  from t 1 2 b have "\<exists>fs. outputs (snd ?r) = Some (Dir fs [])
         \<and> length fs = length (deep_files granules) \<and> set fs = set (deep_files granules)
         \<and> distinct (map fst fs)" by blast
  then have c: "\<exists>fs. outputs (snd ?r) = Some (Dir fs [])
         \<and> length fs = 2 \<and> set fs = {(''a.h5'', ''AAAA''), (''b.h5'', ''BBBB'')}
         \<and> distinct (map fst fs)" unfolding 3 .
  from t 4 have d: "move_files [''g1'', ''g2''] [(''x.h5'', ''AAAA'')] [(''x.h5'', ''BBBB'')] =
       ([(''x.h5'', ''AAAA'')], [(''x.h5'', ''BBBB'')])" by blast
  from a c d show ?thesis by blast
qed

subsection \<open>An order that does not complete\<close>

lemma flatten_flat: "subdirs d = [] \<Longrightarrow> flatten d = (None, d)"
  by (cases d) (simp add: flatten_def move_files_none)

lemma nsidc_finish_failed:
  assumes "status \<noteq> Some ''complete''" "status \<noteq> Some ''complete_with_errors''"
    and "status = Some ''failed'' \<longrightarrow> loop_root = Some root"
    and "outputs w = Some d"
  shows "nsidc_finish net orderID status loop_root w =
          ((case fst (flatten d) of None \<Rightarrow> Inr () | Some e \<Rightarrow> Inl e),
           w\<lparr>trace := trace w
                 @ (if status = Some ''failed''
                    then [Print [S ''Job status is '', T status], Print [S ''error messages:''],
                          PPrint (Msgs (texts_under root ''processInfo''))]
                    else [])
                 @ [Print [S ''Request failed.'']],
             outputs := Some (snd (flatten d))\<rparr>)"
  using assms
  by (auto simp: nsidc_finish_def nsidc_report_errors_def nsidc_download_def nsidc_cleanup_def
      andthen_def emit_def Let_def split: prod.splits option.splits)

text \<open>
  C10, as stated: a final status outside \<^verbatim>\<open>complete\<close> and \<^verbatim>\<open>complete_with_errors\<close> makes
  the function print \<^verbatim>\<open>Request failed.\<close>, walk the output folder and return normally. The
  walk runs on whatever the output folder holds: when an earlier run has left a folder
  in it with a file whose name is taken, the walk raises \<^verbatim>\<open>OSError\<close> after the line is
  printed.
\<close>

theorem leftover_folder_raises:
  "map_option fst (request_nsidc_data (nsidc_service [''cancelled''] granules) api_request
       (fresh_world\<lparr>outputs := Some leftover\<rparr>)) = Some (Inl OSError)
   \<and> map_option (trace \<circ> snd) (request_nsidc_data (nsidc_service [''cancelled''] granules) api_request
       (fresh_world\<lparr>outputs := Some leftover\<rparr>)) =
       Some [UrlOpen api_request,
             Print [S ''Order status URL: '', S ''https://n5eil02u.ecs.nsidc.org/egi/request/ORD1''],
             UrlOpen ''https://n5eil02u.ecs.nsidc.org/egi/request/ORD1'',
             Print [S ''Request failed.'']]"
  by (simp add: nsidc_defs example_defs nsidc_service_def leftover_def nsidc_poll.simps)

text \<open>
  C10, amended. Any status other than \<^verbatim>\<open>pending\<close> and \<^verbatim>\<open>processing\<close> ends the loop. With a
  final status other than \<^verbatim>\<open>complete\<close> and \<^verbatim>\<open>complete_with_errors\<close>, and a pass through the
  loop behind it when the status is \<^verbatim>\<open>failed\<close>, nothing is requested any more:
  the diagnostics are printed for \<^verbatim>\<open>failed\<close>, then \<^verbatim>\<open>Request failed.\<close>, and the output folder
  is walked; the call returns normally when the walk does, as it does on a folder
  without subdirectories, which it leaves unchanged.
\<close>

theorem failed_request_skips_download:
  "(\<not> still_processing status \<longrightarrow>
      nsidc_poll net url status loop_root w = Some (Inr (status, loop_root), w))
   \<and> (status \<noteq> Some ''complete'' \<and> status \<noteq> Some ''complete_with_errors''
       \<and> (status = Some ''failed'' \<longrightarrow> loop_root = Some root) \<and> outputs w = Some d \<longrightarrow>
        nsidc_finish net orderID status loop_root w =
          ((case fst (flatten d) of None \<Rightarrow> Inr () | Some e \<Rightarrow> Inl e),
           w\<lparr>trace := trace w
                 @ (if status = Some ''failed''
                    then [Print [S ''Job status is '', T status], Print [S ''error messages:''],
                          PPrint (Msgs (texts_under root ''processInfo''))]
                    else [])
                 @ [Print [S ''Request failed.'']],
             outputs := Some (snd (flatten d))\<rparr>))
   \<and> (subdirs d = [] \<longrightarrow> flatten d = (None, d))"
  using nsidc_poll_done[of status net url loop_root w]
    nsidc_finish_failed[of status loop_root root w d net orderID] flatten_flat[of d]
  by blast

theorem failed_request_skips_download_witness:
  "nsidc_poll always_pending status_url (Some ''cancelled'') None fresh_world =
     Some (Inr (Some ''cancelled'', None), fresh_world)
   \<and> nsidc_finish always_pending ''ORD1'' (Some ''failed'') (Some (status_doc ''failed''))
       (ensure_outputs fresh_world) =
     (Inr (),
      \<lparr>trace = [Print [S ''Job status is '', T (Some ''failed'')], Print [S ''error messages:''],
                PPrint (Msgs [Some ''No data found'']), Print [S ''Request failed.'']],
       calls = 0, outputs = Some (Dir [] []), cwd = (\<lambda>_. None)\<rparr>)
   \<and> flatten (Dir [(''a.h5'', ''AAAA'')] []) = (None, Dir [(''a.h5'', ''AAAA'')] [])"
proof -
  have 1: "\<not> still_processing (Some ''cancelled'')" by (simp add: still_processing_def)
  have 2: "Some ''failed'' \<noteq> Some ''complete''" "Some ''failed'' \<noteq> Some ''complete_with_errors''"
    "outputs (ensure_outputs fresh_world) = Some (Dir [] [])"
    by (simp_all add: ensure_outputs_def fresh_world_def)
  have 3: "subdirs (Dir [(''a.h5'', ''AAAA'')] []) = []" by simp
  note a = failed_request_skips_download[where status = "Some ''cancelled''" and net = always_pending
      and url = status_url and loop_root = None and w = fresh_world, THEN conjunct1]
  note b = failed_request_skips_download[where status = "Some ''failed''" and net = always_pending
      and loop_root = "Some (status_doc ''failed'')" and root = "status_doc ''failed''"
      and w = "ensure_outputs fresh_world" and d = "Dir [] []" and orderID = "''ORD1''",
      THEN conjunct2, THEN conjunct1]
  note c = failed_request_skips_download[where d = "Dir [(''a.h5'', ''AAAA'')] []",
      THEN conjunct2, THEN conjunct2]
  from a 1 have "nsidc_poll always_pending status_url (Some ''cancelled'') None fresh_world =
     Some (Inr (Some ''cancelled'', None), fresh_world)" by simp
  moreover from b 2 have "nsidc_finish always_pending ''ORD1'' (Some ''failed'')
       (Some (status_doc ''failed'')) (ensure_outputs fresh_world) =
     (Inr (),
      \<lparr>trace = [Print [S ''Job status is '', T (Some ''failed'')], Print [S ''error messages:''],
                PPrint (Msgs [Some ''No data found'']), Print [S ''Request failed.'']],
       calls = 0, outputs = Some (Dir [] []), cwd = (\<lambda>_. None)\<rparr>)"
    by (simp add: flatten_def ensure_outputs_def fresh_world_def status_doc_def texts_under_def
        findall_under_def)
  moreover from c 3 have "flatten (Dir [(''a.h5'', ''AAAA'')] []) = (None, Dir [(''a.h5'', ''AAAA'')] [])"
    by simp
  ultimately show ?thesis by blast
qed

end
